(* ===== verification/Go_Prelude.thy ===== *)
theory Go_Prelude
  imports Complex_Main "HOL-Library.Finite_Map" "HOL-Library.Word" "HOL-Library.Multiset"
begin

text \<open>
  What every component shares: the Go run time as the model sees it (panics as values, strings,
  decimal printing, \<^verbatim>\<open>copy\<close> and maps with their unspecified iteration order), and the generic
  facts about lists, maps and reachable states that the component proofs use.
\<close>

named_theorems go_defs \<open>definitions unfolded together in the component proofs\<close>
named_theorems go_state \<open>what an operation does to one field of a state\<close>

section \<open>Panics and results\<close>

text \<open>
  A Go call that may panic returns \<open>Inl\<close> of the reason. \<^verbatim>\<open>log.Panic\<close> and \<^verbatim>\<open>log.Fatal\<close> of
  the source are panics of their own kind, since both end the call that reaches them.
\<close>

datatype panic =
    NilDereference
  | SliceOutOfRange
  | MakeSliceLen
  | IndexOutOfRange
  | LogPanic string
  | LogFatal string

type_synonym 'a result = "panic + 'a"

definition bind_result :: "'a result \<Rightarrow> ('a \<Rightarrow> 'b result) \<Rightarrow> 'b result" where
  "bind_result r f = (case r of Inl p \<Rightarrow> Inl p | Inr x \<Rightarrow> f x)"

lemma bind_result_simps [simp]:
  "bind_result (Inl p) f = Inl p"
  "bind_result (Inr x) f = f x"
  by (simp_all add: bind_result_def)

lemma bind_result_Inr_iff:
  "bind_result r f = Inr y \<longleftrightarrow> (\<exists>x. r = Inr x \<and> f x = Inr y)"
  by (cases r) simp_all

lemma bind_result_InrE [elim!]:
  assumes "bind_result r f = Inr y"
  obtains x where "r = Inr x" "f x = Inr y"
  using assms by (auto simp: bind_result_Inr_iff)

type_synonym int64 = "64 word"
type_synonym uint64 = "64 word"

text \<open>\<^verbatim>\<open>MaxInt\<close>, the largest length a slice can have on a 64 bit machine.\<close>

definition max_int :: nat where
  "max_int = 2 ^ 63 - 1"

section \<open>Strings\<close>

definition digit :: "nat \<Rightarrow> char" where
  "digit n = char_of (n + 48)"

fun digits :: "nat \<Rightarrow> string" where
  "digits n = (if n < 10 then [digit n] else digits (n div 10) @ [digit (n mod 10)])"

declare digits.simps [simp del]

text \<open>The verb \<^verbatim>\<open>%d\<close> of \<^verbatim>\<open>fmt.Sprintf\<close>.\<close>

definition fmt_d :: "int \<Rightarrow> string" where
  "fmt_d i = (if i < 0 then CHR ''-'' # digits (nat (- i)) else digits (nat i))"

definition undigits :: "string \<Rightarrow> nat" where
  "undigits = foldl (\<lambda>a c. 10 * a + (of_char c - 48)) 0"

text \<open>\<^verbatim>\<open>strings.Join\<close>, and \<^verbatim>\<open>strings.Contains\<close> for a one character substring.\<close>

fun join_strings :: "string list \<Rightarrow> string \<Rightarrow> string" where
  "join_strings [] sep = []"
| "join_strings [s] sep = s"
| "join_strings (s # t # ss) sep = s @ sep @ join_strings (t # ss) sep"

definition contains_char :: "string \<Rightarrow> char \<Rightarrow> bool" where
  "contains_char s c = list_ex (\<lambda>d. d = c) s"

lemma contains_char_iff [simp]: "contains_char s c \<longleftrightarrow> c \<in> set s"
  by (auto simp: contains_char_def list_ex_iff)

text \<open>\<^verbatim>\<open>strings.Split\<close> at one character: there is always a first part.\<close>

fun split_at :: "char \<Rightarrow> string \<Rightarrow> string list" where
  "split_at sep [] = [[]]"
| "split_at sep (c # cs) =
     (if c = sep then [] # split_at sep cs
      else (case split_at sep cs of [] \<Rightarrow> [[c]] | part # parts \<Rightarrow> (c # part) # parts))"

lemma of_char_digit: "n < 10 \<Longrightarrow> of_char (digit n) = n + 48"
  by (simp add: digit_def)

lemma undigits_snoc: "undigits (s @ [c]) = 10 * undigits s + (of_char c - 48)"
  by (simp add: undigits_def)

lemma undigits_digits [simp]: "undigits (digits n) = n"
proof (induction n rule: digits.induct)
  case (1 n)
  show ?case
  proof (cases "n < 10")
    case True
    then show ?thesis
      by (simp add: digits.simps [of n] undigits_def of_char_digit)
  next
    case False
    then have "undigits (digits n) = 10 * undigits (digits (n div 10)) + n mod 10"
      by (simp add: digits.simps [of n] undigits_snoc of_char_digit)
    with False "1.IH" show ?thesis by simp
  qed
qed

lemma digits_eq_iff [simp]: "digits m = digits n \<longleftrightarrow> m = n"
  by (metis undigits_digits)

lemma digits_not_Nil [simp]: "digits n \<noteq> []"
  by (subst digits.simps) simp

lemma of_char_digits: "c \<in> set (digits n) \<Longrightarrow> 48 \<le> (of_char c :: nat) \<and> (of_char c :: nat) < 58"
proof (induction n rule: digits.induct)
  case (1 n)
  then show ?case
    by (cases "n < 10") (auto simp: digits.simps [of n] of_char_digit)
qed

lemma digits_separators:
  "CHR ''-'' \<notin> set (digits n)" "CHR ''/'' \<notin> set (digits n)"
  using of_char_digits [of "CHR ''-''" n] of_char_digits [of "CHR ''/''" n] by auto

lemma fmt_d_eq_iff [simp]: "fmt_d i = fmt_d j \<longleftrightarrow> i = j"
proof
  assume eq: "fmt_d i = fmt_d j"
  have hd: "hd (digits n) \<noteq> CHR ''-''" for n
    using digits_separators(1) [of n] by (metis digits_not_Nil list.set_sel(1))
  from eq hd show "i = j"
    by (auto simp: fmt_d_def split: if_splits) (metis list.sel(1))+
qed simp

lemma fmt_d_no_dash: "0 \<le> i \<Longrightarrow> CHR ''-'' \<notin> set (fmt_d i)"
  by (simp add: fmt_d_def digits_separators)

text \<open>The parts of a string, and the string of its parts.\<close>

lemma split_at_not_Nil [simp]: "split_at sep s \<noteq> []"
  by (induction s) (auto split: list.splits)

lemma split_at_no_sep: "p \<in> set (split_at sep s) \<Longrightarrow> sep \<notin> set p"
  by (induction s arbitrary: p) (auto split: list.splits if_splits)

lemma join_split_at: "join_strings (split_at sep s) [sep] = s"
proof (induction s)
  case (Cons c cs)
  obtain part parts where "split_at sep cs = part # parts" by (cases "split_at sep cs") auto
  with Cons.IH show ?case by (cases parts) auto
qed simp

lemma split_at_part: "sep \<notin> set p \<Longrightarrow> split_at sep (p @ sep # s) = p # split_at sep s"
  by (induction p) auto

lemma split_at_single: "sep \<notin> set p \<Longrightarrow> split_at sep p = [p]"
  by (induction p) auto

lemma split_at_join:
  "ps \<noteq> [] \<Longrightarrow> \<forall>p \<in> set ps. sep \<notin> set p \<Longrightarrow> split_at sep (join_strings ps [sep]) = ps"
proof (induction ps rule: induct_list012)
  case (3 p q ps)
  then show ?case by (simp add: split_at_part)
qed (simp_all add: split_at_single)

text \<open>Two texts that end in a separator and a part without it agree only part by part.\<close>

lemma append_sep_eq_iff:
  assumes "c \<notin> set ds" and "c \<notin> set es"
  shows "xs @ c # ds = ys @ c # es \<longleftrightarrow> xs = ys \<and> ds = es"
proof -
  have "rev ds @ c # rev xs = rev es @ c # rev ys \<Longrightarrow> rev ds = rev es \<and> rev xs = rev ys"
    using assms
  proof (induction ds arbitrary: es rule: rev_induct)
    case Nil
    then show ?case by (cases es rule: rev_cases) auto
  next
    case (snoc d ds)
    then show ?case by (cases es rule: rev_cases) auto
  qed
  then show ?thesis by (metis append.assoc append_Cons append_Nil rev.simps(2) rev_append rev_rev_ident)
qed

section \<open>Slices\<close>

text \<open>\<^verbatim>\<open>copy(dst, src)\<close>: the common prefix of \<open>dst\<close> is overwritten.\<close>

definition go_copy :: "'a list \<Rightarrow> 'a list \<Rightarrow> 'a list" where
  "go_copy dst src = take (length dst) src @ drop (length src) dst"

lemma length_go_copy [simp]: "length (go_copy dst src) = length dst"
  by (simp add: go_copy_def)

lemma go_copy_all [simp]: "length src = length dst \<Longrightarrow> go_copy dst src = src"
  by (simp add: go_copy_def)

lemma go_copy_take:
  "length src \<le> length dst \<Longrightarrow> take (length src) (go_copy dst src) = src"
  by (simp add: go_copy_def)

lemma mset_remove_window:
  "mset (take p (drop s xs)) + mset (take s xs @ drop (s + p) xs) = mset xs"
proof -
  have "mset xs = mset (take s xs) + mset (drop s xs)"
    by (metis append_take_drop_id mset_append)
  moreover have "mset (drop s xs) = mset (take p (drop s xs)) + mset (drop (s + p) xs)"
    by (metis add.commute append_take_drop_id drop_drop mset_append)
  ultimately show ?thesis by simp
qed

lemma sorted_map_remdups: "sorted (map f xs) \<Longrightarrow> sorted (map f (remdups xs))"
  by (induction xs) auto

lemma map_int_upt: "map int [m..<Suc n] = [int m..int n]"
proof (rule sorted_distinct_set_unique)
  show "sorted (map int [m..<Suc n])"
    by (intro sorted_map_mono) (auto simp: mono_on_def simp del: upt_Suc)
  show "set (map int [m..<Suc n]) = set [int m..int n]"
    by (simp add: image_int_atLeastAtMost atLeastLessThanSuc_atLeastAtMost del: upt_Suc)
qed (simp_all add: distinct_map del: upt_Suc)

section \<open>Maps\<close>

text \<open>
  A Go map is a finite map. \<^verbatim>\<open>range\<close> visits its entries in an order the language leaves open and
  the run time changes from loop to loop, so a loop of the model takes the order it happens to see
  as an argument, and the properties quantify over every order that enumerates the map.
\<close>

definition len_map :: "('k, 'v) fmap \<Rightarrow> nat" where
  "len_map m = fcard (fmdom m)"

definition enumerates :: "'k list \<Rightarrow> ('k, 'v) fmap \<Rightarrow> bool" where
  "enumerates ks m \<longleftrightarrow> distinct ks \<and> fset_of_list ks = fmdom m"

lemma enumeratesD:
  assumes "enumerates ks m"
  shows "distinct ks" and "k \<in> set ks \<longleftrightarrow> k |\<in>| fmdom m"
  using assms by (auto simp: enumerates_def fset_of_list_elem [symmetric])

lemma enumerates_lookup:
  assumes "enumerates ks m"
  shows "k \<in> set ks \<longleftrightarrow> (\<exists>v. fmlookup m k = Some v)"
  using enumeratesD(2) [OF assms] by (simp add: fmlookup_dom_iff)

lemma enumerates_length:
  assumes "enumerates ks m"
  shows "length ks = len_map m"
  using assms
  by (metis distinct_card enumerates_def fcard.rep_eq fset_of_list.rep_eq len_map_def)

lemma enumerates_ex: "\<exists>ks. enumerates ks m"
proof -
  obtain ks where "distinct ks" and "set ks = fset (fmdom m)"
    by (metis finite_distinct_list finite_fset)
  then have "enumerates ks m"
    by (simp add: enumerates_def fset_of_list.rep_eq flip: fset_inject)
  then show ?thesis ..
qed

lemma len_map_empty [simp]: "len_map fmempty = 0"
  by (simp add: len_map_def)

lemma len_map_upd:
  "len_map (fmupd k v m) = (if k |\<in>| fmdom m then len_map m else Suc (len_map m))"
  by (simp add: len_map_def fcard_finsert_if finsert_absorb)

lemma len_map_drop:
  "k |\<in>| fmdom m \<Longrightarrow> Suc (len_map (fmdrop k m)) = len_map m"
  by (metis fcard_Suc_fminus1 fmdom_drop len_map_def)

lemma len_map_fmmap [simp]: "len_map (fmmap f m) = len_map m"
  by (simp add: len_map_def)

lemma len_map_eq_0_iff: "len_map m = 0 \<longleftrightarrow> m = fmempty"
  by (metis fcard_0_eq fmdom_empty fmrestrict_fset_dom fmrestrict_fset_null len_map_def)

text \<open>Moving an entry from one map to another keeps the number of entries of the two together.\<close>

lemma len_map_move:
  assumes "k |\<in>| fmdom m" and "k |\<notin>| fmdom g"
  shows "len_map (fmdrop k m) + len_map (fmupd k v g) = len_map m + len_map g"
  using assms len_map_drop [OF assms(1)] by (simp add: len_map_upd)

lemma fmap_forall_upd:
  assumes "\<And>k v. fmlookup m k = Some v \<Longrightarrow> P k v" and "P k0 v0"
    and "fmlookup (fmupd k0 v0 m) k = Some v"
  shows "P k v"
  using assms by (auto split: if_splits)

section \<open>Reachable states\<close>

text \<open>
  An invariant holds at the start and across every step, so it holds in every state a run reaches.
\<close>

locale invariant_system =
  fixes init :: "'s \<Rightarrow> bool"
    and step :: "'s \<Rightarrow> 's \<Rightarrow> bool"
    and inv :: "'s \<Rightarrow> bool"
  assumes init_inv: "init s \<Longrightarrow> inv s"
    and step_inv: "step s t \<Longrightarrow> inv s \<Longrightarrow> inv t"
begin

lemma steps_inv: "step\<^sup>*\<^sup>* s t \<Longrightarrow> inv s \<Longrightarrow> inv t"
  by (induction rule: rtranclp_induct) (auto intro: step_inv)

lemma reach_inv: "init s \<Longrightarrow> step\<^sup>*\<^sup>* s t \<Longrightarrow> inv t"
  by (blast intro: init_inv steps_inv)

end

section \<open>Bounded retries\<close>

text \<open>
  A call that is tried again until it succeeds or its attempts are used up. Attempt number \<open>c\<close> ends
  the loop with \<open>Inl\<close> or yields the state of the next attempt; \<open>exhausted\<close> is the result when the
  counter has passed the limit \<open>m\<close>.
\<close>

primrec tries :: "(int \<Rightarrow> 's \<Rightarrow> 'r + 's) \<Rightarrow> ('s \<Rightarrow> 'r) \<Rightarrow> nat \<Rightarrow> int \<Rightarrow> 's \<Rightarrow> 'r" where
  "tries attempt exhausted 0 c s = exhausted s"
| "tries attempt exhausted (Suc n) c s =
     (case attempt c s of Inl r \<Rightarrow> r | Inr s' \<Rightarrow> tries attempt exhausted n (c + 1) s')"

text \<open>From attempt \<open>c\<close> on, \<open>n\<close> failed attempts lead from \<open>s\<close> to \<open>t\<close>.\<close>

inductive fails :: "(int \<Rightarrow> 's \<Rightarrow> 'r + 's) \<Rightarrow> int \<Rightarrow> nat \<Rightarrow> 's \<Rightarrow> 's \<Rightarrow> bool" for attempt where
  fails_0: "fails attempt c 0 s s"
| fails_Suc: "attempt c s = Inr s' \<Longrightarrow> fails attempt (c + 1) n s' t \<Longrightarrow> fails attempt c (Suc n) s t"

inductive_cases fails_SucE: "fails attempt c (Suc n) s t"
inductive_cases fails_0E: "fails attempt c 0 s t"

lemma fails_last: "fails attempt c (Suc n) s t \<Longrightarrow> \<exists>c' s'. attempt c' s' = Inr t"
proof (induction n arbitrary: c s)
  case 0
  then show ?case by (auto elim!: fails_SucE fails_0E)
next
  case (Suc n)
  then show ?case by (auto elim: fails_SucE)
qed

lemma tries_fails:
  "fails attempt c k s t \<Longrightarrow> tries attempt exhausted (k + n) c s = tries attempt exhausted n (c + int k) t"
  by (induction rule: fails.induct) (simp_all add: ac_simps)

lemma tries_cases:
  "(\<exists>k t r. k < n \<and> fails attempt c k s t \<and> attempt (c + int k) t = Inl r \<and> tries attempt exhausted n c s = r) \<or>
   (\<exists>t. fails attempt c n s t \<and> tries attempt exhausted n c s = exhausted t)"
proof (induction n arbitrary: c s)
  case 0
  then show ?case by (auto intro: fails_0)
next
  case (Suc n)
  show ?case
  proof (cases "attempt c s")
    case (Inl r)
    then have "0 < Suc n \<and> fails attempt c 0 s s \<and> attempt (c + int 0) s = Inl r \<and>
        tries attempt exhausted (Suc n) c s = r"
      by (simp add: fails_0)
    then show ?thesis by blast
  next
    case (Inr s')
    from Suc [of "c + 1" s'] show ?thesis
    proof (elim disjE exE conjE)
      fix k t r
      assume "k < n" "fails attempt (c + 1) k s' t" "attempt (c + 1 + int k) t = Inl r"
        "tries attempt exhausted n (c + 1) s' = r"
      with Inr have "Suc k < Suc n \<and> fails attempt c (Suc k) s t \<and> attempt (c + int (Suc k)) t = Inl r \<and>
          tries attempt exhausted (Suc n) c s = r"
        by (auto intro: fails_Suc simp: ac_simps)
      then show ?thesis by blast
    next
      fix t
      assume "fails attempt (c + 1) n s' t" "tries attempt exhausted n (c + 1) s' = exhausted t"
      with Inr show ?thesis by (auto intro: fails_Suc)
    qed
  qed
qed

locale bounded_retry =
  fixes loop :: "int \<Rightarrow> int \<Rightarrow> 's \<Rightarrow> 'r"
    and attempt :: "int \<Rightarrow> 's \<Rightarrow> 'r + 's"
    and exhausted :: "'s \<Rightarrow> 'r"
  assumes loop_step:
    "loop c m s = (if m < c then exhausted s
       else case attempt c s of Inl r \<Rightarrow> r | Inr s' \<Rightarrow> loop (c + 1) m s')"
begin

lemma loop_tries: "loop c m s = tries attempt exhausted (nat (m + 1 - c)) c s"
proof (induction "nat (m + 1 - c)" arbitrary: c s)
  case 0
  then show ?case by (subst loop_step) simp
next
  case (Suc n)
  then have c: "\<not> m < c" and n: "n = nat (m + 1 - (c + 1))" and k: "nat (m + 1 - c) = Suc n" by linarith+
  show ?case
    unfolding k using c Suc.hyps(1) [OF n] by (subst loop_step) (simp add: n split: sum.split)
qed

text \<open>The loop ends with an attempt that succeeded, after fewer failures than it has attempts, or
  with every attempt failed.\<close>

lemma loop_cases:
  obtains (succeeded) k t r where "int k < m + 1 - c" "fails attempt c k s t" "attempt (c + int k) t = Inl r"
      "loop c m s = r"
  | (gave_up) t where "fails attempt c (nat (m + 1 - c)) s t" "loop c m s = exhausted t"
  using tries_cases [of "nat (m + 1 - c)" attempt c s exhausted] unfolding loop_tries
  by (metis zless_nat_eq_int_zless)

lemma loop_succeeds:
  assumes "fails attempt c k s t" and "attempt (c + int k) t = Inl r" and "int k < m + 1 - c"
  shows "loop c m s = r"
proof -
  from assms(3) obtain n where "nat (m + 1 - c) = k + Suc n"
    by (metis add_Suc_right less_imp_Suc_add zless_nat_eq_int_zless)
  with tries_fails [OF assms(1), of exhausted "Suc n"] assms(2) show ?thesis
    by (simp add: loop_tries)
qed

end

end
