(* ===== verification/Float64.thy ===== *)
theory Float64
  imports Go_Prelude "HOL-Library.Log_Nat"
begin

text \<open>
  Go's \<^verbatim>\<open>float64\<close>, in which offers and nodes count cpus, memory and disk. A finite double is the
  rational number it denotes, and every operation of the source rounds its exact result to 53
  significant bits, to the nearest and on a tie to the even significand. Infinities, NaN and the
  limits of the exponent (beyond \<open>2 ^ 1023\<close> and below \<open>2 ^ -1022\<close>) are not modelled: resource
  amounts stay far inside them.
\<close>

type_synonym float64 = rat

definition round_half_even :: "rat \<Rightarrow> int" where
  "round_half_even x =
     (let f = \<lfloor>x\<rfloor>; r = x - of_int f
      in if r < 1/2 then f else if 1/2 < r then f + 1 else if even f then f else f + 1)"

text \<open>The exponent of a positive number: \<open>2 powi exponent x \<le> x < 2 powi (exponent x + 1)\<close>.\<close>

definition exponent :: "rat \<Rightarrow> int" where
  "exponent x =
     (let (p, q) = quotient_of x; e = bitlen p - bitlen q
      in if 2 powi e \<le> x then e else e - 1)"

definition fl :: "rat \<Rightarrow> float64" where
  "fl x =
     (if x = 0 then 0
      else let u = 2 powi (exponent \<bar>x\<bar> - 52) in of_int (round_half_even (x / u)) * u)"

definition fadd :: "float64 \<Rightarrow> float64 \<Rightarrow> float64" where
  "fadd a b = fl (a + b)"

definition fsub :: "float64 \<Rightarrow> float64 \<Rightarrow> float64" where
  "fsub a b = fl (a - b)"

section \<open>Rounding to an integer\<close>

lemma round_half_even_bounds:
  "\<lfloor>x\<rfloor> \<le> round_half_even x" "round_half_even x \<le> \<lfloor>x\<rfloor> + 1"
  by (simp_all add: round_half_even_def Let_def)

lemma round_half_even_of_int [simp]: "round_half_even (of_int n) = n"
  by (simp add: round_half_even_def)

lemma round_half_even_mono:
  assumes "x \<le> y"
  shows "round_half_even x \<le> round_half_even y"
proof (cases "\<lfloor>x\<rfloor> = \<lfloor>y\<rfloor>")
  case True
  with assms show ?thesis by (auto simp: round_half_even_def Let_def)
next
  case False
  with assms have "\<lfloor>x\<rfloor> + 1 \<le> \<lfloor>y\<rfloor>" by (metis add1_zle_eq floor_mono order_le_less)
  then show ?thesis
    using round_half_even_bounds(2) [of x] round_half_even_bounds(1) [of y] by linarith
qed

lemma round_half_even_uminus: "round_half_even (- x) = - round_half_even x"
proof (cases "x \<in> \<int>")
  case True
  then obtain n where x: "x = of_int n" by (auto elim: Ints_cases)
  have "round_half_even (- x) = round_half_even (of_int (- n))" by (simp add: x)
  also have "\<dots> = - round_half_even x" by (simp only: round_half_even_of_int x)
  finally show ?thesis .
next
  case False
  then have "of_int \<lfloor>x\<rfloor> < x"
    by (metis Ints_of_int antisym_conv2 of_int_floor_le)
  moreover have "x < of_int \<lfloor>x\<rfloor> + 1" by linarith
  ultimately have f: "\<lfloor>- x\<rfloor> = - \<lfloor>x\<rfloor> - 1" by (intro floor_unique) simp_all
  show ?thesis
    unfolding round_half_even_def Let_def f by (auto simp: field_simps)
qed

section \<open>The exponent\<close>

lemma bitlen_powi:
  assumes "0 < p"
  shows "2 powi (bitlen p - 1) \<le> (of_int p :: rat)" and "(of_int p :: rat) < 2 powi bitlen p"
proof -
  from assms have b: "0 \<le> bitlen p - 1" and b': "0 \<le> bitlen p"
    using bitlen_nonneg [of p] bitlen_eq_zero_iff [of p] by linarith+
  have "(of_int (2 ^ nat (bitlen p - 1)) :: rat) \<le> of_int p"
    using bitlen_bounds [OF assms] by (simp only: of_int_le_iff)
  with b show "2 powi (bitlen p - 1) \<le> (of_int p :: rat)" by (simp add: power_int_def)
  have "(of_int p :: rat) < of_int (2 ^ nat (bitlen p))"
    using bitlen_bounds [OF assms] by (simp only: of_int_less_iff)
  with b' show "(of_int p :: rat) < 2 powi bitlen p" by (simp add: power_int_def)
qed

lemma exponent_bounds:
  assumes "0 < x"
  shows "2 powi exponent x \<le> x" and "x < 2 powi (exponent x + 1)"
proof -
  obtain p q where pq: "quotient_of x = (p, q)" by (cases "quotient_of x")
  then have q: "0 < q" and x: "x = of_int p / of_int q"
    by (auto simp: quotient_of_denom_pos quotient_of_div)
  from assms q x have p: "0 < p" by (simp add: zero_less_divide_iff)
  let ?e = "bitlen p - bitlen q"
  have "2 powi (?e - 1) = 2 powi (bitlen p - 1) / (2 powi bitlen q :: rat)"
    by (simp flip: power_int_diff add: algebra_simps)
  also have "\<dots> \<le> of_int p / of_int q"
    using bitlen_powi [OF p] bitlen_powi [OF q] p q by (intro frac_le) auto
  finally have lo: "2 powi (?e - 1) \<le> x" by (simp add: x)
  have "x < 2 powi bitlen p / of_int q"
    using bitlen_powi(2) [OF p] q by (simp add: x divide_strict_right_mono)
  also have "\<dots> \<le> 2 powi bitlen p / 2 powi (bitlen q - 1)"
    using bitlen_powi(1) [OF q] by (intro divide_left_mono) (simp_all add: q)
  also have "\<dots> = 2 powi (?e + 1)"
    by (simp flip: power_int_diff add: algebra_simps)
  finally have hi: "x < 2 powi (?e + 1)" .
  have e: "exponent x = (if 2 powi ?e \<le> x then ?e else ?e - 1)"
    by (simp add: exponent_def pq)
  show "2 powi exponent x \<le> x" and "x < 2 powi (exponent x + 1)"
    using lo hi by (auto simp: e)
qed

lemma exponent_mono:
  assumes "0 < x" and "x \<le> y"
  shows "exponent x \<le> exponent y"
proof (rule ccontr)
  assume "\<not> exponent x \<le> exponent y"
  then have "2 powi (exponent y + 1) \<le> (2 powi exponent x :: rat)"
    by (intro power_int_increasing) auto
  also have "\<dots> \<le> x" by (rule exponent_bounds) fact
  also have "\<dots> \<le> y" by fact
  finally show False using exponent_bounds(2) [of y] assms by linarith
qed

section \<open>Rounding to 53 bits\<close>

lemma fl_0 [simp]: "fl 0 = 0"
  by (simp add: fl_def)

lemma fl_uminus: "fl (- x) = - fl x"
  by (simp add: fl_def round_half_even_uminus Let_def)

lemma fl_pos_bounds:
  assumes "0 < x"
  shows "2 powi exponent x \<le> fl x" and "fl x \<le> 2 powi (exponent x + 1)"
proof -
  let ?u = "2 powi (exponent x - 52) :: rat"
  have u: "0 < ?u" by simp
  have fl: "fl x = of_int (round_half_even (x / ?u)) * ?u"
    using assms by (simp add: fl_def Let_def)
  have e1: "2 powi exponent x = of_int (2 ^ 52) * ?u"
    and e2: "2 powi (exponent x + 1) = of_int (2 ^ 53) * ?u"
    by (simp_all add: power_int_diff power_int_add)
  have "of_int (2 ^ 52) \<le> x / ?u" and "x / ?u \<le> of_int (2 ^ 53)"
    using exponent_bounds [OF assms] u unfolding e1 e2 by (simp_all add: field_simps)
  from this [THEN round_half_even_mono]
  have "2 ^ 52 \<le> round_half_even (x / ?u)" and "round_half_even (x / ?u) \<le> 2 ^ 53"
    by (simp_all only: round_half_even_of_int)
  then show "2 powi exponent x \<le> fl x" and "fl x \<le> 2 powi (exponent x + 1)"
    unfolding fl e1 e2 using u
    by (simp_all only: mult_le_cancel_right_pos of_int_le_iff)
qed

lemma fl_mono_pos:
  assumes "0 < x" and "x \<le> y"
  shows "fl x \<le> fl y"
proof (cases "exponent x = exponent y")
  case True
  let ?u = "2 powi (exponent x - 52) :: rat"
  have "round_half_even (x / ?u) \<le> round_half_even (y / ?u)"
    using assms by (intro round_half_even_mono divide_right_mono) auto
  then have "of_int (round_half_even (x / ?u)) * ?u \<le> of_int (round_half_even (y / ?u)) * ?u"
    by (intro mult_right_mono) auto
  with assms True show ?thesis by (simp add: fl_def Let_def)
next
  case False
  with exponent_mono [OF assms] have "exponent x + 1 \<le> exponent y" by simp
  then have "2 powi (exponent x + 1) \<le> (2 powi exponent y :: rat)"
    by (intro power_int_increasing) auto
  with assms fl_pos_bounds(2) [of x] fl_pos_bounds(1) [of y] show ?thesis by linarith
qed

lemma fl_nonneg: "0 \<le> x \<Longrightarrow> 0 \<le> fl x"
proof (cases "x = 0")
  case False
  moreover assume "0 \<le> x"
  ultimately have "2 powi exponent x \<le> fl x" by (intro fl_pos_bounds) simp
  then show ?thesis by (rule order_trans [rotated]) simp
qed simp

lemma fl_mono:
  assumes "x \<le> y"
  shows "fl x \<le> fl y"
proof -
  consider "0 < x" | "x \<le> 0" "0 \<le> y" | "y < 0" using assms by linarith
  then show ?thesis
  proof cases
    case 1
    with assms show ?thesis by (blast intro: fl_mono_pos)
  next
    case 2
    with fl_nonneg [of y] fl_nonneg [of "- x"] show ?thesis by (simp add: fl_uminus)
  next
    case 3
    with assms fl_mono_pos [of "- y" "- x"] show ?thesis by (simp add: fl_uminus)
  qed
qed

section \<open>Subtraction and addition\<close>

text \<open>
  What the accounting of offers relies on: taking no more than there is leaves nothing negative,
  taking something positive never leaves more, and adding never leaves less.
\<close>

lemma fsub_nonneg: "b \<le> a \<Longrightarrow> 0 \<le> fsub a b"
  by (simp add: fsub_def fl_nonneg)

lemma fsub_le: "fl a = a \<Longrightarrow> 0 \<le> b \<Longrightarrow> fsub a b \<le> a"
  by (metis diff_ge_0_iff_ge diff_le_eq fl_mono fsub_def le_add_same_cancel1)

lemma fsub_mono: "a \<le> a' \<Longrightarrow> fsub a b \<le> fsub a' b"
  by (simp add: fsub_def fl_mono)

lemma fadd_mono: "a \<le> a' \<Longrightarrow> b \<le> b' \<Longrightarrow> fadd a b \<le> fadd a' b'"
  by (simp add: fadd_def fl_mono)

lemma fadd_ge: "fl a = a \<Longrightarrow> 0 \<le> b \<Longrightarrow> a \<le> fadd a b"
  by (metis fadd_def fl_mono le_add_same_cancel1)

end
