(* ===== verification/Mesos_Types.thy ===== *)
theory Mesos_Types
  imports Float64
begin

text \<open>
  The data the scheduler exchanges with Mesos. The messages come from mesos-go's protobuf package
  \<^verbatim>\<open>mesosproto\<close> and are seen through their getters: a field of a record below is what the getter of
  that field returns. A field is an option where the source itself tests or sets nil.

  mesos-go's helper package \<^verbatim>\<open>mesosutil\<close> is not part of the repository. Its functions are a
  parameter, the record \<open>mesosutil\<close>, and the locale \<open>mesosutil_laws\<close> states the documented
  behaviour the scheduler relies on.
\<close>

section \<open>Messages\<close>

record Value_Range =
  vr_Begin :: uint64
  vr_End :: uint64

datatype Volume_Mode = Volume_RW | Volume_RO

record ReservationInfo =
  ri_Principal :: string

record DiskInfo =
  di_PersistenceId :: string
  di_ContainerPath :: string
  di_Mode :: Volume_Mode

record Resource =
  res_Name :: string
  res_Scalar :: float64
  res_Ranges :: "Value_Range list"
  res_Role :: string
  res_Reservation :: "ReservationInfo option"
  res_Disk :: "DiskInfo option"

record Offer =
  of_Id :: string
  of_SlaveId :: "string option"
  of_Hostname :: string
  of_Resources :: "Resource list"

text \<open>\<^verbatim>\<open>GetValue\<close> of a \<^verbatim>\<open>SlaveID\<close>: the empty string for nil.\<close>

definition GetValue :: "string option \<Rightarrow> string" where
  "GetValue s = (case s of None \<Rightarrow> [] | Some v \<Rightarrow> v)"

datatype TaskState =
    TASK_STAGING
  | TASK_STARTING
  | TASK_RUNNING
  | TASK_FINISHED
  | TASK_FAILED
  | TASK_KILLED
  | TASK_LOST
  | TASK_ERROR
  | TASK_OTHER nat

record TaskStatus =
  ts_TaskId :: string
  ts_State :: TaskState
  ts_SlaveId :: "string option"

text \<open>\<^verbatim>\<open>TaskData\<close> of \<^verbatim>\<open>common/structs.go\<close>, what a launched task carries to its executor.\<close>

record TaskData =
  td_FullyQualifiedNodeName :: string
  td_Zookeepers :: "string list"
  td_FrameworkName :: string
  td_ClusterName :: string
  td_URI :: string
  td_Host :: string
  td_UseSuperChroot :: bool
  td_HTTPPort :: int64
  td_PBPort :: int64
  td_HandoffPort :: int64
  td_DisterlPort :: int64

definition zero_TaskData :: TaskData where
  "zero_TaskData = \<lparr>td_FullyQualifiedNodeName = [], td_Zookeepers = [], td_FrameworkName = [],
     td_ClusterName = [], td_URI = [], td_Host = [], td_UseSuperChroot = False,
     td_HTTPPort = 0, td_PBPort = 0, td_HandoffPort = 0, td_DisterlPort = 0\<rparr>"

record CommandInfo_URI =
  uri_Value :: string
  uri_Executable :: bool

record CommandInfo =
  ci_Value :: string
  ci_Uris :: "CommandInfo_URI list"
  ci_Shell :: bool
  ci_Arguments :: "string list"

record ExecutorInfo =
  ei_ExecutorId :: string
  ei_Name :: string
  ei_Source :: string
  ei_Command :: CommandInfo
  ei_Resources :: "Resource list"

text \<open>\<^verbatim>\<open>Data\<close> holds the JSON text of a \<open>TaskData\<close>.\<close>

record TaskInfo =
  ti_Name :: string
  ti_TaskId :: string
  ti_SlaveId :: "string option"
  ti_Executor :: ExecutorInfo
  ti_Resources :: "Resource list"
  ti_Data :: string

datatype Offer_Operation =
    LAUNCH "TaskInfo list"
  | DESTROY "Resource list"
  | UNRESERVE "Resource list"
  | RESERVE "Resource list"
  | CREATE "Resource list"

section \<open>The helper package\<close>

record mesosutil =
  NewValueRange :: "uint64 \<Rightarrow> uint64 \<Rightarrow> Value_Range"
  NewScalarResource :: "string \<Rightarrow> float64 \<Rightarrow> Resource"
  NewRangesResource :: "string \<Rightarrow> Value_Range list \<Rightarrow> Resource"
  NewScalarResourceWithReservation :: "string \<Rightarrow> float64 \<Rightarrow> string \<Rightarrow> string \<Rightarrow> Resource"
  NewVolumeResourceWithReservation ::
    "float64 \<Rightarrow> string \<Rightarrow> string \<Rightarrow> Volume_Mode \<Rightarrow> string \<Rightarrow> string \<Rightarrow> Resource"
  AddResourceReservation :: "Resource \<Rightarrow> string \<Rightarrow> string \<Rightarrow> Resource"
  FilterResources :: "Resource list \<Rightarrow> (Resource \<Rightarrow> bool) \<Rightarrow> Resource list"
  NewLaunchOperation :: "TaskInfo list \<Rightarrow> Offer_Operation"
  NewDestroyOperation :: "Resource list \<Rightarrow> Offer_Operation"
  NewUnreserveOperation :: "Resource list \<Rightarrow> Offer_Operation"
  NewReserveOperation :: "Resource list \<Rightarrow> Offer_Operation"
  NewCreateOperation :: "Resource list \<Rightarrow> Offer_Operation"
  NewExecutorID :: "string \<Rightarrow> string"
  DefaultRole :: string

text \<open>
  A constructor returns a message with the fields it was given, \<^verbatim>\<open>FilterResources\<close> keeps the
  resources its predicate accepts in their order, and an operation constructor wraps its argument.
\<close>

locale mesosutil_laws =
  fixes U :: mesosutil
  assumes value_range [simp]:
      "vr_Begin (NewValueRange U b e) = b" "vr_End (NewValueRange U b e) = e"
    and scalar_resource [simp]:
      "res_Name (NewScalarResource U n v) = n" "res_Scalar (NewScalarResource U n v) = v"
      "res_Reservation (NewScalarResource U n v) = None" "res_Disk (NewScalarResource U n v) = None"
    and ranges_resource [simp]:
      "res_Name (NewRangesResource U n vs) = n" "res_Ranges (NewRangesResource U n vs) = vs"
      "res_Reservation (NewRangesResource U n vs) = None"
    and scalar_reserved [simp]:
      "res_Name (NewScalarResourceWithReservation U n v p r) = n"
      "res_Scalar (NewScalarResourceWithReservation U n v p r) = v"
      "res_Reservation (NewScalarResourceWithReservation U n v p r) = Some \<lparr>ri_Principal = p\<rparr>"
      "res_Role (NewScalarResourceWithReservation U n v p r) = r"
      "res_Disk (NewScalarResourceWithReservation U n v p r) = None"
    and volume_reserved [simp]:
      "res_Name (NewVolumeResourceWithReservation U d c i m p r) = ''disk''"
      "res_Scalar (NewVolumeResourceWithReservation U d c i m p r) = d"
      "res_Reservation (NewVolumeResourceWithReservation U d c i m p r) = Some \<lparr>ri_Principal = p\<rparr>"
      "res_Role (NewVolumeResourceWithReservation U d c i m p r) = r"
      "res_Disk (NewVolumeResourceWithReservation U d c i m p r) =
         Some \<lparr>di_PersistenceId = i, di_ContainerPath = c, di_Mode = m\<rparr>"
    and add_reservation [simp]:
      "AddResourceReservation U res p r =
         res\<lparr>res_Reservation := Some \<lparr>ri_Principal = p\<rparr>, res_Role := r\<rparr>"
    and filter_resources [simp]: "FilterResources U rs P = filter P rs"
    and operations [simp]:
      "NewLaunchOperation U ts = LAUNCH ts" "NewDestroyOperation U rs = DESTROY rs"
      "NewUnreserveOperation U rs = UNRESERVE rs" "NewReserveOperation U rs = RESERVE rs"
      "NewCreateOperation U rs = CREATE rs"
    and executor_id [simp]: "NewExecutorID U s = s"

text \<open>The documented behaviour as a concrete package: the laws can hold.\<close>

definition std_util :: mesosutil where
  "std_util =
     (let sc = (\<lambda>n v. \<lparr>res_Name = n, res_Scalar = v, res_Ranges = [], res_Role = ''*'',
                   res_Reservation = None, res_Disk = None\<rparr>);
          rsv = (\<lambda>res p r. res\<lparr>res_Reservation := Some \<lparr>ri_Principal = p\<rparr>, res_Role := r\<rparr>)
      in \<lparr>NewValueRange = (\<lambda>b e. \<lparr>vr_Begin = b, vr_End = e\<rparr>),
          NewScalarResource = sc,
          NewRangesResource = (\<lambda>n rs. (sc n 0)\<lparr>res_Ranges := rs\<rparr>),
          NewScalarResourceWithReservation = (\<lambda>n v p r. rsv (sc n v) p r),
          NewVolumeResourceWithReservation = (\<lambda>d c i m p r.
            (rsv (sc ''disk'' d) p r)
              \<lparr>res_Disk := Some \<lparr>di_PersistenceId = i, di_ContainerPath = c, di_Mode = m\<rparr>\<rparr>),
          AddResourceReservation = rsv,
          FilterResources = (\<lambda>rs P. filter P rs),
          NewLaunchOperation = LAUNCH, NewDestroyOperation = DESTROY,
          NewUnreserveOperation = UNRESERVE, NewReserveOperation = RESERVE,
          NewCreateOperation = CREATE, NewExecutorID = (\<lambda>s. s), DefaultRole = ''*''\<rparr>)"

interpretation std: mesosutil_laws std_util
  by unfold_locales (simp_all add: std_util_def)

end
