(* ===== verification/Port_Ranges.thy ===== *)
theory Port_Ranges
  imports Mesos_Types
begin

text \<open>
  Ports of an offer, from \<^verbatim>\<open>common/utils.go\<close>: \<open>ArrayToRanges\<close> packs a list of ports into ranges,
  \<open>RangesToArray\<close> unpacks ranges, and \<open>PortIterator\<close> streams the ports of a list of resources. Ports
  are 64 bit words, signed in a Go slice and unsigned in a range. The section on correctness shows
  that packing is the canonical one and that unpacking inverts it, as an interpretation of the
  interface \<open>port_codec\<close> the offer component works with.
\<close>

section \<open>Model\<close>

fun extend_ranges :: "(int64 \<times> int64) list \<Rightarrow> int64 list \<Rightarrow> (int64 \<times> int64) list" where
  "extend_ranges fakeret [] = fakeret"
| "extend_ranges fakeret (val # vals) =
     (if sint (snd (last fakeret) + 1) < sint val
      then extend_ranges (fakeret @ [(val, val)]) vals
      else extend_ranges (butlast fakeret @ [(fst (last fakeret), val)]) vals)"

definition ArrayToRanges :: "mesosutil \<Rightarrow> int64 list \<Rightarrow> Value_Range list" where
  "ArrayToRanges U ports0 =
     (let ports = sort_key sint ports0
      in case ports of
           [] \<Rightarrow> []
         | p # _ \<Rightarrow> map (\<lambda>(b, e). NewValueRange U b e) (extend_ranges [(p, p)] ports))"

text \<open>
  The loop \<^verbatim>\<open>for i := Begin; i <= End; i++\<close> of \<open>RangesToArray\<close>: \<open>i\<close> wraps at \<open>2 ^ 64\<close>, and
  \<open>temp[idx]\<close> is bounds checked.
\<close>

function fill_range :: "uint64 \<Rightarrow> uint64 \<Rightarrow> nat \<Rightarrow> int64 list \<Rightarrow> int64 list result" where
  "fill_range i end idx temp =
     (if i \<le> end
      then if idx < length temp then fill_range (i + 1) end (Suc idx) (temp[idx := i])
           else Inl IndexOutOfRange
      else Inr temp)"
  by pat_completeness auto
termination
  by (relation "measure (\<lambda>(i, end, idx, temp). length temp - idx)") auto

declare fill_range.simps [simp del]

definition make_slice :: "uint64 \<Rightarrow> int64 list result" where
  "make_slice n = (if max_int < unat n then Inl MakeSliceLen else Inr (replicate (unat n) 0))"

fun ranges_loop :: "int64 list \<Rightarrow> Value_Range list \<Rightarrow> int64 list result" where
  "ranges_loop array [] = Inr array"
| "ranges_loop array (r # rs) =
     bind_result (make_slice (vr_End r - vr_Begin r + 1)) (\<lambda>temp0.
     bind_result (fill_range (vr_Begin r) (vr_End r) 0 temp0) (\<lambda>temp.
     ranges_loop (array @ temp) rs))"

definition RangesToArray :: "Value_Range list \<Rightarrow> int64 list result" where
  "RangesToArray rs = ranges_loop [] rs"

text \<open>
  The channel of \<open>PortIterator\<close> as the list of what is sent on it; a receive after the close of the
  channel yields 0.
\<close>

fun port_stream :: "Resource list \<Rightarrow> int64 list result" where
  "port_stream [] = Inr []"
| "port_stream (r # rs) =
     bind_result (RangesToArray (res_Ranges r)) (\<lambda>ps.
     bind_result (port_stream rs) (\<lambda>qs. Inr (ps @ qs)))"

definition PortIterator :: "mesosutil \<Rightarrow> Resource list \<Rightarrow> int64 list result" where
  "PortIterator U resources = port_stream (FilterResources U resources (\<lambda>res. res_Name res = ''ports''))"

definition receive :: "int64 list \<Rightarrow> nat \<Rightarrow> int64" where
  "receive ports n = (if n < length ports then ports ! n else 0)"

section \<open>Packing\<close>

lemma inj_sint: "inj (sint :: int64 \<Rightarrow> int)"
  by (auto intro: injI signed_word_eqI)

text \<open>A port a range can carry without its end wrapping.\<close>

definition valid_port :: "int64 \<Rightarrow> bool" where
  "valid_port p \<longleftrightarrow> 0 \<le> sint p \<and> sint p < 2 ^ 63 - 1"

definition covered :: "(int64 \<times> int64) list \<Rightarrow> int set" where
  "covered rs = (\<Union>(b, e) \<in> set rs. {sint b..sint e})"

text \<open>Ranges in ascending order, none empty, and no two of them could be joined.\<close>

definition separated :: "(int64 \<times> int64) list \<Rightarrow> bool" where
  "separated rs \<longleftrightarrow>
     (\<forall>(b, e) \<in> set rs. sint b \<le> sint e \<and> valid_port b \<and> valid_port e) \<and>
     sorted_wrt (\<lambda>(b, e) (b', e'). sint e + 1 < sint b') rs"

lemma sint_valid_Suc: "valid_port p \<Longrightarrow> sint (p + 1) = sint p + 1"
  by (simp add: valid_port_def sint_word_ariths signed_take_bit_int_eq_self)

lemma extend_ranges_inv:
  assumes "separated (pre @ [(b, e)])"
    and "sorted (map sint vs)" and "\<forall>v \<in> set vs. valid_port v \<and> sint e \<le> sint v"
  shows "separated (extend_ranges (pre @ [(b, e)]) vs) \<and>
    covered (extend_ranges (pre @ [(b, e)]) vs) = covered (pre @ [(b, e)]) \<union> sint ` set vs"
  using assms
proof (induction vs arbitrary: pre b e)
  case Nil
  then show ?case by simp
next
  case (Cons v vs)
  have e: "valid_port e" and be: "sint b \<le> sint e" and v: "valid_port v" "sint e \<le> sint v"
    and vs: "sorted (map sint vs)" "\<forall>w \<in> set vs. valid_port w \<and> sint v \<le> sint w"
    using Cons.prems by (auto simp: separated_def)
  show ?case
  proof (cases "sint e + 1 < sint v")
    case True
    then have "separated ((pre @ [(b, e)]) @ [(v, v)])"
      using Cons.prems(1) v be by (auto simp: separated_def sorted_wrt_append)
    from Cons.IH [OF this vs] True e show ?thesis
      by (auto simp: sint_valid_Suc covered_def)
  next
    case False
    have "separated (pre @ [(b, v)])"
      using Cons.prems(1) v be by (auto simp: separated_def sorted_wrt_append)
    moreover have "covered (pre @ [(b, v)]) = insert (sint v) (covered (pre @ [(b, e)]))"
      using False v be by (auto simp: covered_def)
    ultimately show ?thesis
      using Cons.IH [of pre b v] vs False e by (auto simp: sint_valid_Suc)
  qed
qed

text \<open>The integer value of a valid port is the same signed and unsigned.\<close>

lemma valid_port_unat: "valid_port p \<Longrightarrow> sint p = int (unat p) \<and> unat p < 2 ^ 63 - 1"
proof -
  assume "valid_port p"
  then have "uint p = sint p" and "0 \<le> sint p" and "sint p < 2 ^ 63 - 1"
    by (simp_all add: valid_port_def uint_sint take_bit_int_eq_self)
  then show ?thesis by (simp add: unat_eq_nat_uint)
qed

lemma sint_word_of_nat: "n < 2 ^ 63 \<Longrightarrow> sint (word_of_nat n :: int64) = int n"
  by (simp add: sint_uint signed_take_bit_int_eq_self uint_nat take_bit_nat_eq_self
      unsigned_of_nat flip: of_nat_take_bit)

lemma ArrayToRanges_Nil [simp]: "ArrayToRanges U [] = []"
  by (simp add: ArrayToRanges_def)

lemma ArrayToRanges_pairs:
  assumes "ps \<noteq> []" and "\<forall>p \<in> set ps. valid_port p"
  obtains rs where "ArrayToRanges U ps = map (\<lambda>(b, e). NewValueRange U b e) rs"
    and "separated rs" and "covered rs = sint ` set ps"
proof -
  obtain p qs where s: "sort_key sint ps = p # qs"
    using assms(1) by (metis list.exhaust set_empty set_sort)
  have set: "insert p (set qs) = set ps" by (metis s set_sort list.simps(15))
  have srt: "sorted (map sint (p # qs))" by (metis s sorted_sort_key)
  have "separated ([] @ [(p, p)])"
    using assms(2) set by (auto simp: separated_def)
  moreover have "\<forall>v \<in> set (p # qs). valid_port v \<and> sint p \<le> sint v"
    using assms(2) set srt by auto
  ultimately have "separated (extend_ranges ([] @ [(p, p)]) (p # qs)) \<and>
      covered (extend_ranges ([] @ [(p, p)]) (p # qs)) = covered ([] @ [(p, p)]) \<union> sint ` set (p # qs)"
    using srt by (intro extend_ranges_inv)
  moreover have "ArrayToRanges U ps =
      map (\<lambda>(b, e). NewValueRange U b e) (extend_ranges [(p, p)] (p # qs))"
    by (simp add: ArrayToRanges_def s)
  moreover have "covered ([] @ [(p, p)]) \<union> sint ` set (p # qs) = sint ` set ps"
    by (simp add: covered_def flip: set)
  ultimately show thesis
    using that by (metis append_Nil)
qed

section \<open>Unpacking\<close>

lemma fill_range_ok:
  assumes "unat i + k = Suc (unat end)" and "idx + k = length temp" and "unat end < 2 ^ 64 - 1"
  shows "fill_range i end idx temp = Inr (take idx temp @ map word_of_nat [unat i..<Suc (unat end)])"
  using assms
proof (induction k arbitrary: i idx temp)
  case 0
  then show ?case by (simp add: fill_range.simps word_le_nat_alt)
next
  case (Suc k)
  have le: "i \<le> end" using Suc.prems(1) by (simp add: word_le_nat_alt)
  have idx: "idx < length temp" using Suc.prems(2) by simp
  have i: "unat (i + 1) = Suc (unat i)"
    using Suc.prems(1,3) by (simp add: unat_word_ariths)
  have "fill_range i end idx temp = fill_range (i + 1) end (Suc idx) (temp[idx := i])"
    using le idx by (subst fill_range.simps) simp
  also have "\<dots> = Inr (take (Suc idx) (temp[idx := i]) @ map word_of_nat [Suc (unat i)..<Suc (unat end)])"
    using Suc.prems i by (subst Suc.IH) simp_all
  also have "take (Suc idx) (temp[idx := i]) = take idx temp @ [i]"
    using idx by (simp add: take_Suc_conv_app_nth)
  also have "map word_of_nat [unat i..<Suc (unat end)] =
      i # map word_of_nat [Suc (unat i)..<Suc (unat end)]"
    using le by (subst upt_conv_Cons) (simp_all add: word_le_nat_alt)
  ultimately show ?case by simp
qed

definition unpack :: "Value_Range \<Rightarrow> int64 list" where
  "unpack r = map word_of_nat [unat (vr_Begin r)..<Suc (unat (vr_End r))]"

definition proper_range :: "Value_Range \<Rightarrow> bool" where
  "proper_range r \<longleftrightarrow> vr_Begin r \<le> vr_End r \<and> unat (vr_End r) < 2 ^ 63 - 1"

lemma ranges_loop_Cons:
  assumes "proper_range r"
  shows "ranges_loop array (r # rs) = ranges_loop (array @ unpack r) rs"
proof -
  let ?n = "vr_End r - vr_Begin r + 1"
  have n: "unat ?n = unat (vr_End r) - unat (vr_Begin r) + 1"
    using assms unfolding proper_range_def word_le_nat_alt
    by (subst unat_word_ariths) (auto simp: unat_sub word_le_nat_alt)
  then have "make_slice ?n = Inr (replicate (unat ?n) 0)"
    using assms by (auto simp: make_slice_def max_int_def proper_range_def)
  moreover have "fill_range (vr_Begin r) (vr_End r) 0 (replicate (unat ?n) 0) = Inr (unpack r)"
    using assms n
    by (subst fill_range_ok [where k = "unat ?n"])
      (simp_all add: proper_range_def word_le_nat_alt unpack_def)
  ultimately show ?thesis by simp
qed

lemma ranges_loop_proper:
  "\<forall>r \<in> set rs. proper_range r \<Longrightarrow> ranges_loop array rs = Inr (array @ concat (map unpack rs))"
  by (induction rs arbitrary: array) (simp_all add: ranges_loop_Cons del: ranges_loop.simps(2))

lemma RangesToArray_proper:
  "\<forall>r \<in> set rs. proper_range r \<Longrightarrow> RangesToArray rs = Inr (concat (map unpack rs))"
  by (simp add: RangesToArray_def ranges_loop_proper)

text \<open>A range that ends at the last 64 bit number never unpacks: the loop runs off its slice.\<close>

lemma fill_range_overrun:
  assumes "end = - 1"
  shows "fill_range i end idx temp = Inl IndexOutOfRange"
  using assms
proof (induction i "end" idx temp rule: fill_range.induct)
  case (1 i "end" idx temp)
  then show ?case by (subst fill_range.simps) simp
qed

section \<open>The codec\<close>

text \<open>
  What the offer component needs of packed ports: unpacking what was packed yields the same ports,
  once each and in ascending order.
\<close>

locale port_codec =
  fixes enc :: "int64 list \<Rightarrow> 'r list"
    and dec :: "'r list \<Rightarrow> int64 list result"
    and ok :: "int64 \<Rightarrow> bool"
  assumes dec_enc: "\<forall>p \<in> set ps. ok p \<Longrightarrow>
    \<exists>qs. dec (enc ps) = Inr qs \<and> distinct qs \<and> sorted (map sint qs) \<and> set qs = set ps"
begin

lemma dec_enc_distinct:
  assumes "\<forall>p \<in> set ps. ok p" and "distinct ps"
  obtains qs where "dec (enc ps) = Inr qs" "distinct qs" "sorted (map sint qs)" "mset qs = mset ps"
proof -
  obtain qs where "dec (enc ps) = Inr qs" "distinct qs" "sorted (map sint qs)" "set qs = set ps"
    using dec_enc [OF assms(1)] by blast
  moreover have "mset qs = mset ps"
    using calculation(2,4) assms(2) set_eq_iff_mset_eq_distinct by blast
  ultimately show thesis using that by blast
qed

lemma dec_enc_sort:
  assumes "\<forall>p \<in> set ps. ok p"
  shows "dec (enc ps) = Inr (remdups (sort_key sint ps))"
proof -
  obtain qs where qs: "dec (enc ps) = Inr qs" "distinct qs" "sorted (map sint qs)" "set qs = set ps"
    using dec_enc [OF assms] by blast
  let ?rs = "remdups (sort_key sint ps)"
  have "sorted (map sint ?rs)" by (simp add: sorted_map_remdups sorted_sort_key)
  moreover have "distinct (map sint ?rs)" and "distinct (map sint qs)"
    using qs(2) by (simp_all add: distinct_map inj_on_subset [OF inj_sint])
  ultimately have "map sint qs = map sint ?rs"
    using qs by (intro sorted_distinct_set_unique) auto
  then have "qs = ?rs" by (simp add: inj_map_eq_map inj_sint)
  with qs(1) show ?thesis by simp
qed

end

context mesosutil_laws
begin

lemma unpack_pair:
  assumes "sint b \<le> sint e" and "valid_port b" and "valid_port e"
  shows "proper_range (NewValueRange U b e)"
    and "map sint (unpack (NewValueRange U b e)) = [sint b..sint e]"
proof -
  have b: "sint b = int (unat b)" and e: "sint e = int (unat e)" "unat e < 2 ^ 63 - 1"
    using valid_port_unat [OF assms(2)] valid_port_unat [OF assms(3)] by simp_all
  show "proper_range (NewValueRange U b e)"
    using assms(1) e(2) b e(1) by (simp add: proper_range_def word_le_def)
  have "map sint (unpack (NewValueRange U b e)) = map int [unat b..<Suc (unat e)]"
    using e(2) unfolding unpack_def map_map comp_def by (intro map_cong sint_word_of_nat) auto
  also have "\<dots> = [sint b..sint e]"
    unfolding b e(1) by (rule map_int_upt)
  finally show "map sint (unpack (NewValueRange U b e)) = [sint b..sint e]" .
qed

lemma unpack_pairs:
  assumes "separated rs"
  defines "qs \<equiv> concat (map (\<lambda>(b, e). unpack (NewValueRange U b e)) rs)"
  shows "RangesToArray (map (\<lambda>(b, e). NewValueRange U b e) rs) = Inr qs"
    and "sorted_wrt (<) (map sint qs)" and "set (map sint qs) = covered rs"
proof -
  have ok: "sint b \<le> sint e \<and> valid_port b \<and> valid_port e" if "(b, e) \<in> set rs" for b e
    using assms(1) that by (auto simp: separated_def)
  then have "\<forall>r \<in> set (map (\<lambda>(b, e). NewValueRange U b e) rs). proper_range r"
    by (auto intro: unpack_pair)
  from RangesToArray_proper [OF this]
  show "RangesToArray (map (\<lambda>(b, e). NewValueRange U b e) rs) = Inr qs"
    by (simp add: qs_def comp_def case_prod_unfold)
  have m: "map sint qs = concat (map (\<lambda>(b, e). [sint b..sint e]) rs)"
    using ok unfolding qs_def map_concat map_map comp_def
    by (intro arg_cong [where f = concat] map_cong) (auto simp: unpack_pair(2))
  show "set (map sint qs) = covered rs"
    unfolding m by (auto simp: covered_def)
  from assms(1) show "sorted_wrt (<) (map sint qs)"
    unfolding m
  proof (induction rs)
    case (Cons r rs)
    then show ?case
      by (auto simp: separated_def sorted_wrt_append sorted_wrt_upto split: prod.splits)
  qed simp
qed

end

sublocale mesosutil_laws \<subseteq> ports: port_codec "ArrayToRanges U" RangesToArray valid_port
proof
  fix ps :: "int64 list"
  assume ps: "\<forall>p \<in> set ps. valid_port p"
  show "\<exists>qs. RangesToArray (ArrayToRanges U ps) = Inr qs \<and> distinct qs \<and>
      sorted (map sint qs) \<and> set qs = set ps"
  proof (cases "ps = []")
    case True
    then show ?thesis by (simp add: RangesToArray_def)
  next
    case False
    then obtain rs where rs: "ArrayToRanges U ps = map (\<lambda>(b, e). NewValueRange U b e) rs"
      "separated rs" "covered rs = sint ` set ps"
      using ps by (rule ArrayToRanges_pairs)
    let ?qs = "concat (map (\<lambda>(b, e). unpack (NewValueRange U b e)) rs)"
    note qs = unpack_pairs [OF rs(2)]
    have "sint ` set ?qs = sint ` set ps" using qs(3) rs(3) by simp
    then have "set ?qs = set ps" by (simp add: inj_image_eq_iff inj_sint)
    moreover have "sorted (map sint ?qs)" and "distinct (map sint ?qs)"
      using qs(2) strict_sorted_iff by blast+
    ultimately show ?thesis using qs(1) rs(1) by (auto simp: distinct_map)
  qed
qed

context mesosutil_laws
begin

lemma RangesToArray_ArrayToRanges:
  "\<forall>p \<in> set ps. valid_port p \<Longrightarrow>
    RangesToArray (ArrayToRanges U ps) = Inr (remdups (sort_key sint ps))"
  by (rule ports.dec_enc_sort)

end

section \<open>Properties\<close>

text \<open>
  C26: Packing a list of ports into ranges and unpacking the ranges yields exactly those ports, in
  ascending order and each once, for all ports below \<open>2 ^ 63 - 1\<close>; neither direction panics.
\<close>

theorem ports_roundtrip:
  assumes "mesosutil_laws U" and "\<forall>p \<in> set ps. valid_port p"
  shows "RangesToArray (ArrayToRanges U ps) = Inr (remdups (sort_key sint ps))"
  using assms by (rule mesosutil_laws.RangesToArray_ArrayToRanges)

theorem ports_roundtrip_witness:
  "mesosutil_laws std_util \<and> list_all valid_port [31003, 31000, 31001, 31000] \<and>
   RangesToArray (ArrayToRanges std_util [31003, 31000, 31001, 31000]) = Inr [31000, 31001, 31003]"
proof -
  have ok: "\<forall>p \<in> set [31003, 31000, 31001, 31000 :: int64]. valid_port p"
    by (simp add: valid_port_def)
  have "remdups (sort_key sint [31003, 31000, 31001, 31000 :: int64]) = [31000, 31001, 31003]"
    by code_simp
  with ports_roundtrip [OF std.mesosutil_laws_axioms ok] ok std.mesosutil_laws_axioms
  show ?thesis by simp
qed

end
