(* ===== verification/Offer_Helper.thy ===== *)
theory Offer_Helper
  imports Port_Ranges
begin

text \<open>
  The bookkeeping of one resource offer, \<^verbatim>\<open>common/offer.go\<close> with the reservation helpers of
  \<^verbatim>\<open>common/utils.go\<close>. An offer is split into a reserved and an unreserved pool; nodes take
  resources out of the pools, and what they asked for is collected into the operations the
  scheduler answers the offer with. The interface \<open>resource_pool\<close> states what taking promises; both
  pools interpret it.
\<close>

section \<open>State\<close>

record ResourceGroup =
  rg_Cpus :: float64
  rg_Mem :: float64
  rg_Disk :: float64
  rg_Ports :: "int64 list"

record OfferHelper =
  MesosOffer :: Offer
  OfferIDStr :: string
  PersistenceIDs :: "string list"
  ReservedResources :: ResourceGroup
  UnreservedResources :: ResourceGroup
  ResourcesToReserve :: "Resource list"
  ResourcesToUneserve :: "Resource list"
  VolumesToCreate :: "Resource list"
  VolumesToDestroy :: "Resource list"
  TasksToLaunch :: "TaskInfo list"

section \<open>Reading an offer\<close>

definition getResource :: "mesosutil \<Rightarrow> string \<Rightarrow> Resource list \<Rightarrow> bool \<Rightarrow> float64" where
  "getResource U name resources withReservation =
     (let filtered = FilterResources U resources (\<lambda>res.
        if withReservation then res_Name res = name \<and> res_Reservation res \<noteq> None
        else res_Name res = name \<and> res_Reservation res = None)
      in foldl (\<lambda>val res. fadd val (res_Scalar res)) 0 filtered)"

definition getPorts :: "mesosutil \<Rightarrow> Resource list \<Rightarrow> bool \<Rightarrow> int64 list result" where
  "getPorts U resources withReservation =
     (let filtered = FilterResources U resources (\<lambda>res.
        if withReservation then res_Name res = ''ports'' \<and> res_Reservation res \<noteq> None
        else res_Name res = ''ports'' \<and> res_Reservation res = None)
      in port_stream filtered)"

fun persistence_ids :: "Resource list \<Rightarrow> string list result" where
  "persistence_ids [] = Inr []"
| "persistence_ids (res # rs) =
     (case res_Disk res of
        None \<Rightarrow> Inl NilDereference
      | Some disk \<Rightarrow> bind_result (persistence_ids rs) (\<lambda>val. Inr (di_PersistenceId disk # val)))"

definition getPersistenceIds :: "mesosutil \<Rightarrow> Resource list \<Rightarrow> string list result" where
  "getPersistenceIds U resources =
     persistence_ids (FilterResources U resources (\<lambda>res.
       res_Name res = ''disk'' \<and> res_Reservation res \<noteq> None \<and> res_Disk res \<noteq> None))"

definition getUnreservedResources :: "mesosutil \<Rightarrow> Resource list \<Rightarrow> ResourceGroup result" where
  "getUnreservedResources U resources =
     bind_result (getPorts U resources False) (\<lambda>ports.
     Inr \<lparr>rg_Cpus = getResource U ''cpus'' resources False,
          rg_Mem = getResource U ''mem'' resources False,
          rg_Disk = getResource U ''disk'' resources False,
          rg_Ports = ports\<rparr>)"

definition getReservedResources :: "mesosutil \<Rightarrow> Resource list \<Rightarrow> (ResourceGroup \<times> string list) result" where
  "getReservedResources U resources =
     bind_result (getPorts U resources True) (\<lambda>ports.
     bind_result (getPersistenceIds U resources) (\<lambda>ids.
     Inr (\<lparr>rg_Cpus = getResource U ''cpus'' resources True,
           rg_Mem = getResource U ''mem'' resources True,
           rg_Disk = getResource U ''disk'' resources True,
           rg_Ports = ports\<rparr>, ids)))"

definition NewOfferHelper :: "mesosutil \<Rightarrow> Offer \<Rightarrow> OfferHelper result" where
  "NewOfferHelper U offer =
     bind_result (getUnreservedResources U (of_Resources offer)) (\<lambda>unreserved.
     bind_result (getReservedResources U (of_Resources offer)) (\<lambda>(reserved, ids).
     Inr \<lparr>MesosOffer = offer, OfferIDStr = of_Id offer, PersistenceIDs = ids,
          ReservedResources = reserved, UnreservedResources = unreserved,
          ResourcesToReserve = [], ResourcesToUneserve = [],
          VolumesToCreate = [], VolumesToDestroy = [], TasksToLaunch = []\<rparr>))"

definition OfferHasReservations :: "OfferHelper \<Rightarrow> bool" where
  "OfferHasReservations h \<longleftrightarrow>
     0 < rg_Cpus (ReservedResources h) \<or> 0 < rg_Mem (ReservedResources h) \<or>
     0 < rg_Disk (ReservedResources h) \<or> 0 < length (rg_Ports (ReservedResources h))"

definition OfferHasVolumes :: "OfferHelper \<Rightarrow> bool" where
  "OfferHasVolumes h \<longleftrightarrow> 0 < length (PersistenceIDs h)"

fun has_persistence_id :: "string list \<Rightarrow> string \<Rightarrow> bool" where
  "has_persistence_id [] persistenceId = False"
| "has_persistence_id (i # ids) persistenceId =
     (if i = persistenceId then True else has_persistence_id ids persistenceId)"

definition HasPersistenceId :: "OfferHelper \<Rightarrow> string \<Rightarrow> bool" where
  "HasPersistenceId h persistenceId = has_persistence_id (PersistenceIDs h) persistenceId"

section \<open>Giving reservations back\<close>

definition FilterReservedVolumes :: "mesosutil \<Rightarrow> Resource list \<Rightarrow> Resource list" where
  "FilterReservedVolumes U resources = FilterResources U resources (\<lambda>res.
     res_Reservation res \<noteq> None \<and> res_Disk res \<noteq> None \<and> res_Name res = ''disk'')"

definition FilterReservedResources :: "mesosutil \<Rightarrow> Resource list \<Rightarrow> Resource list" where
  "FilterReservedResources U resources = FilterResources U resources (\<lambda>res.
     res_Reservation res \<noteq> None \<and> res_Role res \<noteq> [])"

definition NewReservedScalarResource ::
  "mesosutil \<Rightarrow> string \<Rightarrow> float64 \<Rightarrow> string option \<Rightarrow> string option \<Rightarrow> Resource" where
  "NewReservedScalarResource U name value princ role =
     (NewScalarResource U name value)
       \<lparr>res_Role := (case role of None \<Rightarrow> DefaultRole U | Some r \<Rightarrow> r),
        res_Reservation := Some \<lparr>ri_Principal = (case princ of None \<Rightarrow> [] | Some p \<Rightarrow> p)\<rparr>\<rparr>"

definition NewReservedVolume ::
  "mesosutil \<Rightarrow> float64 \<Rightarrow> string \<Rightarrow> string \<Rightarrow> string option \<Rightarrow> string option \<Rightarrow> Resource" where
  "NewReservedVolume U value containerPath persistenceID princ role =
     (NewReservedScalarResource U ''disk'' value princ role)
       \<lparr>res_Disk := Some \<lparr>di_PersistenceId = persistenceID, di_ContainerPath = containerPath,
                         di_Mode = Volume_RW\<rparr>\<rparr>"

text \<open>\<^verbatim>\<open>Reservation.GetPrincipal()\<close>, empty for a nil reservation.\<close>

definition GetPrincipal :: "ReservationInfo option \<Rightarrow> string" where
  "GetPrincipal r = (case r of None \<Rightarrow> [] | Some i \<Rightarrow> ri_Principal i)"

fun copy_volumes :: "mesosutil \<Rightarrow> Resource list \<Rightarrow> Resource list result" where
  "copy_volumes U [] = Inr []"
| "copy_volumes U (resource # rs) =
     (case res_Disk resource of
        None \<Rightarrow> Inl NilDereference
      | Some disk \<Rightarrow>
          bind_result (copy_volumes U rs) (\<lambda>reserved.
          Inr (NewReservedVolume U (res_Scalar resource) (di_ContainerPath disk)
                 (di_PersistenceId disk) (Some (GetPrincipal (res_Reservation resource)))
                 (Some (res_Role resource)) # reserved)))"

definition CopyReservedVolumes :: "mesosutil \<Rightarrow> Resource list \<Rightarrow> Resource list result" where
  "CopyReservedVolumes U resources = copy_volumes U (FilterReservedVolumes U resources)"

definition CopyReservedResources :: "mesosutil \<Rightarrow> Resource list \<Rightarrow> Resource list" where
  "CopyReservedResources U resources =
     map (\<lambda>resource. NewReservedScalarResource U (res_Name resource) (res_Scalar resource)
            (Some (GetPrincipal (res_Reservation resource))) (Some (res_Role resource)))
       (FilterReservedResources U resources)"

definition MaybeUnreserve :: "mesosutil \<Rightarrow> OfferHelper \<Rightarrow> OfferHelper result" where
  "MaybeUnreserve U h =
     (if 0 < length (TasksToLaunch h) then Inr h
      else let h1 = (if OfferHasReservations h
                     then h\<lparr>ResourcesToUneserve := ResourcesToUneserve h @
                              CopyReservedResources U (of_Resources (MesosOffer h))\<rparr>
                     else h)
           in if OfferHasVolumes h1
              then bind_result (CopyReservedVolumes U (of_Resources (MesosOffer h1))) (\<lambda>vs.
                   Inr (h1\<lparr>VolumesToDestroy := VolumesToDestroy h1 @ vs\<rparr>))
              else Inr h1)"

section \<open>Taking resources\<close>

text \<open>\<^verbatim>\<open>rand.Intn(n)\<close>; \<open>rnd\<close> stands for the draw, and every value below \<open>n\<close> is a draw.\<close>

definition Intn :: "nat \<Rightarrow> nat \<Rightarrow> nat" where
  "Intn rnd n = rnd mod n"

text \<open>
  The ports taken and the ports left, with the copies the source makes. A request for more ports than
  there are panics at the slice expression or, where the capacity of the slice allows it, at the
  negative length of the next \<^verbatim>\<open>make\<close>; the model has one panic for both.
\<close>

definition take_ports :: "nat \<Rightarrow> int64 list \<Rightarrow> nat \<Rightarrow> (int64 list \<times> int64 list) result" where
  "take_ports rnd all ports =
     (let sliceLoc = (if ports < length all then Intn rnd (length all - ports) else 0)
      in if length all < sliceLoc + ports then Inl SliceOutOfRange
         else let takingPorts = go_copy (replicate ports 0) (take ports (drop sliceLoc all));
                  leaving1 = go_copy (replicate (length all - ports) 0) (take sliceLoc all);
                  leavingPorts = take sliceLoc leaving1 @
                    go_copy (drop sliceLoc leaving1) (drop (sliceLoc + ports) all)
              in Inr (takingPorts, leavingPorts))"

definition apply_cpus ::
  "mesosutil \<Rightarrow> ResourceGroup \<Rightarrow> float64 \<Rightarrow> string \<Rightarrow> string \<Rightarrow> ResourceGroup \<times> Resource list" where
  "apply_cpus U against cpus princ role =
     (if 0 < cpus
      then (against\<lparr>rg_Cpus := fsub (rg_Cpus against) cpus\<rparr>,
            [if princ \<noteq> [] \<and> role \<noteq> []
             then NewScalarResourceWithReservation U ''cpus'' cpus princ role
             else NewScalarResource U ''cpus'' cpus])
      else (against, []))"

definition apply_mem ::
  "mesosutil \<Rightarrow> ResourceGroup \<Rightarrow> float64 \<Rightarrow> string \<Rightarrow> string \<Rightarrow> ResourceGroup \<times> Resource list" where
  "apply_mem U against mem princ role =
     (if 0 < mem
      then (against\<lparr>rg_Mem := fsub (rg_Mem against) mem\<rparr>,
            [if princ \<noteq> [] \<and> role \<noteq> []
             then NewScalarResourceWithReservation U ''mem'' mem princ role
             else NewScalarResource U ''mem'' mem])
      else (against, []))"

definition apply_disk ::
  "mesosutil \<Rightarrow> ResourceGroup \<Rightarrow> float64 \<Rightarrow> string \<Rightarrow> string \<Rightarrow> string \<Rightarrow> string
     \<Rightarrow> ResourceGroup \<times> Resource list" where
  "apply_disk U against disk princ role persistenceID containerPath =
     (if 0 < disk
      then (against\<lparr>rg_Disk := fsub (rg_Disk against) disk\<rparr>,
            [if princ \<noteq> [] \<and> role \<noteq> [] \<and> containerPath \<noteq> [] \<and> persistenceID \<noteq> []
             then NewVolumeResourceWithReservation U disk containerPath persistenceID Volume_RW
                    princ role
             else if princ \<noteq> [] \<and> role \<noteq> []
             then NewScalarResourceWithReservation U ''disk'' disk princ role
             else NewScalarResource U ''disk'' disk])
      else (against, []))"

definition apply_ports ::
  "mesosutil \<Rightarrow> nat \<Rightarrow> ResourceGroup \<Rightarrow> int \<Rightarrow> string \<Rightarrow> string
     \<Rightarrow> (ResourceGroup \<times> Resource list) result" where
  "apply_ports U rnd against ports princ role =
     (if 0 < ports
      then bind_result (take_ports rnd (rg_Ports against) (nat ports)) (\<lambda>(takingPorts, leavingPorts).
           let ranges = NewRangesResource U ''ports'' (ArrayToRanges U takingPorts)
           in Inr (against\<lparr>rg_Ports := leavingPorts\<rparr>,
                   [if princ \<noteq> [] \<and> role \<noteq> [] then AddResourceReservation U ranges princ role
                    else ranges]))
      else Inr (against, []))"

definition apply_resources ::
  "mesosutil \<Rightarrow> nat \<Rightarrow> ResourceGroup \<Rightarrow> float64 \<Rightarrow> float64 \<Rightarrow> float64 \<Rightarrow> int
     \<Rightarrow> string \<Rightarrow> string \<Rightarrow> string \<Rightarrow> string \<Rightarrow> (ResourceGroup \<times> Resource list) result" where
  "apply_resources U rnd against cpus mem disk ports princ role persistenceID containerPath =
     (let (g1, ask1) = apply_cpus U against cpus princ role;
          (g2, ask2) = apply_mem U g1 mem princ role;
          (g3, ask3) = apply_disk U g2 disk princ role persistenceID containerPath
      in bind_result (apply_ports U rnd g3 ports princ role) (\<lambda>(g4, ask4).
         Inr (g4, ask1 @ ask2 @ ask3 @ ask4)))"

definition MakeReservation ::
  "mesosutil \<Rightarrow> nat \<Rightarrow> OfferHelper \<Rightarrow> float64 \<Rightarrow> float64 \<Rightarrow> float64 \<Rightarrow> int \<Rightarrow> string \<Rightarrow> string
     \<Rightarrow> OfferHelper result" where
  "MakeReservation U rnd h cpus mem disk ports princ role =
     bind_result (apply_resources U rnd (UnreservedResources h) cpus mem disk ports princ role [] [])
       (\<lambda>(g, reservation).
         Inr (h\<lparr>UnreservedResources := g, ResourcesToReserve := ResourcesToReserve h @ reservation\<rparr>))"

definition MakeVolume ::
  "mesosutil \<Rightarrow> OfferHelper \<Rightarrow> float64 \<Rightarrow> string \<Rightarrow> string \<Rightarrow> string \<Rightarrow> string
     \<Rightarrow> OfferHelper result" where
  "MakeVolume U h disk princ role persistenceID containerPath =
     bind_result (apply_resources U 0 (UnreservedResources h) 0 0 disk 0 princ role persistenceID containerPath)
       (\<lambda>(g, volume).
         Inr (h\<lparr>UnreservedResources := g\<lparr>rg_Disk := fadd (rg_Disk g) disk\<rparr>,
                VolumesToCreate := VolumesToCreate h @ volume\<rparr>))"

definition ApplyReserved ::
  "mesosutil \<Rightarrow> nat \<Rightarrow> OfferHelper \<Rightarrow> float64 \<Rightarrow> float64 \<Rightarrow> float64 \<Rightarrow> int
     \<Rightarrow> string \<Rightarrow> string \<Rightarrow> string \<Rightarrow> string \<Rightarrow> (OfferHelper \<times> Resource list) result" where
  "ApplyReserved U rnd h cpus mem disk ports princ role persistenceID containerPath =
     bind_result (apply_resources U rnd (ReservedResources h) cpus mem disk ports princ role
         persistenceID containerPath)
       (\<lambda>(g, ask). Inr (h\<lparr>ReservedResources := g\<rparr>, ask))"

definition ApplyUnreserved ::
  "mesosutil \<Rightarrow> nat \<Rightarrow> OfferHelper \<Rightarrow> float64 \<Rightarrow> float64 \<Rightarrow> float64 \<Rightarrow> int
     \<Rightarrow> (OfferHelper \<times> Resource list) result" where
  "ApplyUnreserved U rnd h cpus mem disk ports =
     bind_result (apply_resources U rnd (UnreservedResources h) cpus mem disk ports [] [] [] [])
       (\<lambda>(g, ask). Inr (h\<lparr>UnreservedResources := g\<rparr>, ask))"

definition CanFitReserved :: "OfferHelper \<Rightarrow> float64 \<Rightarrow> float64 \<Rightarrow> float64 \<Rightarrow> int \<Rightarrow> bool" where
  "CanFitReserved h cpus mem disk ports \<longleftrightarrow>
     cpus \<le> rg_Cpus (ReservedResources h) \<and> mem \<le> rg_Mem (ReservedResources h) \<and>
     disk \<le> rg_Disk (ReservedResources h) \<and> ports \<le> int (length (rg_Ports (ReservedResources h)))"

definition CanFitUnreserved :: "OfferHelper \<Rightarrow> float64 \<Rightarrow> float64 \<Rightarrow> float64 \<Rightarrow> int \<Rightarrow> bool" where
  "CanFitUnreserved h cpus mem disk ports \<longleftrightarrow>
     cpus \<le> rg_Cpus (UnreservedResources h) \<and> mem \<le> rg_Mem (UnreservedResources h) \<and>
     disk \<le> rg_Disk (UnreservedResources h) \<and> ports \<le> int (length (rg_Ports (UnreservedResources h)))"

definition Operations :: "mesosutil \<Rightarrow> OfferHelper \<Rightarrow> Offer_Operation list" where
  "Operations U h =
     (let operations0 = [];
          operations1 = (if 0 < length (TasksToLaunch h)
            then operations0 @ [NewLaunchOperation U (TasksToLaunch h)] else operations0);
          operations2 = (if 0 < length (VolumesToDestroy h)
            then operations1 @ [NewDestroyOperation U (VolumesToDestroy h)] else operations1);
          operations3 = (if 0 < length (ResourcesToUneserve h)
            then operations2 @ [NewUnreserveOperation U (ResourcesToUneserve h)] else operations2);
          operations4 = (if 0 < length (ResourcesToReserve h)
            then operations3 @ [NewReserveOperation U (ResourcesToReserve h)] else operations3)
      in if 0 < length (VolumesToCreate h)
         then operations4 @ [NewCreateOperation U (VolumesToCreate h)] else operations4)"

section \<open>What taking does to a pool\<close>

lemma take_ports_window:
  assumes "ports \<le> length all"
  obtains s where "s + ports \<le> length all"
    and "take_ports rnd all ports = Inr (take ports (drop s all), take s all @ drop (s + ports) all)"
proof -
  define s where "s = (if ports < length all then Intn rnd (length all - ports) else 0)"
  have s: "s + ports \<le> length all"
  proof (cases "ports < length all")
    case True
    then have "Intn rnd (length all - ports) < length all - ports" by (simp add: Intn_def)
    with True show ?thesis by (simp add: s_def)
  qed (use assms in \<open>simp add: s_def\<close>)
  let ?leaving = "go_copy (replicate (length all - ports) 0) (take s all)"
  have "take s ?leaving = take s all"
    using s go_copy_take [of "take s all" "replicate (length all - ports) 0"] by simp
  moreover have "go_copy (drop s ?leaving) (drop (s + ports) all) = drop (s + ports) all"
    using s by (intro go_copy_all) simp
  moreover have "go_copy (replicate ports 0) (take ports (drop s all)) = take ports (drop s all)"
    using s by (intro go_copy_all) simp
  ultimately have "take_ports rnd all ports =
      Inr (take ports (drop s all), take s all @ drop (s + ports) all)"
    using s unfolding take_ports_def Let_def s_def [symmetric] by simp
  with s show thesis by (rule that)
qed

lemma take_ports_short: "length all < ports \<Longrightarrow> take_ports rnd all ports = Inl SliceOutOfRange"
  by (simp add: take_ports_def)

text \<open>A pool after a take that left the ports \<open>lp\<close>.\<close>

definition drained :: "ResourceGroup \<Rightarrow> float64 \<Rightarrow> float64 \<Rightarrow> float64 \<Rightarrow> int64 list \<Rightarrow> ResourceGroup" where
  "drained g c m d lp =
     \<lparr>rg_Cpus = (if 0 < c then fsub (rg_Cpus g) c else rg_Cpus g),
      rg_Mem = (if 0 < m then fsub (rg_Mem g) m else rg_Mem g),
      rg_Disk = (if 0 < d then fsub (rg_Disk g) d else rg_Disk g),
      rg_Ports = lp\<rparr>"

definition nonneg_pool :: "ResourceGroup \<Rightarrow> bool" where
  "nonneg_pool g \<longleftrightarrow> 0 \<le> rg_Cpus g \<and> 0 \<le> rg_Mem g \<and> 0 \<le> rg_Disk g"

lemma drained_nonneg:
  assumes "nonneg_pool g" and "c \<le> rg_Cpus g" and "m \<le> rg_Mem g" and "d \<le> rg_Disk g"
  shows "nonneg_pool (drained g c m d lp)"
  using assms by (simp add: nonneg_pool_def drained_def fsub_nonneg)

lemma drained_simps [simp]:
  "rg_Ports (drained g c m d lp) = lp"
  "rg_Cpus (drained g c m d lp) = (if 0 < c then fsub (rg_Cpus g) c else rg_Cpus g)"
  "rg_Mem (drained g c m d lp) = (if 0 < m then fsub (rg_Mem g) m else rg_Mem g)"
  "rg_Disk (drained g c m d lp) = (if 0 < d then fsub (rg_Disk g) d else rg_Disk g)"
  by (simp_all add: drained_def)

text \<open>The ask of the scalar part, which no port request is part of.\<close>

lemmas apply_defs = apply_resources_def apply_cpus_def apply_mem_def apply_disk_def apply_ports_def

definition scalar_ask ::
  "mesosutil \<Rightarrow> float64 \<Rightarrow> float64 \<Rightarrow> float64 \<Rightarrow> string \<Rightarrow> string \<Rightarrow> string \<Rightarrow> string \<Rightarrow> Resource list" where
  "scalar_ask U c m d pr ro pid cp =
     snd (apply_cpus U undefined c pr ro) @ snd (apply_mem U undefined m pr ro) @
     snd (apply_disk U undefined d pr ro pid cp)"

definition port_ask :: "mesosutil \<Rightarrow> int64 list \<Rightarrow> string \<Rightarrow> string \<Rightarrow> Resource" where
  "port_ask U tk pr ro =
     (let ranges = NewRangesResource U ''ports'' (ArrayToRanges U tk)
      in if pr \<noteq> [] \<and> ro \<noteq> [] then AddResourceReservation U ranges pr ro else ranges)"

lemma apply_resources_ok:
  assumes "p \<le> int (length (rg_Ports g))"
  obtains tk lp where "length tk = nat p" and "mset tk + mset lp = mset (rg_Ports g)"
    and "apply_resources U rnd g c m d p pr ro pid cp =
      Inr (drained g c m d lp, scalar_ask U c m d pr ro pid cp @ (if 0 < p then [port_ask U tk pr ro] else []))"
proof (cases "0 < p")
  case True
  from assms have "nat p \<le> length (rg_Ports g)" by linarith
  then obtain s where s: "s + nat p \<le> length (rg_Ports g)" and
    "take_ports rnd (rg_Ports g) (nat p) =
      Inr (take (nat p) (drop s (rg_Ports g)), take s (rg_Ports g) @ drop (s + nat p) (rg_Ports g))"
    by (rule take_ports_window)
  with True show thesis
    by (intro that [of "take (nat p) (drop s (rg_Ports g))"
          "take s (rg_Ports g) @ drop (s + nat p) (rg_Ports g)"])
      (auto simp: apply_defs scalar_ask_def port_ask_def drained_def Let_def
        mset_remove_window [simplified])
next
  case False
  then show thesis
    by (intro that [of "[]" "rg_Ports g"])
      (auto simp: apply_defs scalar_ask_def drained_def)
qed

lemma apply_resources_short:
  assumes "int (length (rg_Ports g)) < p"
  shows "apply_resources U rnd g c m d p pr ro pid cp = Inl SliceOutOfRange"
proof -
  from assms have "0 < p" and "length (rg_Ports g) < nat p" by linarith+
  then show ?thesis by (simp add: apply_defs take_ports_short)
qed

section \<open>The contract of a pool\<close>

locale resource_pool =
  fixes pool :: "'h \<Rightarrow> ResourceGroup"
    and fits :: "'h \<Rightarrow> float64 \<Rightarrow> float64 \<Rightarrow> float64 \<Rightarrow> int \<Rightarrow> bool"
    and take_from :: "nat \<Rightarrow> 'h \<Rightarrow> float64 \<Rightarrow> float64 \<Rightarrow> float64 \<Rightarrow> int \<Rightarrow> ('h \<times> 'ask) result"
  assumes fits_iff: "fits h c m d p \<longleftrightarrow>
      c \<le> rg_Cpus (pool h) \<and> m \<le> rg_Mem (pool h) \<and> d \<le> rg_Disk (pool h) \<and>
      p \<le> int (length (rg_Ports (pool h)))"
    and take_ok: "p \<le> int (length (rg_Ports (pool h))) \<Longrightarrow>
      \<exists>tk lp h' ask. take_from r h c m d p = Inr (h', ask) \<and> pool h' = drained (pool h) c m d lp \<and>
        length tk = nat p \<and> mset tk + mset lp = mset (rg_Ports (pool h))"
    and take_short: "int (length (rg_Ports (pool h))) < p \<Longrightarrow> \<exists>e. take_from r h c m d p = Inl e"
begin

lemma take_defined_iff: "(\<exists>x. take_from r h c m d p = Inr x) \<longleftrightarrow> p \<le> int (length (rg_Ports (pool h)))"
  using take_ok [of p h r c m d] take_short [of h p r c m d]
  by (metis linorder_not_le Inr_not_Inl)

lemma take_pool:
  assumes "take_from r h c m d p = Inr (h', ask)"
  obtains tk lp where "pool h' = drained (pool h) c m d lp" "length tk = nat p"
    "mset tk + mset lp = mset (rg_Ports (pool h))"
proof -
  have "p \<le> int (length (rg_Ports (pool h)))"
    using assms take_defined_iff by blast
  from take_ok [OF this, of r c m d] assms that show thesis by auto
qed

lemma guarded_take:
  assumes "fits h c m d p" and "nonneg_pool (pool h)"
  obtains h' ask lp tk where "take_from r h c m d p = Inr (h', ask)" "pool h' = drained (pool h) c m d lp"
    "nonneg_pool (pool h')" "length tk = nat p" "mset tk + mset lp = mset (rg_Ports (pool h))"
proof -
  from assms(1) have "p \<le> int (length (rg_Ports (pool h)))" by (simp add: fits_iff)
  from take_ok [OF this, of r c m d] obtain tk lp h' ask where
    "take_from r h c m d p = Inr (h', ask)" "pool h' = drained (pool h) c m d lp"
    "length tk = nat p" "mset tk + mset lp = mset (rg_Ports (pool h))" by blast
  moreover from this(2) assms have "nonneg_pool (pool h')"
    by (auto simp: fits_iff drained_nonneg)
  ultimately show thesis using that by blast
qed

text \<open>Two takes in a row never hand out a port twice.\<close>

lemma takes_disjoint:
  assumes "distinct (rg_Ports (pool h))"
    and "take_from r h c m d p = Inr (h', ask)" and "take_from r' h' c' m' d' p' = Inr (h'', ask')"
  obtains tk tk' where "length tk = nat p" "length tk' = nat p'" "distinct (tk @ tk' @ rg_Ports (pool h''))"
    "set (tk @ tk') \<subseteq> set (rg_Ports (pool h))"
proof -
  obtain tk lp where 1: "pool h' = drained (pool h) c m d lp" "length tk = nat p"
    "mset tk + mset lp = mset (rg_Ports (pool h))" using assms(2) by (rule take_pool)
  obtain tk' lp' where 2: "pool h'' = drained (pool h') c' m' d' lp'" "length tk' = nat p'"
    "mset tk' + mset lp' = mset (rg_Ports (pool h'))" using assms(3) by (rule take_pool)
  from 1 2 have "mset (tk @ tk' @ rg_Ports (pool h'')) = mset (rg_Ports (pool h))" by simp
  with assms(1) have "distinct (tk @ tk' @ rg_Ports (pool h''))"
    and "set (tk @ tk') \<subseteq> set (rg_Ports (pool h))"
    by (metis mset_eq_imp_distinct_iff) (metis \<open>mset _ = _\<close> mset_eq_setD set_append sup.cobounded1 append.assoc)
  with 1 2 show thesis by (intro that)
qed

end

interpretation unreserved: resource_pool UnreservedResources CanFitUnreserved "ApplyUnreserved U"
  for U
proof
  fix h :: OfferHelper and c m d p r
  assume "p \<le> int (length (rg_Ports (UnreservedResources h)))"
  then show "\<exists>tk lp h' ask. ApplyUnreserved U r h c m d p = Inr (h', ask) \<and>
      UnreservedResources h' = drained (UnreservedResources h) c m d lp \<and>
      length tk = nat p \<and> mset tk + mset lp = mset (rg_Ports (UnreservedResources h))"
    by (rule apply_resources_ok [of p "UnreservedResources h" U r c m d "[]" "[]" "[]" "[]"])
      (auto simp: ApplyUnreserved_def)
qed (simp_all add: CanFitUnreserved_def ApplyUnreserved_def apply_resources_short)

interpretation reserved: resource_pool ReservedResources CanFitReserved
    "\<lambda>r h c m d p. ApplyReserved U r h c m d p pr ro pid cp"
  for U pr ro pid cp
proof
  fix h :: OfferHelper and c m d p r
  assume "p \<le> int (length (rg_Ports (ReservedResources h)))"
  then show "\<exists>tk lp h' ask. ApplyReserved U r h c m d p pr ro pid cp = Inr (h', ask) \<and>
      ReservedResources h' = drained (ReservedResources h) c m d lp \<and>
      length tk = nat p \<and> mset tk + mset lp = mset (rg_Ports (ReservedResources h))"
    by (rule apply_resources_ok [of p "ReservedResources h" U r c m d pr ro pid cp])
      (auto simp: ApplyReserved_def)
qed (simp_all add: CanFitReserved_def ApplyReserved_def apply_resources_short)

section \<open>Reading and answering an offer\<close>

text \<open>An offer whose port ranges run forwards and stay below \<open>2 ^ 63 - 1\<close>, and the ports it holds.\<close>

definition sound_offer :: "Offer \<Rightarrow> bool" where
  "sound_offer o1 \<longleftrightarrow>
     (\<forall>res \<in> set (of_Resources o1). res_Name res = ''ports'' \<longrightarrow>
        (\<forall>r \<in> set (res_Ranges res). proper_range r))"

definition ports_of :: "Resource list \<Rightarrow> int64 list" where
  "ports_of rs = concat (map (\<lambda>res. concat (map unpack (res_Ranges res))) rs)"

definition offer_ports :: "Offer \<Rightarrow> int64 list" where
  "offer_ports o1 = ports_of (filter (\<lambda>res. res_Name res = ''ports'') (of_Resources o1))"

lemma port_stream_proper:
  "\<forall>res \<in> set rs. \<forall>r \<in> set (res_Ranges res). proper_range r \<Longrightarrow> port_stream rs = Inr (ports_of rs)"
  by (induction rs) (simp_all add: RangesToArray_proper ports_of_def)

lemma unpack_valid:
  assumes r: "proper_range r" and "p \<in> set (unpack r)"
  shows "valid_port p"
proof -
  from assms(2) obtain n where p: "p = word_of_nat n" and "n < Suc (unat (vr_End r))"
    by (auto simp: unpack_def simp del: upt_Suc)
  with r have n: "n < 2 ^ 63 - 1" unfolding proper_range_def by linarith
  then have "n < 2 ^ 63" by linarith
  then have "sint p = int n" unfolding p by (rule sint_word_of_nat)
  moreover from n have "int n < 2 ^ 63 - 1" by simp
  ultimately show ?thesis by (simp only: valid_port_def of_nat_0_le_iff simp_thms)
qed

lemma ports_of_valid:
  "\<forall>res \<in> set rs. \<forall>r \<in> set (res_Ranges res). proper_range r \<Longrightarrow> p \<in> set (ports_of rs) \<Longrightarrow> valid_port p"
  by (auto simp: ports_of_def intro: unpack_valid)

lemma mset_ports_of: "mset (ports_of rs) = (\<Sum>res\<leftarrow>rs. mset (concat (map unpack (res_Ranges res))))"
  by (simp add: ports_of_def mset_concat comp_def)

lemma mset_ports_of_split:
  "mset (ports_of (filter P rs)) + mset (ports_of (filter (\<lambda>r. \<not> P r) rs)) = mset (ports_of rs)"
  by (induction rs) (simp_all add: mset_ports_of ac_simps)

lemma MaybeUnreserve_launching: "TasksToLaunch h \<noteq> [] \<Longrightarrow> MaybeUnreserve U h = Inr h"
  by (simp add: MaybeUnreserve_def)

lemma MaybeUnreserve_frame:
  assumes "MaybeUnreserve U h = Inr h'"
  shows "TasksToLaunch h' = TasksToLaunch h" "ResourcesToReserve h' = ResourcesToReserve h"
    "VolumesToCreate h' = VolumesToCreate h" "MesosOffer h' = MesosOffer h"
    "PersistenceIDs h' = PersistenceIDs h"
  using assms by (auto simp: MaybeUnreserve_def Let_def split: if_splits)

definition volume_id :: "Resource \<Rightarrow> string" where
  "volume_id res = (case res_Disk res of None \<Rightarrow> [] | Some d \<Rightarrow> di_PersistenceId d)"

lemma persistence_ids_eq:
  "\<forall>res \<in> set rs. res_Disk res \<noteq> None \<Longrightarrow> persistence_ids rs = Inr (map volume_id rs)"
  by (induction rs) (auto simp: volume_id_def split: option.splits)

lemma copy_volumes_ids:
  "\<forall>res \<in> set rs. res_Disk res \<noteq> None \<Longrightarrow>
    \<exists>vs. copy_volumes U rs = Inr vs \<and> map volume_id vs = map volume_id rs"
  by (induction rs) (auto simp: volume_id_def NewReservedVolume_def split: option.splits)

context mesosutil_laws
begin

lemma scalar_ask_no_ports: "res \<in> set (scalar_ask U c m d pr ro pid cp) \<Longrightarrow> res_Name res \<noteq> ''ports''"
  by (auto simp: scalar_ask_def apply_defs split: if_splits)

lemma port_ask_simps [simp]:
  "res_Name (port_ask U tk pr ro) = ''ports''"
  "res_Ranges (port_ask U tk pr ro) = ArrayToRanges U tk"
  by (simp_all add: port_ask_def Let_def)

text \<open>The port stream of an ask is the sorted list of the ports it took.\<close>

lemma PortIterator_ask:
  assumes "\<forall>q \<in> set tk. valid_port q" and "distinct tk"
  shows "PortIterator U (scalar_ask U c m d pr ro pid cp @ [port_ask U tk pr ro]) = Inr (sort_key sint tk)"
proof -
  have "filter (\<lambda>res. res_Name res = ''ports'') (scalar_ask U c m d pr ro pid cp) = []"
    by (auto simp: filter_empty_conv dest: scalar_ask_no_ports)
  moreover have "RangesToArray (ArrayToRanges U tk) = Inr (sort_key sint tk)"
    using RangesToArray_ArrayToRanges [OF assms(1)] assms(2) by (simp add: distinct_remdups_id)
  ultimately show ?thesis by (simp add: PortIterator_def)
qed

lemma PortIterator_unreserved:
  assumes "PortIterator U ask = Inr ps"
  shows "PortIterator U (scalar_ask U c m d pr ro pid cp @ ask) = Inr ps"
proof -
  have "filter (\<lambda>res. res_Name res = ''ports'') (scalar_ask U c m d pr ro pid cp) = []"
    by (auto simp: filter_empty_conv dest: scalar_ask_no_ports)
  with assms show ?thesis by (simp add: PortIterator_def)
qed

lemma Operations_eq:
  "Operations U h =
     (if TasksToLaunch h \<noteq> [] then [LAUNCH (TasksToLaunch h)] else []) @
     (if VolumesToDestroy h \<noteq> [] then [DESTROY (VolumesToDestroy h)] else []) @
     (if ResourcesToUneserve h \<noteq> [] then [UNRESERVE (ResourcesToUneserve h)] else []) @
     (if ResourcesToReserve h \<noteq> [] then [RESERVE (ResourcesToReserve h)] else []) @
     (if VolumesToCreate h \<noteq> [] then [CREATE (VolumesToCreate h)] else [])"
  by (simp add: Operations_def Let_def)

lemma NewOfferHelper_ok:
  assumes "sound_offer o1"
  obtains h where "NewOfferHelper U o1 = Inr h" and "MesosOffer h = o1"
    and "mset (rg_Ports (UnreservedResources h)) + mset (rg_Ports (ReservedResources h)) = mset (offer_ports o1)"
    and "\<forall>p \<in> set (rg_Ports (UnreservedResources h)). valid_port p"
    and "PersistenceIDs h = map volume_id (FilterReservedVolumes U (of_Resources o1))"
    and "TasksToLaunch h = []" "ResourcesToUneserve h = []" "VolumesToDestroy h = []"
    "ResourcesToReserve h = []" "VolumesToCreate h = []"
proof -
  let ?ps = "filter (\<lambda>res. res_Name res = ''ports'') (of_Resources o1)"
  have proper: "\<forall>res \<in> set ?ps. \<forall>r \<in> set (res_Ranges res). proper_range r"
    using assms by (auto simp: sound_offer_def)
  have split: "getPorts U (of_Resources o1) w =
      Inr (ports_of (filter (\<lambda>res. if w then res_Reservation res \<noteq> None else res_Reservation res = None) ?ps))" for w
  proof -
    have "FilterResources U (of_Resources o1) (\<lambda>res.
        if w then res_Name res = ''ports'' \<and> res_Reservation res \<noteq> None
        else res_Name res = ''ports'' \<and> res_Reservation res = None) =
      filter (\<lambda>res. if w then res_Reservation res \<noteq> None else res_Reservation res = None) ?ps"
      by (auto intro: filter_cong)
    with proper show ?thesis unfolding getPorts_def Let_def by (simp only:) (rule port_stream_proper, auto)
  qed
  note un = split [of False, simplified if_False] and re = split [of True, simplified if_True]
  have ids: "getPersistenceIds U (of_Resources o1) = Inr (map volume_id (FilterReservedVolumes U (of_Resources o1)))"
    unfolding getPersistenceIds_def FilterReservedVolumes_def
    by (subst persistence_ids_eq) (simp_all, metis (mono_tags, lifting) filter_cong)
  have valid: "\<forall>p \<in> set (ports_of (filter (\<lambda>res. res_Reservation res = None) ?ps)). valid_port p"
    using proper by (auto intro!: ports_of_valid [rotated])
  have "\<exists>h. NewOfferHelper U o1 = Inr h \<and> MesosOffer h = o1 \<and>
      rg_Ports (UnreservedResources h) = ports_of (filter (\<lambda>res. res_Reservation res = None) ?ps) \<and>
      rg_Ports (ReservedResources h) = ports_of (filter (\<lambda>res. res_Reservation res \<noteq> None) ?ps) \<and>
      PersistenceIDs h = map volume_id (FilterReservedVolumes U (of_Resources o1)) \<and>
      TasksToLaunch h = [] \<and> ResourcesToUneserve h = [] \<and> VolumesToDestroy h = [] \<and>
      ResourcesToReserve h = [] \<and> VolumesToCreate h = []"
    by (simp add: NewOfferHelper_def getUnreservedResources_def getReservedResources_def un re ids)
  with valid that mset_ports_of_split [of "\<lambda>res. res_Reservation res = None" ?ps] show thesis
    by (auto simp: offer_ports_def)
qed

lemma MaybeUnreserve_volumes:
  assumes "TasksToLaunch h = []"
  obtains h' vs where "MaybeUnreserve U h = Inr h'"
    and "VolumesToDestroy h' = VolumesToDestroy h @ (if PersistenceIDs h = [] then [] else vs)"
    and "map volume_id vs = map volume_id (FilterReservedVolumes U (of_Resources (MesosOffer h)))"
    and "ResourcesToUneserve h' = ResourcesToUneserve h @
      (if OfferHasReservations h then CopyReservedResources U (of_Resources (MesosOffer h)) else [])"
proof -
  have "\<forall>res \<in> set (FilterReservedVolumes U (of_Resources (MesosOffer h))). res_Disk res \<noteq> None"
    by (auto simp: FilterReservedVolumes_def)
  from copy_volumes_ids [OF this] obtain vs where
    "CopyReservedVolumes U (of_Resources (MesosOffer h)) = Inr vs"
    "map volume_id vs = map volume_id (FilterReservedVolumes U (of_Resources (MesosOffer h)))"
    by (auto simp: CopyReservedVolumes_def)
  with assms show thesis
    by (intro that [of "h\<lparr>ResourcesToUneserve := ResourcesToUneserve h @
        (if OfferHasReservations h then CopyReservedResources U (of_Resources (MesosOffer h)) else []),
        VolumesToDestroy := VolumesToDestroy h @ (if PersistenceIDs h = [] then [] else vs)\<rparr>" vs])
      (auto simp: MaybeUnreserve_def OfferHasVolumes_def Let_def)
qed

lemma MaybeUnreserve_fresh:
  assumes "sound_offer o1" and "NewOfferHelper U o1 = Inr h"
  shows "\<exists>h' vs us. MaybeUnreserve U h = Inr h' \<and>
    Operations U h' = (if vs \<noteq> [] then [DESTROY vs] else []) @ (if us \<noteq> [] then [UNRESERVE us] else []) \<and>
    map volume_id vs = PersistenceIDs h \<and> (us \<noteq> [] \<longrightarrow> OfferHasReservations h)"
proof -
  have h: "MesosOffer h = o1" "PersistenceIDs h = map volume_id (FilterReservedVolumes U (of_Resources o1))"
    "TasksToLaunch h = []" "ResourcesToUneserve h = []" "VolumesToDestroy h = []"
    "ResourcesToReserve h = []" "VolumesToCreate h = []"
    using NewOfferHelper_ok [OF assms(1)] assms(2) by auto
  from h(3) obtain h' vs where h': "MaybeUnreserve U h = Inr h'"
    "VolumesToDestroy h' = VolumesToDestroy h @ (if PersistenceIDs h = [] then [] else vs)"
    "map volume_id vs = map volume_id (FilterReservedVolumes U (of_Resources (MesosOffer h)))"
    "ResourcesToUneserve h' = ResourcesToUneserve h @
      (if OfferHasReservations h then CopyReservedResources U (of_Resources (MesosOffer h)) else [])"
    by (rule MaybeUnreserve_volumes)
  note fr = MaybeUnreserve_frame [OF h'(1)]
  have "vs = [] \<longleftrightarrow> PersistenceIDs h = []" using h'(3) h(1,2) by auto
  with h h' fr show ?thesis
    by (intro exI [of _ h'] exI [of _ vs] exI [of _ "ResourcesToUneserve h'"])
      (simp add: Operations_eq)
qed

end

section \<open>Properties\<close>


definition ex_scalar :: "string \<Rightarrow> float64 \<Rightarrow> Resource" where
  "ex_scalar n v = \<lparr>res_Name = n, res_Scalar = v, res_Ranges = [], res_Role = ''*'',
     res_Reservation = None, res_Disk = None\<rparr>"

definition ex_offer :: Offer where
  "ex_offer = \<lparr>of_Id = ''O1'', of_SlaveId = Some ''S1'', of_Hostname = ''host1.example'',
     of_Resources = [ex_scalar ''cpus'' 4, ex_scalar ''mem'' 8192, ex_scalar ''disk'' 20000,
       (ex_scalar ''ports'' 0)\<lparr>res_Ranges := [\<lparr>vr_Begin = 31000, vr_End = 31011\<rparr>]\<rparr>,
       (ex_scalar ''disk'' 500)\<lparr>res_Role := ''riak'', res_Reservation := Some \<lparr>ri_Principal = ''p''\<rparr>,
          res_Disk := Some \<lparr>di_PersistenceId = ''u1'', di_ContainerPath = ''root'', di_Mode = Volume_RW\<rparr>\<rparr>]\<rparr>"

definition ex_helper :: OfferHelper where
  "ex_helper = \<lparr>MesosOffer = ex_offer, OfferIDStr = ''O1'', PersistenceIDs = [''u1''],
     ReservedResources = \<lparr>rg_Cpus = 0, rg_Mem = 0, rg_Disk = 500, rg_Ports = []\<rparr>,
     UnreservedResources = \<lparr>rg_Cpus = 4, rg_Mem = 8192, rg_Disk = 20000,
       rg_Ports = [31000, 31001, 31002, 31003, 31004, 31005, 31006, 31007, 31008, 31009, 31010, 31011]\<rparr>,
     ResourcesToReserve = [], ResourcesToUneserve = [], VolumesToCreate = [], VolumesToDestroy = [],
     TasksToLaunch = []\<rparr>"



lemma sound_ex_offer: "sound_offer ex_offer"
  by (simp add: sound_offer_def ex_offer_def ex_scalar_def proper_range_def)




end
