(* ===== verification/Process_State.thy ===== *)
theory Process_State
  imports Main
begin

text \<open>
  The states of a node, \<^verbatim>\<open>scheduler/process_state/constants.go\<close>. The source numbers them with
  \<^verbatim>\<open>iota\<close> and compares them with \<open>\<le>\<close> and \<open>\<ge>\<close>, so the type is ordered by that number.
\<close>

datatype ProcessState =
    Unknown
  | Reserved
  | Starting
  | Started
  | ShuttingDown
  | Shutdown
  | Failed
  | Restarting

primrec iota :: "ProcessState \<Rightarrow> nat" where
  "iota Unknown = 0"
| "iota Reserved = 1"
| "iota Starting = 2"
| "iota Started = 3"
| "iota ShuttingDown = 4"
| "iota Shutdown = 5"
| "iota Failed = 6"
| "iota Restarting = 7"

lemma iota_inj: "iota s = iota t \<longleftrightarrow> s = t"
  by (cases s; cases t) simp_all

instantiation ProcessState :: linorder
begin

definition less_eq_ProcessState :: "ProcessState \<Rightarrow> ProcessState \<Rightarrow> bool" where
  "s \<le> t \<longleftrightarrow> iota s \<le> iota t"

definition less_ProcessState :: "ProcessState \<Rightarrow> ProcessState \<Rightarrow> bool" where
  "s < t \<longleftrightarrow> iota s < iota t"

instance
  by standard (auto simp: less_eq_ProcessState_def less_ProcessState_def iota_inj)

end

lemma le_Reserved_iff: "s \<le> Reserved \<longleftrightarrow> s = Unknown \<or> s = Reserved"
  by (cases s) (simp_all add: less_eq_ProcessState_def)

lemma ge_Reserved_iff: "Reserved \<le> s \<longleftrightarrow> s \<noteq> Unknown"
  by (cases s) (simp_all add: less_eq_ProcessState_def)

end
