(* ===== verification/Json.thy ===== *)
theory Json
  imports Go_Prelude
begin

text \<open>
  Reading JSON the way \<^verbatim>\<open>encoding/json\<close> does for the replies the scheduler looks at: a syntax check
  of the whole text first, then the string fields of a nested struct. A text that is not JSON leaves
  the struct at its zero value, a member of another type leaves its field at the zero value, the last
  of several members with one name wins. Names are compared exactly; the case-insensitive fallback of
  the package and its replacement of invalid UTF-8 are left out.
\<close>

datatype json =
    JNull
  | JBool bool
  | JNumber string
  | JString string
  | JArray "json list"
  | JObject "(string \<times> json) list"

section \<open>Strings\<close>

definition code :: "char \<Rightarrow> nat" where
  "code c = of_char c"

definition json_space :: "char \<Rightarrow> bool" where
  "json_space c \<longleftrightarrow> code c = 32 \<or> code c = 9 \<or> code c = 10 \<or> code c = 13"

definition json_digit :: "char \<Rightarrow> bool" where
  "json_digit c \<longleftrightarrow> 48 \<le> code c \<and> code c \<le> 57"

definition hex_digit :: "char \<Rightarrow> nat option" where
  "hex_digit c =
     (if json_digit c then Some (code c - 48)
      else if 97 \<le> code c \<and> code c \<le> 102 then Some (code c - 87)
      else if 65 \<le> code c \<and> code c \<le> 70 then Some (code c - 55) else None)"

fun getu4 :: "string \<Rightarrow> nat option" where
  "getu4 (a # b # c # d # _) =
     (case (hex_digit a, hex_digit b, hex_digit c, hex_digit d) of
        (Some i, Some j, Some k, Some l) \<Rightarrow> Some (((i * 16 + j) * 16 + k) * 16 + l)
      | _ \<Rightarrow> None)"
| "getu4 _ = None"

definition utf8 :: "nat \<Rightarrow> string" where
  "utf8 r =
     map char_of
       (if r < 128 then [r]
        else if r < 2048 then [192 + r div 64, 128 + r mod 64]
        else if r < 65536 then [224 + r div 4096, 128 + r div 64 mod 64, 128 + r mod 64]
        else [240 + r div 262144, 128 + r div 4096 mod 64, 128 + r div 64 mod 64, 128 + r mod 64])"

text \<open>The rune of an escape, with the length of a second escape that completes a surrogate pair.\<close>

definition escape_rune :: "nat \<Rightarrow> string \<Rightarrow> nat \<times> nat" where
  "escape_rune r rest =
     (if r < 55296 \<or> 57343 < r then (r, 0)
      else case (if take 2 rest = [char_of (92 :: nat), CHR ''u''] then getu4 (drop 2 rest) else None) of
        Some r2 \<Rightarrow>
          if r < 56320 \<and> 56320 \<le> r2 \<and> r2 \<le> 57343
          then ((r - 55296) * 1024 + (r2 - 56320) + 65536, 6) else (65533, 0)
      | None \<Rightarrow> (65533, 0))"

definition simple_escape :: "char \<Rightarrow> char option" where
  "simple_escape e =
     map_option char_of
       (map_of [(34, 34), (92, 92), (47, 47), (98, 8), (102, 12), (110, 10), (114, 13), (116, 9 :: nat)]
          (code e))"

text \<open>The rest of a string literal after its opening quote.\<close>

function parse_chars :: "string \<Rightarrow> (string \<times> string) option" where
  "parse_chars s =
     (case s of [] \<Rightarrow> None
      | c # cs \<Rightarrow>
          if code c = 34 then Some ([], cs)
          else if code c < 32 then None
          else if code c = 92 then
            (case cs of [] \<Rightarrow> None
             | e # es \<Rightarrow>
                 if e = CHR ''u'' then
                   (case getu4 es of None \<Rightarrow> None
                    | Some r \<Rightarrow>
                        let (u, n) = escape_rune r (drop 4 es)
                        in map_option (\<lambda>(t, rest). (utf8 u @ t, rest)) (parse_chars (drop (4 + n) es)))
                 else (case simple_escape e of None \<Rightarrow> None
                       | Some d \<Rightarrow> map_option (\<lambda>(t, rest). (d # t, rest)) (parse_chars es)))
          else map_option (\<lambda>(t, rest). (c # t, rest)) (parse_chars cs))"
  by pat_completeness auto
termination
  by (relation "measure length") auto

declare parse_chars.simps [simp del]

section \<open>Values\<close>

definition skip_space :: "string \<Rightarrow> string" where
  "skip_space s = dropWhile json_space s"

text \<open>\<open>-? (0 | [1-9][0-9]*) (. [0-9]+)? ([eE][+-]?[0-9]+)?\<close>\<close>

definition parse_int_part :: "string \<Rightarrow> string option" where
  "parse_int_part s = (case s of [] \<Rightarrow> None
     | c # cs \<Rightarrow> if c = CHR ''0'' then Some cs
                else if json_digit c then Some (dropWhile json_digit cs) else None)"

definition parse_digits1 :: "string \<Rightarrow> string option" where
  "parse_digits1 s = (case s of [] \<Rightarrow> None
     | c # cs \<Rightarrow> if json_digit c then Some (dropWhile json_digit cs) else None)"

definition parse_number :: "string \<Rightarrow> (json \<times> string) option" where
  "parse_number s =
     (let s1 = (case s of c # cs \<Rightarrow> if c = CHR ''-'' then cs else s | [] \<Rightarrow> [])
      in case parse_int_part s1 of None \<Rightarrow> None
       | Some s2 \<Rightarrow>
          (case (case s2 of c # cs \<Rightarrow> if c = CHR ''.'' then parse_digits1 cs else Some s2 | [] \<Rightarrow> Some []) of
             None \<Rightarrow> None
           | Some s3 \<Rightarrow>
              (case (case s3 of c # cs \<Rightarrow>
                       if c = CHR ''e'' \<or> c = CHR ''E''
                       then parse_digits1 (case cs of d # ds \<Rightarrow> if d = CHR ''+'' \<or> d = CHR ''-'' then ds else cs | [] \<Rightarrow> [])
                       else Some s3
                     | [] \<Rightarrow> Some []) of
                 None \<Rightarrow> None
               | Some s4 \<Rightarrow> Some (JNumber (take (length s - length s4) s), s4))))"

definition parse_literal :: "string \<Rightarrow> (json \<times> string) option" where
  "parse_literal s =
     (if take 4 s = ''null'' then Some (JNull, drop 4 s)
      else if take 4 s = ''true'' then Some (JBool True, drop 4 s)
      else if take 5 s = ''false'' then Some (JBool False, drop 5 s)
      else parse_number s)"

text \<open>
  Values, elements of an array and members of an object. Between two calls that leave the text as it
  is, at least one character is read, so twice the length of the text and one is fuel enough.
\<close>

fun parse_value :: "nat \<Rightarrow> string \<Rightarrow> (json \<times> string) option"
  and parse_elements :: "nat \<Rightarrow> string \<Rightarrow> (json list \<times> string) option"
  and parse_members :: "nat \<Rightarrow> string \<Rightarrow> ((string \<times> json) list \<times> string) option" where
  "parse_value 0 s = None"
| "parse_value (Suc fuel) s =
     (case skip_space s of [] \<Rightarrow> None
      | c # cs \<Rightarrow>
          if code c = 34 then map_option (\<lambda>(t, rest). (JString t, rest)) (parse_chars cs)
          else if c = CHR ''['' then
            (case skip_space cs of [] \<Rightarrow> None
             | d # ds \<Rightarrow> if d = CHR '']'' then Some (JArray [], ds)
                 else map_option (\<lambda>(vs, rest). (JArray vs, rest)) (parse_elements fuel (d # ds)))
          else if c = CHR ''{'' then
            (case skip_space cs of [] \<Rightarrow> None
             | d # ds \<Rightarrow> if d = CHR ''}'' then Some (JObject [], ds)
                 else map_option (\<lambda>(ms, rest). (JObject ms, rest)) (parse_members fuel (d # ds)))
          else parse_literal (c # cs))"
| "parse_elements 0 s = None"
| "parse_elements (Suc fuel) s =
     (case parse_value fuel s of None \<Rightarrow> None
      | Some (v, rest) \<Rightarrow>
          (case skip_space rest of [] \<Rightarrow> None
           | d # ds \<Rightarrow>
               if d = CHR '']'' then Some ([v], ds)
               else if d = CHR '','' then
                 map_option (\<lambda>(vs, rest'). (v # vs, rest')) (parse_elements fuel ds)
               else None))"
| "parse_members 0 s = None"
| "parse_members (Suc fuel) s =
     (case skip_space s of [] \<Rightarrow> None
      | q # qs \<Rightarrow>
          if code q \<noteq> 34 then None
          else (case parse_chars qs of None \<Rightarrow> None
            | Some (k, r1) \<Rightarrow>
                (case skip_space r1 of [] \<Rightarrow> None
                 | c # cs \<Rightarrow>
                     if c \<noteq> CHR '':'' then None
                     else (case parse_value fuel cs of None \<Rightarrow> None
                       | Some (v, r2) \<Rightarrow>
                           (case skip_space r2 of [] \<Rightarrow> None
                            | d # ds \<Rightarrow>
                                if d = CHR ''}'' then Some ([(k, v)], ds)
                                else if d = CHR '','' then
                                  map_option (\<lambda>(ms, rest). ((k, v) # ms, rest)) (parse_members fuel ds)
                                else None)))))"

definition parse_json :: "string \<Rightarrow> json option" where
  "parse_json s =
     (case parse_value (2 * length s + 1) s of None \<Rightarrow> None
      | Some (v, rest) \<Rightarrow> if skip_space rest = [] then Some v else None)"

section \<open>Fields\<close>

text \<open>\<^verbatim>\<open>json.Unmarshal\<close> into a struct: what ends up in a nested struct and in a string field.\<close>

definition member :: "string \<Rightarrow> json option \<Rightarrow> json option" where
  "member name j = (case j of Some (JObject ms) \<Rightarrow> map_of (rev ms) name | _ \<Rightarrow> None)"

definition string_field :: "string \<Rightarrow> json option \<Rightarrow> string" where
  "string_field name j = (case member name j of Some (JString s) \<Rightarrow> s | _ \<Rightarrow> [])"

end
