(* ===== verification/Json_Encode.thy ===== *)
theory Json_Encode
  imports Json
begin

text \<open>
  Writing JSON the way \<^verbatim>\<open>encoding/json\<close> does, without white space, and the proof that reading it yields the
  value that was written. Strings are taken to be valid UTF-8, whose bytes above 127 are written as they are.
\<close>

section \<open>Strings\<close>

definition hex_char :: "nat \<Rightarrow> char" where
  "hex_char n = ''0123456789abcdef'' ! n"

definition escape_char :: "char \<Rightarrow> string" where
  "escape_char c =
     (if c = CHR 0x22 \<or> c = CHR 0x5C then [CHR 0x5C, c]
      else if c = CHR 0x0A then [CHR 0x5C, CHR ''n'']
      else if c = CHR 0x0D then [CHR 0x5C, CHR ''r'']
      else if c = CHR 0x09 then [CHR 0x5C, CHR ''t'']
      else if code c < 32 \<or> c = CHR ''<'' \<or> c = CHR ''>'' \<or> c = CHR ''&''
      then [CHR 0x5C, CHR ''u'', CHR ''0'', CHR ''0'', hex_char (code c div 16), hex_char (code c mod 16)]
      else [c])"

text \<open>The line and paragraph separators, three bytes in UTF-8, are escaped too.\<close>

definition separator :: "char \<Rightarrow> char \<Rightarrow> char \<Rightarrow> bool" where
  "separator a b c \<longleftrightarrow> a = CHR 0xE2 \<and> b = CHR 0x80 \<and> (c = CHR 0xA8 \<or> c = CHR 0xA9)"

fun escape :: "string \<Rightarrow> string" where
  "escape (a # b # c # cs) =
     (if separator a b c then [CHR 0x5C, CHR ''u'', CHR ''2'', CHR ''0'', CHR ''2'', hex_char (code c mod 16)] @ escape cs
      else escape_char a @ escape (b # c # cs))"
| "escape [a, b] = escape_char a @ escape_char b"
| "escape [a] = escape_char a"
| "escape [] = []"

definition quote :: "string \<Rightarrow> string" where
  "quote s = CHR 0x22 # escape s @ [CHR 0x22]"

lemma hex_digit_hex_char: "n < 16 \<Longrightarrow> hex_digit (hex_char n) = Some n"
proof -
  assume "n < 16"
  then have "n \<in> set [0..<16]" by simp
  moreover have "\<forall>n \<in> set [0..<16]. hex_digit (hex_char n) = Some n" by code_simp
  ultimately show ?thesis by blast
qed

lemma char_of_code [simp]: "char_of (code c) = c"
  by (simp add: code_def)

lemma code_eqD: "code c = n \<Longrightarrow> c = char_of n"
  using char_of_code [of c] by simp

lemma char_of_codes:
  "char_of (34 :: nat) = CHR 0x22" "char_of (92 :: nat) = CHR 0x5C" "char_of (10 :: nat) = CHR 0x0A"
  "char_of (13 :: nat) = CHR 0x0D" "char_of (9 :: nat) = CHR 0x09" "char_of (226 :: nat) = CHR 0xE2"
  "char_of (128 :: nat) = CHR 0x80" "char_of (168 :: nat) = CHR 0xA8" "char_of (169 :: nat) = CHR 0xA9" "char_of (48 :: nat) = CHR ''0''"
  by code_simp+

lemma parse_plain:
  "code c \<noteq> 34 \<Longrightarrow> \<not> code c < 32 \<Longrightarrow> code c \<noteq> 92 \<Longrightarrow>
    parse_chars (c # cs) = map_option (\<lambda>(t, rest). (c # t, rest)) (parse_chars cs)"
  by (subst parse_chars.simps) simp

lemma parse_simple:
  "simple_escape e = Some d \<Longrightarrow> e \<noteq> CHR ''u'' \<Longrightarrow>
    parse_chars (CHR 0x5C # e # cs) = map_option (\<lambda>(t, rest). (d # t, rest)) (parse_chars cs)"
  by (subst parse_chars.simps) (simp add: code_def)

lemma parse_unicode:
  assumes "a < 16" "b < 16" "c < 16" "d < 16" and "r = ((a * 16 + b) * 16 + c) * 16 + d" and "r < 55296"
  shows "parse_chars (CHR 0x5C # CHR ''u'' # hex_char a # hex_char b # hex_char c # hex_char d # cs) =
    map_option (\<lambda>(t, rest). (utf8 r @ t, rest)) (parse_chars cs)"
  using assms by (subst parse_chars.simps) (simp add: hex_digit_hex_char escape_rune_def code_def)

lemma parse_escape_char:
  "parse_chars (escape_char c @ cs) = map_option (\<lambda>(t, rest). (c # t, rest)) (parse_chars cs)"
proof -
  let ?coded = "code c < 32 \<or> c = CHR ''<'' \<or> c = CHR ''>'' \<or> c = CHR ''&''"
  consider (quoted) "c = CHR 0x22" | (backslash) "c = CHR 0x5C" | (newline) "c = CHR 0x0A" | (return) "c = CHR 0x0D" | (tab) "c = CHR 0x09"
    | (coded) "c \<noteq> CHR 0x22" "c \<noteq> CHR 0x5C" "c \<noteq> CHR 0x0A" "c \<noteq> CHR 0x0D" "c \<noteq> CHR 0x09" ?coded
    | (plain) "c \<noteq> CHR 0x22" "c \<noteq> CHR 0x5C" "c \<noteq> CHR 0x0A" "c \<noteq> CHR 0x0D" "c \<noteq> CHR 0x09" "\<not> ?coded"
    by blast
  then show ?thesis
  proof cases
    case quoted
    then show ?thesis by (simp add: escape_char_def parse_simple [where d = "CHR 0x22"] simple_escape_def code_def char_of_codes)
  next
    case backslash
    then show ?thesis by (simp add: escape_char_def parse_simple [where d = "CHR 0x5C"] simple_escape_def code_def char_of_codes)
  next
    case newline
    then show ?thesis by (simp add: escape_char_def parse_simple [where d = "CHR 0x0A"] simple_escape_def code_def char_of_codes)
  next
    case return
    then show ?thesis by (simp add: escape_char_def parse_simple [where d = "CHR 0x0D"] simple_escape_def code_def char_of_codes)
  next
    case tab
    then show ?thesis by (simp add: escape_char_def parse_simple [where d = "CHR 0x09"] simple_escape_def code_def char_of_codes)
  next
    case coded
    from coded(6) have l: "code c < 64" by (elim disjE) (simp_all add: code_def)
    have z: "CHR ''0'' = hex_char 0" by (simp add: hex_char_def)
    have "utf8 (code c) = [c]" using l by (simp add: utf8_def)
    moreover have "escape_char c = [CHR 0x5C, CHR ''u'', CHR ''0'', CHR ''0'', hex_char (code c div 16), hex_char (code c mod 16)]"
      unfolding escape_char_def using coded by presburger
    ultimately show ?thesis
      using l parse_unicode [of 0 0 "code c div 16" "code c mod 16" "code c" cs] by (simp add: z)
  next
    case plain
    have "code c \<noteq> 34" "code c \<noteq> 92" using plain(1,2) code_eqD [of c] char_of_codes(1,2) by metis+
    moreover have "escape_char c = [c]" unfolding escape_char_def using plain by presburger
    ultimately show ?thesis using plain(6) by (simp add: parse_plain)
  qed
qed

lemma parse_escape: "parse_chars (escape s @ CHR 0x22 # rest) = Some (s, rest)"
proof (induction s rule: escape.induct)
  case (1 a b c cs)
  show ?case
  proof (cases "separator a b c")
    case True
    then have s: "a = CHR 0xE2" "b = CHR 0x80" "c = CHR 0xA8 \<or> c = CHR 0xA9" by (simp_all add: separator_def)
    have h: "CHR ''2'' = hex_char 2" "CHR ''0'' = hex_char 0" by (simp_all add: hex_char_def)
    have "utf8 (8224 + code c mod 16) = [a, b, c]" using s by (auto simp: utf8_def code_def char_of_codes)
    moreover have "8224 + code c mod 16 < 55296" using mod_less_divisor [of 16 "code c"] by linarith
    ultimately show ?thesis
      using True 1(1) parse_unicode [of 2 0 2 "code c mod 16" "8224 + code c mod 16" "escape cs @ CHR 0x22 # rest"]
      by (simp add: h)
  next
    case False
    with 1(2) show ?thesis by (simp add: parse_escape_char)
  qed
qed (simp_all add: parse_escape_char parse_chars.simps [of "CHR 0x22 # rest"], simp_all add: code_def)

section \<open>Values\<close>

text \<open>The text of a value; the numbers of the program are integers in decimal.\<close>

fun print_json :: "json \<Rightarrow> string" where
  "print_json JNull = ''null''"
| "print_json (JBool b) = (if b then ''true'' else ''false'')"
| "print_json (JNumber s) = s"
| "print_json (JString s) = quote s"
| "print_json (JArray vs) = CHR ''['' # join_strings (map print_json vs) '','' @ '']''"
| "print_json (JObject ms) = CHR ''{'' # join_strings (map (\<lambda>(k, v). quote k @ '':'' @ print_json v) ms) '','' @ ''}''"

fun plain_json :: "json \<Rightarrow> bool" where
  "plain_json (JNumber s) \<longleftrightarrow> (\<exists>i. s = fmt_d i)"
| "plain_json (JArray vs) \<longleftrightarrow> (\<forall>v \<in> set vs. plain_json v)"
| "plain_json (JObject ms) \<longleftrightarrow> (\<forall>m \<in> set ms. plain_json (snd m))"
| "plain_json _ = True"

text \<open>A number ends where one of these begins.\<close>

definition stops :: "string \<Rightarrow> bool" where
  "stops rest \<longleftrightarrow> rest = [] \<or> hd rest = CHR '','' \<or> hd rest = CHR '']'' \<or> hd rest = CHR ''}''"

lemma stops_dropWhile: "stops rest \<Longrightarrow> dropWhile json_digit rest = rest"
  by (cases rest) (auto simp: stops_def json_digit_def code_def)

lemma digits_json: "c \<in> set (digits n) \<Longrightarrow> json_digit c"
  using of_char_digits [of c n] by (simp add: json_digit_def code_def)

lemma dropWhile_digits: "stops rest \<Longrightarrow> \<forall>c \<in> set ds. json_digit c \<Longrightarrow> dropWhile json_digit (ds @ rest) = rest"
  by (simp add: dropWhile_append stops_dropWhile)

lemma digits_zero: "hd (digits n) = CHR ''0'' \<Longrightarrow> n = 0"
proof (induction n rule: digits.induct)
  case (1 n)
  show ?case
  proof (cases "n < 10")
    case True
    with "1.prems" have "digit n = CHR ''0''" by (simp add: digits.simps [of n])
    with of_char_digit [OF True] show ?thesis by simp
  next
    case False
    with "1.prems" have "hd (digits (n div 10)) = CHR ''0''" by (simp add: digits.simps [of n])
    with "1.IH" [OF False] False show ?thesis by simp
  qed
qed

lemma parse_int_part_digits: "stops rest \<Longrightarrow> parse_int_part (digits n @ rest) = Some rest"
proof (cases "n = 0")
  case True
  then show ?thesis by (simp add: parse_int_part_def digits.simps digit_def char_of_codes)
next
  case False
  assume r: "stops rest"
  obtain c cs where d: "digits n = c # cs" by (cases "digits n") auto
  with False digits_zero [of n] have "c \<noteq> CHR ''0''" by auto
  moreover have "json_digit c" "\<forall>x \<in> set cs. json_digit x" using digits_json [of _ n] d by auto
  ultimately show ?thesis by (simp add: parse_int_part_def d dropWhile_digits [OF r] stops_dropWhile [OF r])
qed

lemma hd_digits: "digits n = c # cs \<Longrightarrow> json_digit c \<and> c \<noteq> CHR ''-''"
  using digits_json [of c n] digits_separators(1) [of n] by auto

lemma parse_number_fmt_d:
  assumes "stops rest"
  shows "parse_number (fmt_d i @ rest) = Some (JNumber (fmt_d i), rest)"
proof -
  let ?ds = "digits (nat (if i < 0 then - i else i))"
  obtain c cs where d: "?ds = c # cs" by (cases ?ds) auto
  from hd_digits [OF d] have "c \<noteq> CHR ''-''" by simp
  then have s1: "(case fmt_d i @ rest of c # cs \<Rightarrow> if c = CHR ''-'' then cs else fmt_d i @ rest | [] \<Rightarrow> []) = ?ds @ rest"
    using d by (auto simp: fmt_d_def)
  have "(case rest of c # cs \<Rightarrow> if c = CHR ''.'' then parse_digits1 cs else Some rest | [] \<Rightarrow> Some []) = Some rest"
    "(case rest of c # cs \<Rightarrow>
        if c = CHR ''e'' \<or> c = CHR ''E'' then parse_digits1 (case cs of d # ds \<Rightarrow> if d = CHR ''+'' \<or> d = CHR ''-'' then ds else cs | [] \<Rightarrow> [])
        else Some rest | [] \<Rightarrow> Some []) = Some rest"
    using assms by (auto simp: stops_def split: list.splits)
  then show ?thesis
    unfolding parse_number_def Let_def s1 parse_int_part_digits [OF assms] by simp
qed

lemma parse_literal_fmt_d:
  assumes "stops rest"
  shows "parse_literal (fmt_d i @ rest) = Some (JNumber (fmt_d i), rest)"
proof -
  obtain c cs where d: "fmt_d i = c # cs" "c = CHR ''-'' \<or> json_digit c"
    using hd_digits [of "nat i"] by (cases "fmt_d i") (auto simp: fmt_d_def split: if_splits)
  then have "c \<noteq> CHR ''n''" "c \<noteq> CHR ''t''" "c \<noteq> CHR ''f''" by (auto simp: json_digit_def code_def)
  then have "take 4 (fmt_d i @ rest) \<noteq> ''null''" "take 4 (fmt_d i @ rest) \<noteq> ''true''" "take 5 (fmt_d i @ rest) \<noteq> ''false''"
    by (auto simp: d(1))
  then show ?thesis by (simp add: parse_literal_def parse_number_fmt_d [OF assms])
qed

text \<open>How a value begins.\<close>

definition begins :: "string \<Rightarrow> bool" where
  "begins s \<longleftrightarrow> s \<noteq> [] \<and> \<not> json_space (hd s) \<and> hd s \<noteq> CHR '']''"

lemma begins_skip: "begins s \<Longrightarrow> skip_space (s @ t) = s @ t"
  by (cases s) (simp_all add: begins_def skip_space_def)

lemma begins_print: "plain_json j \<Longrightarrow> begins (print_json j)"
proof (cases j)
  case (JNumber s)
  assume "plain_json j"
  with JNumber obtain i where s: "s = fmt_d i" by auto
  obtain c cs where d: "fmt_d i = c # cs" "c = CHR ''-'' \<or> json_digit c"
    using hd_digits [of "nat i"] by (cases "fmt_d i") (auto simp: fmt_d_def split: if_splits)
  from d(2) have "\<not> json_space c \<and> c \<noteq> CHR '']''" by (auto simp: json_digit_def json_space_def code_def)
  with d(1) s JNumber show ?thesis by (simp add: begins_def)
qed (auto simp: begins_def json_space_def code_def quote_def)

lemma skip_stop: "c \<in> {CHR '','', CHR '']'', CHR ''}'', CHR '':'', CHR 0x22} \<Longrightarrow> skip_space (c # cs) = c # cs"
  by (auto simp: skip_space_def json_space_def code_def)

lemma stops_Cons: "c \<in> {CHR '','', CHR '']'', CHR ''}''} \<Longrightarrow> stops (c # cs)"
  by (auto simp: stops_def)

definition reads :: "json \<Rightarrow> bool" where
  "reads j \<longleftrightarrow> (\<forall>fuel rest. stops rest \<longrightarrow> 2 * length (print_json j) \<le> fuel \<longrightarrow> parse_value fuel (print_json j @ rest) = Some (j, rest))"

lemma readsD: "reads j \<Longrightarrow> stops rest \<Longrightarrow> 2 * length (print_json j) \<le> fuel \<Longrightarrow> parse_value fuel (print_json j @ rest) = Some (j, rest)"
  by (simp add: reads_def)

lemma parse_elements_print:
  assumes "\<forall>v \<in> set vs. reads v" and "vs \<noteq> []" and "2 * length (join_strings (map print_json vs) '','') < fuel"
  shows "parse_elements fuel (join_strings (map print_json vs) '','' @ CHR '']'' # rest) = Some (vs, rest)"
  using assms
proof (induction vs arbitrary: fuel)
  case (Cons v vs)
  obtain g where g: "fuel = Suc g" using Cons.prems(3) by (cases fuel) auto
  show ?case
  proof (cases vs)
    case Nil
    with Cons.prems readsD [of v "CHR '']'' # rest" g] show ?thesis by (simp add: g skip_stop stops_Cons)
  next
    case (Cons v2 vs2)
    let ?t = "join_strings (map print_json vs) '',''"
    have j: "join_strings (map print_json (v # vs)) '','' = print_json v @ CHR '','' # ?t" by (simp add: Cons)
    from Cons.prems(3) have l: "2 * length (print_json v) \<le> g" "2 * length ?t < g" unfolding j g by simp_all
    have "parse_value g (print_json v @ CHR '','' # ?t @ CHR '']'' # rest) = Some (v, CHR '','' # ?t @ CHR '']'' # rest)"
      using Cons.prems(1) l(1) by (intro readsD) (simp_all add: stops_Cons)
    moreover have "parse_elements g (?t @ CHR '']'' # rest) = Some (vs, rest)"
      using Cons.prems(1) l(2) by (intro Cons.IH) (simp_all add: Cons)
    ultimately show ?thesis unfolding g j by (simp add: skip_stop)
  qed
qed simp

definition print_member :: "string \<times> json \<Rightarrow> string" where
  "print_member m = (case m of (k, v) \<Rightarrow> quote k @ '':'' @ print_json v)"

lemma parse_members_print:
  assumes "\<forall>m \<in> set ms. reads (snd m)" and "ms \<noteq> []" and "2 * length (join_strings (map print_member ms) '','') < fuel"
  shows "parse_members fuel (join_strings (map print_member ms) '','' @ CHR ''}'' # rest) = Some (ms, rest)"
  using assms
proof (induction ms arbitrary: fuel)
  case (Cons m ms)
  obtain g where g: "fuel = Suc g" using Cons.prems(3) by (cases fuel) auto
  obtain k v where m: "m = (k, v)" by force
  have q: "code CHR 0x22 = 34" by (simp add: code_def)
  show ?case
  proof (cases ms)
    case Nil
    have "parse_value g (print_json v @ CHR ''}'' # rest) = Some (v, CHR ''}'' # rest)"
      using Cons.prems(1,3) by (intro readsD) (simp_all add: stops_Cons Nil g m print_member_def)
    then show ?thesis by (simp add: g m Nil print_member_def quote_def skip_stop q parse_escape)
  next
    case (Cons m2 ms2)
    let ?t = "join_strings (map print_member ms) '',''"
    have j: "join_strings (map print_member (m # ms)) '','' = quote k @ CHR '':'' # print_json v @ CHR '','' # ?t"
      by (simp add: Cons m print_member_def)
    from Cons.prems(3) have l: "2 * length (print_json v) \<le> g" "2 * length ?t < g" unfolding j g by simp_all
    have "parse_value g (print_json v @ CHR '','' # ?t @ CHR ''}'' # rest) = Some (v, CHR '','' # ?t @ CHR ''}'' # rest)"
      using Cons.prems(1) l(1) by (intro readsD) (simp_all add: stops_Cons m)
    moreover have "parse_members g (?t @ CHR ''}'' # rest) = Some (ms, rest)"
      using Cons.prems(1) l(2) by (intro Cons.IH) (simp_all add: Cons)
    ultimately show ?thesis unfolding g j by (simp add: m quote_def skip_stop q parse_escape)
  qed
qed simp

lemma readsI:
  assumes "print_json j \<noteq> []" and "\<And>g rest. stops rest \<Longrightarrow> parse_value (Suc g) (print_json j @ rest) = Some (j, rest)"
  shows "reads j"
  unfolding reads_def
proof (intro allI impI)
  fix fuel rest
  assume "stops rest" and "2 * length (print_json j) \<le> fuel"
  with assms show "parse_value fuel (print_json j @ rest) = Some (j, rest)" by (cases fuel) auto
qed

lemma reads_print: "plain_json j \<Longrightarrow> reads j"
proof (induction j)
  case (JNumber s)
  then obtain i where s: "s = fmt_d i" by auto
  show ?case
    unfolding reads_def
  proof (intro allI impI)
    fix fuel rest
    assume r: "stops rest" and f: "2 * length (print_json (JNumber s)) \<le> fuel"
    obtain c cs where d: "fmt_d i = c # cs" "c = CHR ''-'' \<or> json_digit c"
      using hd_digits [of "nat i"] by (cases "fmt_d i") (auto simp: fmt_d_def split: if_splits)
    then have c: "code c \<noteq> 34" "c \<noteq> CHR ''[''" "c \<noteq> CHR ''{''" by (auto simp: json_digit_def code_def)
    obtain g where g: "fuel = Suc g" using f d s by (cases fuel) auto
    have "skip_space (fmt_d i @ rest) = fmt_d i @ rest"
      using begins_skip [OF begins_print [of "JNumber s"]] JNumber by (simp add: s)
    with c d(1) parse_literal_fmt_d [OF r, of i] show "parse_value fuel (print_json (JNumber s) @ rest) = Some (JNumber s, rest)"
      by (simp add: g s)
  qed
next
  case (JString s)
  have "code CHR 0x22 = 34" by (simp add: code_def)
  then show ?case by (intro readsI) (simp_all add: quote_def skip_stop parse_escape)
next
  case (JArray vs)
  then have vs: "\<forall>v \<in> set vs. reads v" by simp
  have b: "code CHR ''['' \<noteq> 34" "skip_space (CHR ''['' # t) = CHR ''['' # t" for t
    by (simp_all add: code_def skip_space_def json_space_def)
  show ?case
    unfolding reads_def
  proof (intro allI impI)
    fix fuel rest
    assume f: "2 * length (print_json (JArray vs)) \<le> fuel"
    then obtain g where g: "fuel = Suc g" by (cases fuel) auto
    show "parse_value fuel (print_json (JArray vs) @ rest) = Some (JArray vs, rest)"
    proof (cases vs)
      case Nil
      then show ?thesis by (simp add: g b skip_stop)
    next
      case (Cons v vs2)
      let ?t = "join_strings (map print_json vs) '',''"
      have bt: "begins ?t"
        using begins_print [of v] JArray.prems Cons by (cases vs2) (auto simp: begins_def)
      from bt obtain c cs where c: "?t = c # cs" "c \<noteq> CHR '']''" by (cases ?t) (auto simp: begins_def)
      have "parse_elements g (?t @ CHR '']'' # rest) = Some (vs, rest)"
        using f by (intro parse_elements_print [OF vs]) (simp_all add: Cons g)
      with c begins_skip [OF bt, of "CHR '']'' # rest"] show ?thesis by (simp add: g b)
    qed
  qed
next
  case (JObject ms)
  then have ms: "\<forall>m \<in> set ms. reads (snd m)" by (metis plain_json.simps(3) snds.intros)
  have b: "code CHR ''{'' \<noteq> 34" "skip_space (CHR ''{'' # t) = CHR ''{'' # t" for t
    by (simp_all add: code_def skip_space_def json_space_def)
  have p: "print_json (JObject ms) = CHR ''{'' # join_strings (map print_member ms) '','' @ ''}''"
    by (simp add: print_member_def [abs_def])
  show ?case
    unfolding reads_def p
  proof (intro allI impI)
    fix fuel rest
    let ?t = "join_strings (map print_member ms) '',''"
    assume f: "2 * length (CHR ''{'' # ?t @ ''}'') \<le> fuel"
    then obtain g where g: "fuel = Suc g" by (cases fuel) auto
    show "parse_value fuel ((CHR ''{'' # ?t @ ''}'') @ rest) = Some (JObject ms, rest)"
    proof (cases ms)
      case Nil
      then show ?thesis by (simp add: g b skip_stop)
    next
      case (Cons m ms2)
      then obtain cs where c: "?t = CHR 0x22 # cs" by (cases m; cases ms2) (auto simp: print_member_def quote_def)
      have "parse_members g (?t @ CHR ''}'' # rest) = Some (ms, rest)"
        using f by (intro parse_members_print [OF ms]) (simp_all add: Cons g)
      with c show ?thesis by (simp add: g b skip_stop)
    qed
  qed
qed (rule readsI, auto simp: skip_space_def json_space_def code_def parse_literal_def)+

text \<open>Reading what was written.\<close>

lemma parse_print: "plain_json j \<Longrightarrow> parse_json (print_json j) = Some j"
  using readsD [OF reads_print, of j "[]" "2 * length (print_json j) + 1"]
  by (simp add: parse_json_def stops_def skip_space_def)

end
