(* ===== verification/Structs.thy ===== *)
theory Structs
  imports Json_Encode Mesos_Types
begin

text \<open>
  The structs the parts of the framework send each other as JSON, \<^verbatim>\<open>common/structs.go\<close>: what a task
  carries to its executor, what an executor stores about its node, what a node registers with the port
  mapper, and what a status update carries. Decoding fills a struct field by field: a member that is missing or null leaves
  its field at the zero value, one of another type does so too and is an error, text that is no JSON is an error.
  Marshalling these structs cannot fail, and the error the source returns with the bytes is left out.
\<close>

section \<open>Numbers\<close>

text \<open>
  \<^verbatim>\<open>strconv.Atoi\<close>, and with it the decoding of an \<^verbatim>\<open>int\<close>: an optional sign and decimal digits, within 64 bits.
\<close>

definition parse_digits :: "string \<Rightarrow> int option" where
  "parse_digits s = (if s \<noteq> [] \<and> list_all json_digit s then Some (int (undigits s)) else None)"

definition parse_int :: "string \<Rightarrow> int option" where
  "parse_int s =
     (case s of
        [] \<Rightarrow> None
      | c # cs \<Rightarrow>
          if c = CHR ''-'' then map_option uminus (parse_digits cs)
          else if c = CHR ''+'' then parse_digits cs
          else parse_digits s)"

definition Atoi :: "string \<Rightarrow> int64 option" where
  "Atoi s =
     (case parse_int s of
        None \<Rightarrow> None
      | Some i \<Rightarrow> if - (2 ^ 63) \<le> i \<and> i < 2 ^ 63 then Some (word_of_int i) else None)"

lemma parse_digits_digits: "parse_digits (digits n) = Some (int n)"
  by (simp add: parse_digits_def list_all_iff digits_json)

lemma parse_int_fmt_d: "parse_int (fmt_d i) = Some i"
proof (cases "i < 0")
  case True
  then show ?thesis by (simp add: parse_int_def fmt_d_def parse_digits_digits)
next
  case False
  obtain c cs where d: "digits (nat i) = c # cs" by (cases "digits (nat i)") auto
  have "c \<noteq> CHR ''-''" "c \<noteq> CHR ''+''" using hd_digits [OF d] by (auto simp: json_digit_def code_def)
  with d False parse_digits_digits [of "nat i"] show ?thesis by (simp add: parse_int_def fmt_d_def)
qed

lemma Atoi_fmt_d: "Atoi (fmt_d (sint w)) = Some (w :: int64)"
proof -
  have "- (2 ^ 63) \<le> sint w" "sint w < 2 ^ 63" using sint_ge [of w] sint_lt [of w] by simp_all
  then show ?thesis by (simp add: Atoi_def parse_int_fmt_d)
qed

section \<open>Fields\<close>

definition dec_string :: "json option \<Rightarrow> string option" where
  "dec_string v = (case v of None \<Rightarrow> Some [] | Some JNull \<Rightarrow> Some [] | Some (JString s) \<Rightarrow> Some s | _ \<Rightarrow> None)"

definition dec_int :: "json option \<Rightarrow> int64 option" where
  "dec_int v = (case v of None \<Rightarrow> Some 0 | Some JNull \<Rightarrow> Some 0 | Some (JNumber s) \<Rightarrow> Atoi s | _ \<Rightarrow> None)"

definition dec_bool :: "json option \<Rightarrow> bool option" where
  "dec_bool v = (case v of None \<Rightarrow> Some False | Some JNull \<Rightarrow> Some False | Some (JBool b) \<Rightarrow> Some b | _ \<Rightarrow> None)"

text \<open>An element of another type leaves the empty string in its place, and is an error.\<close>

definition dec_strings :: "json option \<Rightarrow> string list \<times> bool" where
  "dec_strings v =
     (case v of
        None \<Rightarrow> ([], True)
      | Some JNull \<Rightarrow> ([], True)
      | Some (JArray vs) \<Rightarrow>
          (map (\<lambda>e. case dec_string (Some e) of None \<Rightarrow> [] | Some s \<Rightarrow> s) vs, list_all (\<lambda>e. dec_string (Some e) \<noteq> None) vs)
      | _ \<Rightarrow> ([], False))"

definition or_zero :: "'a \<Rightarrow> 'a option \<Rightarrow> 'a" where
  "or_zero z v = (case v of None \<Rightarrow> z | Some x \<Rightarrow> x)"

definition struct_ok :: "json option \<Rightarrow> bool" where
  "struct_ok j = (case j of Some (JObject _) \<Rightarrow> True | Some JNull \<Rightarrow> True | _ \<Rightarrow> False)"

definition json_int :: "int64 \<Rightarrow> json" where
  "json_int w = JNumber (fmt_d (sint w))"

lemma dec_simps [simp]:
  "dec_string (Some (JString s)) = Some s" "dec_int (Some (json_int w)) = Some w" "dec_bool (Some (JBool b)) = Some b"
  "or_zero z (Some x) = x" "struct_ok (Some (JObject ms))" "plain_json (json_int w)"
  "dec_strings (Some (JArray (map JString ss))) = (ss, True)"
  by (auto simp: dec_string_def dec_int_def dec_bool_def or_zero_def struct_ok_def json_int_def Atoi_fmt_d dec_strings_def
      list_all_iff comp_def)

lemma member_JObject: "member name (Some (JObject ms)) = map_of (rev ms) name"
  by (simp add: member_def)

section \<open>The structs\<close>

definition TaskData_Serialize :: "TaskData \<Rightarrow> string" where
  "TaskData_Serialize t = print_json (JObject [
     (''FullyQualifiedNodeName'', JString (td_FullyQualifiedNodeName t)), (''Zookeepers'', JArray (map JString (td_Zookeepers t))),
     (''FrameworkName'', JString (td_FrameworkName t)), (''ClusterName'', JString (td_ClusterName t)), (''URI'', JString (td_URI t)),
     (''Host'', JString (td_Host t)), (''UseSuperChroot'', JBool (td_UseSuperChroot t)), (''HTTPPort'', json_int (td_HTTPPort t)),
     (''PBPort'', json_int (td_PBPort t)), (''HandoffPort'', json_int (td_HandoffPort t)), (''DisterlPort'', json_int (td_DisterlPort t))])"

text \<open>The struct, and whether there was an error.\<close>

definition DeserializeTaskData :: "string \<Rightarrow> TaskData \<times> bool" where
  "DeserializeTaskData data =
     (let j = parse_json data;
          str = (\<lambda>name. dec_string (member name j)); num = (\<lambda>name. dec_int (member name j));
          zks = dec_strings (member ''Zookeepers'' j); chroot = dec_bool (member ''UseSuperChroot'' j)
      in (\<lparr>td_FullyQualifiedNodeName = or_zero [] (str ''FullyQualifiedNodeName''), td_Zookeepers = fst zks,
           td_FrameworkName = or_zero [] (str ''FrameworkName''), td_ClusterName = or_zero [] (str ''ClusterName''),
           td_URI = or_zero [] (str ''URI''), td_Host = or_zero [] (str ''Host''), td_UseSuperChroot = or_zero False chroot,
           td_HTTPPort = or_zero 0 (num ''HTTPPort''), td_PBPort = or_zero 0 (num ''PBPort''),
           td_HandoffPort = or_zero 0 (num ''HandoffPort''), td_DisterlPort = or_zero 0 (num ''DisterlPort'')\<rparr>,
          \<not> (struct_ok j \<and> snd zks \<and> chroot \<noteq> None \<and>
             list_all (\<lambda>n. str n \<noteq> None) [''FullyQualifiedNodeName'', ''FrameworkName'', ''ClusterName'', ''URI'', ''Host''] \<and>
             list_all (\<lambda>n. num n \<noteq> None) [''HTTPPort'', ''PBPort'', ''HandoffPort'', ''DisterlPort''])))"

record CoordinatedData =
  cd_FrameworkName :: string
  cd_ClusterName :: string
  cd_NodeName :: string
  cd_DisterlPort :: int64
  cd_PBPort :: int64
  cd_HTTPPort :: int64
  cd_Hostname :: string

definition CoordinatedData_Serialize :: "CoordinatedData \<Rightarrow> string" where
  "CoordinatedData_Serialize t = print_json (JObject [
     (''FrameworkName'', JString (cd_FrameworkName t)), (''ClusterName'', JString (cd_ClusterName t)), (''NodeName'', JString (cd_NodeName t)),
     (''DisterlPort'', json_int (cd_DisterlPort t)), (''PBPort'', json_int (cd_PBPort t)), (''HTTPPort'', json_int (cd_HTTPPort t)),
     (''Hostname'', JString (cd_Hostname t))])"

definition DeserializeCoordinatedData :: "string \<Rightarrow> CoordinatedData \<times> bool" where
  "DeserializeCoordinatedData data =
     (let j = parse_json data; str = (\<lambda>name. dec_string (member name j)); num = (\<lambda>name. dec_int (member name j))
      in (\<lparr>cd_FrameworkName = or_zero [] (str ''FrameworkName''), cd_ClusterName = or_zero [] (str ''ClusterName''),
           cd_NodeName = or_zero [] (str ''NodeName''), cd_DisterlPort = or_zero 0 (num ''DisterlPort''),
           cd_PBPort = or_zero 0 (num ''PBPort''), cd_HTTPPort = or_zero 0 (num ''HTTPPort''), cd_Hostname = or_zero [] (str ''Hostname'')\<rparr>,
          \<not> (struct_ok j \<and> list_all (\<lambda>n. str n \<noteq> None) [''FrameworkName'', ''ClusterName'', ''NodeName'', ''Hostname''] \<and>
             list_all (\<lambda>n. num n \<noteq> None) [''DisterlPort'', ''PBPort'', ''HTTPPort''])))"

record DisterlData =
  dd_NodeName :: string
  dd_DisterlPort :: int64

definition DisterlData_Serialize :: "DisterlData \<Rightarrow> string" where
  "DisterlData_Serialize t =
     print_json (JObject [(''NodeName'', JString (dd_NodeName t)), (''DisterlPort'', json_int (dd_DisterlPort t))])"

definition DeserializeDisterlData :: "string \<Rightarrow> DisterlData \<times> bool" where
  "DeserializeDisterlData data =
     (let j = parse_json data; name = dec_string (member ''NodeName'' j); port = dec_int (member ''DisterlPort'' j)
      in (\<lparr>dd_NodeName = or_zero [] name, dd_DisterlPort = or_zero 0 port\<rparr>, \<not> (struct_ok j \<and> name \<noteq> None \<and> port \<noteq> None)))"

record TaskStatusData =
  tsd_RexPort :: int64

definition TaskStatusData_Serialize :: "TaskStatusData \<Rightarrow> string" where
  "TaskStatusData_Serialize t = print_json (JObject [(''RexPort'', json_int (tsd_RexPort t))])"

definition DeserializeTaskStatusData :: "string \<Rightarrow> TaskStatusData \<times> bool" where
  "DeserializeTaskStatusData data =
     (let j = parse_json data; port = dec_int (member ''RexPort'' j)
      in (\<lparr>tsd_RexPort = or_zero 0 port\<rparr>, \<not> (struct_ok j \<and> port \<noteq> None)))"

lemma TaskData_roundtrip: "DeserializeTaskData (TaskData_Serialize t) = (t, False)"
  by (simp add: DeserializeTaskData_def TaskData_Serialize_def parse_print member_JObject Let_def del: print_json.simps)

text \<open>The data a task carries, as the executor reads them.\<close>

definition task_data :: "TaskInfo \<Rightarrow> TaskData" where
  "task_data taskInfo = fst (DeserializeTaskData (ti_Data taskInfo))"

lemma task_data_serialized: "ti_Data t = TaskData_Serialize d \<Longrightarrow> task_data t = d"
  by (simp add: task_data_def TaskData_roundtrip)

lemma CoordinatedData_roundtrip: "DeserializeCoordinatedData (CoordinatedData_Serialize c) = (c, False)"
  by (simp add: DeserializeCoordinatedData_def CoordinatedData_Serialize_def parse_print member_JObject Let_def del: print_json.simps)

lemma DisterlData_roundtrip: "DeserializeDisterlData (DisterlData_Serialize d) = (d, False)"
  by (simp add: DeserializeDisterlData_def DisterlData_Serialize_def parse_print member_JObject Let_def del: print_json.simps)

lemma TaskStatusData_roundtrip: "DeserializeTaskStatusData (TaskStatusData_Serialize s) = (s, False)"
  by (simp add: DeserializeTaskStatusData_def TaskStatusData_Serialize_def parse_print member_JObject Let_def del: print_json.simps)


end
