(* ===== verification/Riak_Node.thy ===== *)
theory Riak_Node
  imports Offer_Helper Process_State Structs
begin

text \<open>
  One node of a cluster, \<^verbatim>\<open>scheduler/node.go\<close>, with the executor settings of
  \<^verbatim>\<open>scheduler/executor_golang.go\<close> and \<^verbatim>\<open>scheduler/executor_erlang.go\<close>: its record, its names, the
  two ways it takes part in an offer, and the predicates and setters of its state machine.
\<close>

section \<open>Configuration\<close>

text \<open>
  The fields of \<^verbatim>\<open>SchedulerCore\<close> that are set once at start-up and only read afterwards, with the
  URIs of its HTTP server, the environment variable \<^verbatim>\<open>USE_SUPER_CHROOT\<close> and the build tag
  \<^verbatim>\<open>erlang\<close>.
\<close>

record SchedulerConf =
  sc_frameworkName :: string
  sc_frameworkRole :: string
  sc_mesosAuthPrincipal :: string
  sc_zookeepers :: "string list"
  sc_nodeCpus :: string
  sc_nodeMem :: string
  sc_nodeDisk :: string
  sc_compatibilityMode :: bool
  sc_URI :: string
  sc_hostURI :: string
  sc_riakURI :: string
  sc_cepmdURI :: string
  env_USE_SUPER_CHROOT :: string
  tag_erlang :: bool

definition ExecutorValue :: "SchedulerConf \<Rightarrow> string" where
  "ExecutorValue sc = (if tag_erlang sc then ''./riak_mesos_executor/bin/ermf-executor''
     else ''./executor_linux_amd64'')"

definition ExecutorShell :: "SchedulerConf \<Rightarrow> bool" where
  "ExecutorShell sc = (if tag_erlang sc then True else False)"

definition ExecutorArgs :: "SchedulerConf \<Rightarrow> string \<Rightarrow> string list" where
  "ExecutorArgs sc currentID = (if tag_erlang sc then []
     else [ExecutorValue sc, ''-logtostderr=true'', ''-taskinfo'', currentID])"

text \<open>
  \<^verbatim>\<open>strconv.ParseFloat(s, 64)\<close> on decimal notation: an optional sign, digits with an optional
  point, and an optional exponent. Anything else is a syntax error; the texts for infinity and NaN,
  which have no value in \<open>float64\<close>, are counted among the errors.
\<close>

definition is_digit :: "char \<Rightarrow> bool" where
  "is_digit c \<longleftrightarrow> 48 \<le> (of_char c :: nat) \<and> (of_char c :: nat) < 58"

definition split_sign :: "string \<Rightarrow> bool \<times> string" where
  "split_sign s = (case s of [] \<Rightarrow> (False, [])
     | c # cs \<Rightarrow> if c = CHR ''-'' then (True, cs) else if c = CHR ''+'' then (False, cs) else (False, s))"

definition parse_exponent :: "string \<Rightarrow> int option" where
  "parse_exponent s = (case s of [] \<Rightarrow> Some 0
     | c # cs \<Rightarrow>
         if c = CHR ''e'' \<or> c = CHR ''E'' then
           (let (neg, ds) = split_sign cs
            in if ds \<noteq> [] \<and> list_all is_digit ds
               then Some (if neg then - int (undigits ds) else int (undigits ds)) else None)
         else None)"

definition ParseFloat :: "string \<Rightarrow> float64 option" where
  "ParseFloat s =
     (let (neg, s1) = split_sign s;
          whole = takeWhile is_digit s1; s2 = dropWhile is_digit s1;
          (frac, s3) = (case s2 of [] \<Rightarrow> ([], [])
            | c # cs \<Rightarrow> if c = CHR ''.'' then (takeWhile is_digit cs, dropWhile is_digit cs) else ([], s2))
      in if whole = [] \<and> frac = [] then None
         else case parse_exponent s3 of None \<Rightarrow> None
            | Some e \<Rightarrow>
                let v = of_nat (undigits (whole @ frac)) * 10 powi (e - int (length frac))
                in Some (fl (if neg then - v else v)))"

section \<open>The node\<close>

definition CPUS_PER_EXECUTOR :: float64 where
  "CPUS_PER_EXECUTOR = fl (1 / 10)"

definition MEM_PER_EXECUTOR :: float64 where
  "MEM_PER_EXECUTOR = 32"

definition PORTS_PER_TASK :: int where
  "PORTS_PER_TASK = 10"

definition CONTAINER_PATH :: string where
  "CONTAINER_PATH = ''root''"

text \<open>
  A \<^verbatim>\<open>time.Time\<close> is the number of nanoseconds since 1970; the zero value is the start of year 1.
\<close>

type_synonym time = int

definition zero_time :: time where
  "zero_time = - 62135596800 * 10 ^ 9"

record FrameworkRiakNode =
  frn_reconciled :: bool
  frn_lastAskedToReconcile :: time
  frn_SimpleId :: int
  frn_DestinationState :: ProcessState
  frn_CurrentState :: ProcessState
  frn_TaskStatus :: "TaskStatus option"
  frn_Generation :: int
  frn_SlaveID :: "string option"
  frn_Hostname :: string
  frn_TaskData :: TaskData
  frn_FrameworkName :: string
  frn_ClusterName :: string
  frn_Role :: "string option"
  frn_Principal :: "string option"
  frn_Cpus :: float64
  frn_Mem :: float64
  frn_Disk :: float64
  frn_Ports :: int
  frn_UUID :: string
  frn_ContainerPath :: string
  frn_RestartGeneration :: int64

text \<open>\<open>uuid\<close> is the identifier \<^verbatim>\<open>uuid.NewV4\<close> draws.\<close>

definition NewFrameworkRiakNode ::
  "SchedulerConf \<Rightarrow> string \<Rightarrow> string \<Rightarrow> int64 \<Rightarrow> int \<Rightarrow> FrameworkRiakNode result" where
  "NewFrameworkRiakNode sc uuid clusterName restartGeneration simpleId =
     (case ParseFloat (sc_nodeCpus sc) of None \<Rightarrow> Inl (LogPanic ''Unable to determine node_cpus'')
      | Some nodeCpusFloat \<Rightarrow>
     (case ParseFloat (sc_nodeMem sc) of None \<Rightarrow> Inl (LogPanic ''Unable to determine node_mem'')
      | Some nodeMemFloat \<Rightarrow>
     (case ParseFloat (sc_nodeDisk sc) of None \<Rightarrow> Inl (LogPanic ''Unable to determine node_disk'')
      | Some nodeDiskFloat \<Rightarrow>
     Inr \<lparr>frn_reconciled = False, frn_lastAskedToReconcile = zero_time,
          frn_SimpleId = simpleId, frn_DestinationState = Started, frn_CurrentState = Unknown,
          frn_TaskStatus = None, frn_Generation = 0, frn_SlaveID = None, frn_Hostname = [],
          frn_TaskData = zero_TaskData, frn_FrameworkName = sc_frameworkName sc,
          frn_ClusterName = clusterName, frn_Role = Some (sc_frameworkRole sc),
          frn_Principal = Some (sc_mesosAuthPrincipal sc), frn_Cpus = nodeCpusFloat,
          frn_Mem = nodeMemFloat, frn_Disk = nodeDiskFloat, frn_Ports = PORTS_PER_TASK,
          frn_UUID = uuid, frn_ContainerPath = CONTAINER_PATH,
          frn_RestartGeneration = restartGeneration\<rparr>)))"

section \<open>Values\<close>

definition CurrentID :: "FrameworkRiakNode \<Rightarrow> string" where
  "CurrentID frn =
     frn_FrameworkName frn @ ''-'' @ frn_ClusterName frn @ ''-'' @ fmt_d (frn_SimpleId frn)"

definition Node_Name :: "FrameworkRiakNode \<Rightarrow> string" where
  "Node_Name frn = frn_FrameworkName frn @ ''-'' @ frn_ClusterName frn"

definition ExecutorID :: "FrameworkRiakNode \<Rightarrow> string" where
  "ExecutorID frn = frn_FrameworkName frn @ ''-'' @ frn_ClusterName frn @ ''-'' @ frn_UUID frn @
     ''-'' @ fmt_d (frn_Generation frn)"

definition PersistenceID :: "FrameworkRiakNode \<Rightarrow> string" where
  "PersistenceID frn = frn_UUID frn"

definition CreateTaskID :: "FrameworkRiakNode \<Rightarrow> string" where
  "CreateTaskID frn = CurrentID frn"

definition CreateExecutorID :: "mesosutil \<Rightarrow> FrameworkRiakNode \<Rightarrow> string" where
  "CreateExecutorID U frn = NewExecutorID U (ExecutorID frn)"

text \<open>\<^verbatim>\<open>*p\<close> of a string pointer.\<close>

definition deref :: "'a option \<Rightarrow> 'a result" where
  "deref p = (case p of None \<Rightarrow> Inl NilDereference | Some s \<Rightarrow> Inr s)"

section \<open>Taking part in an offer\<close>

text \<open>
  Both operations return the node, the offer helper and the boolean of the source. \<open>rnd\<close> is the draw
  of the only take that asks for ports.
\<close>

definition ApplyUnreservedOffer ::
  "mesosutil \<Rightarrow> nat \<Rightarrow> FrameworkRiakNode \<Rightarrow> OfferHelper \<Rightarrow> (FrameworkRiakNode \<times> OfferHelper \<times> bool) result" where
  "ApplyUnreservedOffer U rnd frn h =
     (if \<not> CanFitUnreserved h (fadd (frn_Cpus frn) CPUS_PER_EXECUTOR)
           (fadd (frn_Mem frn) MEM_PER_EXECUTOR) (frn_Disk frn) (frn_Ports frn)
      then Inr (frn, h, False)
      else
        bind_result (ApplyUnreserved U rnd h CPUS_PER_EXECUTOR MEM_PER_EXECUTOR 0 (frn_Ports frn)) (\<lambda>(h1, _).
        bind_result (deref (frn_Principal frn)) (\<lambda>princ.
        bind_result (deref (frn_Role frn)) (\<lambda>role.
        bind_result (MakeReservation U 0 h1 (frn_Cpus frn) (frn_Mem frn) (frn_Disk frn) 0 princ role) (\<lambda>h2.
        bind_result (MakeVolume U h2 (frn_Disk frn) princ role (PersistenceID frn) (frn_ContainerPath frn)) (\<lambda>h3.
        Inr (frn\<lparr>frn_SlaveID := of_SlaveId (MesosOffer h3),
                 frn_Hostname := of_Hostname (MesosOffer h3),
                 frn_CurrentState := Reserved\<rparr>, h3, True)))))))"

text \<open>The asks of \<open>ApplyReservedOffer\<close>: \<open>None\<close> when the offer does not fit.\<close>

definition reserved_asks ::
  "mesosutil \<Rightarrow> nat \<Rightarrow> SchedulerConf \<Rightarrow> FrameworkRiakNode \<Rightarrow> OfferHelper
     \<Rightarrow> (OfferHelper \<times> Resource list \<times> Resource list) option result" where
  "reserved_asks U rnd sc frn h =
     (if sc_compatibilityMode sc then
        (if \<not> CanFitUnreserved h (fadd (frn_Cpus frn) CPUS_PER_EXECUTOR)
              (fadd (frn_Mem frn) MEM_PER_EXECUTOR) (frn_Disk frn) (frn_Ports frn)
         then Inr None
         else
           bind_result (ApplyUnreserved U rnd h (frn_Cpus frn) (frn_Mem frn) (frn_Disk frn) (frn_Ports frn))
             (\<lambda>(h1, taskAsk).
           bind_result (ApplyUnreserved U 0 h1 CPUS_PER_EXECUTOR MEM_PER_EXECUTOR 0 0) (\<lambda>(h2, execAsk).
           Inr (Some (h2, taskAsk, execAsk)))))
      else
        (if \<not> CanFitReserved h (frn_Cpus frn) (frn_Mem frn) (frn_Disk frn) 0 \<or>
            \<not> CanFitUnreserved h CPUS_PER_EXECUTOR MEM_PER_EXECUTOR 0 (frn_Ports frn)
         then Inr None
         else
           bind_result (deref (frn_Principal frn)) (\<lambda>princ.
           bind_result (deref (frn_Role frn)) (\<lambda>role.
           bind_result (ApplyReserved U 0 h (frn_Cpus frn) (frn_Mem frn) (frn_Disk frn) 0 princ role
               (PersistenceID frn) (frn_ContainerPath frn)) (\<lambda>(h1, reservedAsk).
           bind_result (ApplyUnreserved U rnd h1 0 0 0 (frn_Ports frn)) (\<lambda>(h2, portsAsk).
           bind_result (ApplyUnreserved U 0 h2 CPUS_PER_EXECUTOR MEM_PER_EXECUTOR 0 0) (\<lambda>(h3, execAsk).
           Inr (Some (h3, reservedAsk @ portsAsk, execAsk)))))))))"

definition node_TaskData :: "SchedulerConf \<Rightarrow> FrameworkRiakNode \<Rightarrow> int64 list \<Rightarrow> TaskData" where
  "node_TaskData sc frn ports =
     (let nodename0 = CurrentID frn @ ''@'' @ frn_Hostname frn;
          nodename = (if contains_char (frn_Hostname frn) CHR ''.'' then nodename0 else nodename0 @ ''.'')
      in \<lparr>td_FullyQualifiedNodeName = nodename, td_Zookeepers = sc_zookeepers sc,
          td_FrameworkName = sc_frameworkName sc, td_ClusterName = frn_ClusterName frn,
          td_URI = sc_URI sc, td_Host = frn_Hostname frn,
          td_UseSuperChroot = (env_USE_SUPER_CHROOT sc \<noteq> ''false''),
          td_HTTPPort = receive ports 0, td_PBPort = receive ports 1, td_HandoffPort = 0,
          td_DisterlPort = receive ports 2\<rparr>)"

definition node_TaskInfo ::
  "mesosutil \<Rightarrow> SchedulerConf \<Rightarrow> FrameworkRiakNode \<Rightarrow> Resource list \<Rightarrow> Resource list \<Rightarrow> TaskInfo" where
  "node_TaskInfo U sc frn taskAsk execAsk =
     \<lparr>ti_Name = Node_Name frn, ti_TaskId = CreateTaskID frn, ti_SlaveId = frn_SlaveID frn,
      ti_Executor =
        \<lparr>ei_ExecutorId = CreateExecutorID U frn, ei_Name = CurrentID frn @ '' Executor'',
         ei_Source = frn_FrameworkName frn,
         ei_Command =
           \<lparr>ci_Value = ExecutorValue sc,
            ci_Uris = [\<lparr>uri_Value = sc_hostURI sc, uri_Executable = False\<rparr>,
                       \<lparr>uri_Value = sc_riakURI sc, uri_Executable = False\<rparr>,
                       \<lparr>uri_Value = sc_cepmdURI sc, uri_Executable = True\<rparr>],
            ci_Shell = ExecutorShell sc, ci_Arguments = ExecutorArgs sc (CurrentID frn)\<rparr>,
         ei_Resources = execAsk\<rparr>,
      ti_Resources = taskAsk, ti_Data = TaskData_Serialize (frn_TaskData frn)\<rparr>"

definition ApplyReservedOffer ::
  "mesosutil \<Rightarrow> nat \<Rightarrow> SchedulerConf \<Rightarrow> FrameworkRiakNode \<Rightarrow> OfferHelper
     \<Rightarrow> (FrameworkRiakNode \<times> OfferHelper \<times> bool) result" where
  "ApplyReservedOffer U rnd sc frn h =
     bind_result (reserved_asks U rnd sc frn h) (\<lambda>asks. case asks of
       None \<Rightarrow> Inr (frn, h, False)
     | Some (h1, taskAsk, execAsk) \<Rightarrow>
         let frn1 = frn\<lparr>frn_SlaveID := of_SlaveId (MesosOffer h1),
                        frn_Hostname := of_Hostname (MesosOffer h1),
                        frn_Generation := frn_Generation frn + 1,
                        frn_TaskStatus := None,
                        frn_CurrentState := Starting\<rparr>
         in bind_result (PortIterator U taskAsk) (\<lambda>ports.
            let frn2 = frn1\<lparr>frn_TaskData := node_TaskData sc frn1 ports\<rparr>
            in Inr (frn2, h1\<lparr>TasksToLaunch := TasksToLaunch h1 @ [node_TaskInfo U sc frn2 taskAsk execAsk]\<rparr>,
                    True)))"

definition GetTaskStatus :: "FrameworkRiakNode \<Rightarrow> TaskStatus option" where
  "GetTaskStatus frn =
     (case frn_TaskStatus frn of
        Some s \<Rightarrow> Some \<lparr>ts_TaskId = ts_TaskId s, ts_State = ts_State s, ts_SlaveId = Some []\<rparr>
      | None \<Rightarrow>
          if frn_CurrentState frn \<le> Reserved then None
          else Some \<lparr>ts_TaskId = CurrentID frn, ts_State = TASK_ERROR, ts_SlaveId = Some []\<rparr>)"

section \<open>State\<close>

definition HasRequestedReservation :: "FrameworkRiakNode \<Rightarrow> bool" where
  "HasRequestedReservation frn \<longleftrightarrow> frn_CurrentState frn \<ge> Reserved"

definition NeedsToBeReconciled :: "FrameworkRiakNode \<Rightarrow> bool" where
  "NeedsToBeReconciled frn \<longleftrightarrow>
     \<not> frn_reconciled frn \<and> frn_CurrentState frn \<noteq> Unknown \<and> frn_CurrentState frn \<noteq> Reserved"

definition CanBeScheduled :: "FrameworkRiakNode \<Rightarrow> bool" where
  "CanBeScheduled frn =
     (if NeedsToBeReconciled frn then False
      else case frn_DestinationState frn of
        Restarting \<Rightarrow>
          (case frn_CurrentState frn of
             Started \<Rightarrow> False | Unknown \<Rightarrow> True | Reserved \<Rightarrow> True | Starting \<Rightarrow> False
           | Shutdown \<Rightarrow> True | Failed \<Rightarrow> True | _ \<Rightarrow> False)
      | Started \<Rightarrow>
          (case frn_CurrentState frn of
             Started \<Rightarrow> False | Unknown \<Rightarrow> True | Reserved \<Rightarrow> True | Starting \<Rightarrow> False
           | Shutdown \<Rightarrow> False | Failed \<Rightarrow> True | _ \<Rightarrow> False)
      | _ \<Rightarrow> False)"

definition CanBeKilled :: "FrameworkRiakNode \<Rightarrow> bool" where
  "CanBeKilled frn \<longleftrightarrow> frn_DestinationState frn = Shutdown \<and>
     (frn_CurrentState frn = Starting \<or> frn_CurrentState frn = Started)"

definition CanBeRemoved :: "FrameworkRiakNode \<Rightarrow> bool" where
  "CanBeRemoved frn \<longleftrightarrow> frn_DestinationState frn = Shutdown \<and> frn_CurrentState frn \<noteq> Started"

definition CanJoinCluster :: "FrameworkRiakNode \<Rightarrow> bool" where
  "CanJoinCluster frn \<longleftrightarrow> frn_CurrentState frn = Starting \<and> frn_DestinationState frn = Started"

definition CanBeJoined :: "FrameworkRiakNode \<Rightarrow> bool" where
  "CanBeJoined frn \<longleftrightarrow> frn_CurrentState frn = Started \<and> frn_DestinationState frn = Started"

definition CanBeLeft :: "FrameworkRiakNode \<Rightarrow> bool" where
  "CanBeLeft frn \<longleftrightarrow> CanBeJoined frn"

definition HasRestarted :: "FrameworkRiakNode \<Rightarrow> int64 \<Rightarrow> bool" where
  "HasRestarted frn generation \<longleftrightarrow> frn_DestinationState frn = Started \<and>
     frn_CurrentState frn = Started \<and> sint (frn_RestartGeneration frn) \<ge> sint generation"

definition IsRestarting :: "FrameworkRiakNode \<Rightarrow> int64 \<Rightarrow> bool" where
  "IsRestarting frn generation \<longleftrightarrow>
     (frn_DestinationState frn = Started \<or> frn_DestinationState frn = Restarting) \<and>
     frn_CurrentState frn \<noteq> Started \<and> sint (frn_RestartGeneration frn) \<ge> sint generation"

definition Restart :: "int64 \<Rightarrow> FrameworkRiakNode \<Rightarrow> FrameworkRiakNode" where
  "Restart generation frn =
     frn\<lparr>frn_RestartGeneration := generation, frn_DestinationState := Restarting\<rparr>"

definition Unreserve :: "FrameworkRiakNode \<Rightarrow> FrameworkRiakNode" where
  "Unreserve frn = frn\<lparr>frn_CurrentState := Unknown, frn_SlaveID := None\<rparr>"

definition KillNext :: "FrameworkRiakNode \<Rightarrow> FrameworkRiakNode" where
  "KillNext frn = frn\<lparr>frn_DestinationState := Shutdown\<rparr>"

definition Start :: "FrameworkRiakNode \<Rightarrow> FrameworkRiakNode" where
  "Start frn = frn\<lparr>frn_CurrentState := Starting, frn_DestinationState := Started\<rparr>"

definition Stage :: "FrameworkRiakNode \<Rightarrow> FrameworkRiakNode" where
  "Stage frn = Start frn"

definition Run :: "FrameworkRiakNode \<Rightarrow> FrameworkRiakNode" where
  "Run frn = frn\<lparr>frn_CurrentState := Started, frn_DestinationState := Started\<rparr>"

definition Finish :: "FrameworkRiakNode \<Rightarrow> FrameworkRiakNode" where
  "Finish frn = frn\<lparr>frn_CurrentState := Shutdown\<rparr>"

definition Kill :: "FrameworkRiakNode \<Rightarrow> FrameworkRiakNode" where
  "Kill frn = frn\<lparr>frn_CurrentState := Shutdown\<rparr>"

definition Error :: "FrameworkRiakNode \<Rightarrow> FrameworkRiakNode" where
  "Error frn = frn\<lparr>frn_CurrentState := Failed\<rparr>"

definition Fail :: "FrameworkRiakNode \<Rightarrow> FrameworkRiakNode" where
  "Fail frn = Error frn"

definition Lost :: "FrameworkRiakNode \<Rightarrow> FrameworkRiakNode" where
  "Lost frn = Error frn"

lemmas node_setter_defs = Restart_def Unreserve_def KillNext_def Start_def Stage_def Run_def
  Finish_def Kill_def Error_def Fail_def Lost_def

lemmas node_getter_defs = HasRequestedReservation_def NeedsToBeReconciled_def CanBeKilled_def
  CanBeRemoved_def CanJoinCluster_def CanBeJoined_def CanBeLeft_def HasRestarted_def IsRestarting_def

section \<open>Names\<close>

text \<open>
  A framework name and a cluster name may contain dashes, but the simple id cannot, so within one
  framework the id of a node determines its cluster and its number.
\<close>

lemma CurrentID_eq_iff:
  assumes "frn_FrameworkName a = frn_FrameworkName b" and "0 \<le> frn_SimpleId a" and "0 \<le> frn_SimpleId b"
  shows "CurrentID a = CurrentID b \<longleftrightarrow>
    frn_ClusterName a = frn_ClusterName b \<and> frn_SimpleId a = frn_SimpleId b"
proof -
  have "CurrentID n = Node_Name n @ CHR ''-'' # fmt_d (frn_SimpleId n)" for n
    by (simp add: CurrentID_def Node_Name_def)
  with assms show ?thesis
    by (simp add: append_sep_eq_iff fmt_d_no_dash Node_Name_def)
qed

lemma CurrentID_cong:
  "frn_FrameworkName a = frn_FrameworkName b \<Longrightarrow> frn_ClusterName a = frn_ClusterName b \<Longrightarrow>
    frn_SimpleId a = frn_SimpleId b \<Longrightarrow> CurrentID a = CurrentID b"
  by (simp add: CurrentID_def)

section \<open>The state machine of a node\<close>

lemma CanBeScheduled_iff:
  "CanBeScheduled frn \<longleftrightarrow>
     (frn_DestinationState frn = Started \<and>
        (frn_CurrentState frn = Unknown \<or> frn_CurrentState frn = Reserved \<or>
         frn_reconciled frn \<and> frn_CurrentState frn = Failed)) \<or>
     (frn_DestinationState frn = Restarting \<and>
        (frn_CurrentState frn = Unknown \<or> frn_CurrentState frn = Reserved \<or>
         frn_reconciled frn \<and> (frn_CurrentState frn = Failed \<or> frn_CurrentState frn = Shutdown)))"
  by (cases "frn_DestinationState frn"; cases "frn_CurrentState frn")
    (auto simp: CanBeScheduled_def NeedsToBeReconciled_def)

text \<open>Nodes that are to be shut down are never offered anything; running ones neither.\<close>

lemma CanBeScheduled_D:
  assumes "CanBeScheduled frn"
  shows "frn_DestinationState frn \<noteq> Shutdown" "frn_CurrentState frn \<noteq> Started"
    "frn_CurrentState frn \<noteq> Starting" "\<not> NeedsToBeReconciled frn"
  using assms by (auto simp: CanBeScheduled_iff NeedsToBeReconciled_def)

section \<open>Launching on an offer\<close>

text \<open>What a launch makes of the node when it was handed the port stream \<open>ports\<close>.\<close>

definition launched :: "SchedulerConf \<Rightarrow> OfferHelper \<Rightarrow> int64 list \<Rightarrow> FrameworkRiakNode \<Rightarrow> FrameworkRiakNode" where
  "launched sc h ports frn =
     (let frn1 = frn\<lparr>frn_SlaveID := of_SlaveId (MesosOffer h), frn_Hostname := of_Hostname (MesosOffer h),
                     frn_Generation := frn_Generation frn + 1, frn_TaskStatus := None,
                     frn_CurrentState := Starting\<rparr>
      in frn1\<lparr>frn_TaskData := node_TaskData sc frn1 ports\<rparr>)"

lemma launched_simps [simp]:
  "frn_CurrentState (launched sc h ports frn) = Starting"
  "frn_DestinationState (launched sc h ports frn) = frn_DestinationState frn"
  "frn_reconciled (launched sc h ports frn) = frn_reconciled frn"
  "frn_SimpleId (launched sc h ports frn) = frn_SimpleId frn"
  "frn_FrameworkName (launched sc h ports frn) = frn_FrameworkName frn"
  "frn_ClusterName (launched sc h ports frn) = frn_ClusterName frn"
  "frn_Role (launched sc h ports frn) = frn_Role frn"
  "frn_Principal (launched sc h ports frn) = frn_Principal frn"
  "frn_UUID (launched sc h ports frn) = frn_UUID frn"
  "frn_Ports (launched sc h ports frn) = frn_Ports frn"
  "CurrentID (launched sc h ports frn) = CurrentID frn"
  "frn_Generation (launched sc h ports frn) = frn_Generation frn + 1"
  "frn_TaskStatus (launched sc h ports frn) = None"
  "td_HTTPPort (frn_TaskData (launched sc h ports frn)) = receive ports 0"
  "td_PBPort (frn_TaskData (launched sc h ports frn)) = receive ports 1"
  "td_DisterlPort (frn_TaskData (launched sc h ports frn)) = receive ports 2"
  by (simp_all add: launched_def Let_def CurrentID_def node_TaskData_def)

definition good_ports :: "int64 list \<Rightarrow> bool" where
  "good_ports ps \<longleftrightarrow> distinct ps \<and> (\<forall>p \<in> set ps. valid_port p)"

lemma good_ports_split:
  assumes "good_ports ps" and "mset xs + mset ys = mset ps"
  shows "good_ports xs" "good_ports ys" "distinct (xs @ ys)" "set xs \<union> set ys = set ps"
proof -
  from assms(2) have m: "mset (xs @ ys) = mset ps" by simp
  then show s: "set xs \<union> set ys = set ps" by (metis mset_eq_setD set_append)
  from m assms(1) show "distinct (xs @ ys)"
    by (metis good_ports_def mset_eq_imp_distinct_iff)
  with s assms(1) show "good_ports xs" "good_ports ys" by (auto simp: good_ports_def)
qed

lemma ApplyUnreserved_ok:
  assumes "p \<le> int (length (rg_Ports (UnreservedResources h)))"
  obtains tk lp where "length tk = nat p" "mset tk + mset lp = mset (rg_Ports (UnreservedResources h))"
    and "ApplyUnreserved U rnd h c m d p = Inr (h\<lparr>UnreservedResources := drained (UnreservedResources h) c m d lp\<rparr>,
      scalar_ask U c m d [] [] [] [] @ (if 0 < p then [port_ask U tk [] []] else []))"
  using assms
  by (elim apply_resources_ok [of p "UnreservedResources h" U rnd c m d "[]" "[]" "[]" "[]"])
    (simp add: ApplyUnreserved_def)

lemma ApplyReserved_no_ports:
  "ApplyReserved U rnd h c m d 0 pr ro pid cp =
     Inr (h\<lparr>ReservedResources := drained (ReservedResources h) c m d (rg_Ports (ReservedResources h))\<rparr>,
          scalar_ask U c m d pr ro pid cp)"
  by (simp add: ApplyReserved_def apply_defs drained_def scalar_ask_def)

lemma ApplyUnreserved_no_ports:
  "ApplyUnreserved U rnd h c m d 0 =
     Inr (h\<lparr>UnreservedResources := drained (UnreservedResources h) c m d (rg_Ports (UnreservedResources h))\<rparr>,
          scalar_ask U c m d [] [] [] [])"
  by (simp add: ApplyUnreserved_def apply_defs drained_def scalar_ask_def)

context mesosutil_laws
begin

lemma PortIterator_taken:
  assumes "good_ports tk" and "length tk = nat p"
  shows "PortIterator U (scalar_ask U c m d pr ro pid cp @ (if 0 < p then [port_ask U tk pr' ro'] else [])) =
    Inr (sort_key sint tk)"
proof (cases "0 < p")
  case True
  have "PortIterator U (scalar_ask U 0 0 0 [] [] [] [] @ [port_ask U tk pr' ro']) = Inr (sort_key sint tk)"
    using assms(1) PortIterator_ask [of tk 0 0 0 "[]" "[]" "[]" "[]"]
    by (simp add: good_ports_def PortIterator_def RangesToArray_ArrayToRanges distinct_remdups_id scalar_ask_def apply_defs)
  then have "PortIterator U [port_ask U tk pr' ro'] = Inr (sort_key sint tk)"
    by (simp add: scalar_ask_def apply_defs)
  with True show ?thesis by (simp add: PortIterator_unreserved)
next
  case False
  with assms(2) have "tk = []" by simp
  with False PortIterator_unreserved [of "[]"] show ?thesis by (simp add: PortIterator_def)
qed

text \<open>
  The asks of a launch: they fail to fit, or they take the node's ports out of the unreserved pool
  and the stream the task reads its ports from carries exactly those.
\<close>

lemma reserved_asks_cases:
  assumes "good_ports (rg_Ports (UnreservedResources h))"
    and "frn_Role frn \<noteq> None" and "frn_Principal frn \<noteq> None"
  obtains (unfit) "reserved_asks U rnd sc frn h = Inr None"
  | (fit) g g' ta ea tk where
      "reserved_asks U rnd sc frn h = Inr (Some (h\<lparr>ReservedResources := g', UnreservedResources := g\<rparr>, ta, ea))"
      "mset tk + mset (rg_Ports g) = mset (rg_Ports (UnreservedResources h))"
      "length tk = nat (frn_Ports frn)" "PortIterator U ta = Inr (sort_key sint tk)"
      "frn_Ports frn \<le> int (length (rg_Ports (UnreservedResources h)))"
proof (cases "reserved_asks U rnd sc frn h = Inr None")
  case True
  then show thesis by (rule unfit)
next
  case False
  then have fits: "frn_Ports frn \<le> int (length (rg_Ports (UnreservedResources h)))"
    by (auto simp: reserved_asks_def CanFitUnreserved_def split: if_splits)
  show thesis
  proof (cases "sc_compatibilityMode sc")
    case True
    from fits obtain tk lp where t: "length tk = nat (frn_Ports frn)"
      "mset tk + mset lp = mset (rg_Ports (UnreservedResources h))"
      "ApplyUnreserved U rnd h (frn_Cpus frn) (frn_Mem frn) (frn_Disk frn) (frn_Ports frn) =
        Inr (h\<lparr>UnreservedResources := drained (UnreservedResources h) (frn_Cpus frn) (frn_Mem frn) (frn_Disk frn) lp\<rparr>,
          scalar_ask U (frn_Cpus frn) (frn_Mem frn) (frn_Disk frn) [] [] [] [] @
            (if 0 < frn_Ports frn then [port_ask U tk [] []] else []))"
      by (rule ApplyUnreserved_ok)
    from good_ports_split(1) [OF assms(1) t(2)] have tk: "good_ports tk" .
    show thesis
      using t False True
      by (intro fit [where g' = "ReservedResources h" and
            g = "drained (drained (UnreservedResources h) (frn_Cpus frn) (frn_Mem frn) (frn_Disk frn) lp)
               CPUS_PER_EXECUTOR MEM_PER_EXECUTOR 0 lp" and tk = tk, OF _ _ t(1) PortIterator_taken [OF tk t(1)] fits])
        (auto simp: reserved_asks_def ApplyUnreserved_no_ports split: if_splits)
  next
    case compat: False
    let ?h1 = "h\<lparr>ReservedResources := drained (ReservedResources h) (frn_Cpus frn) (frn_Mem frn) (frn_Disk frn)
      (rg_Ports (ReservedResources h))\<rparr>"
    from fits have "frn_Ports frn \<le> int (length (rg_Ports (UnreservedResources ?h1)))" by simp
    then obtain tk lp where t: "length tk = nat (frn_Ports frn)"
      "mset tk + mset lp = mset (rg_Ports (UnreservedResources h))"
      "ApplyUnreserved U rnd ?h1 0 0 0 (frn_Ports frn) =
        Inr (?h1\<lparr>UnreservedResources := drained (UnreservedResources h) 0 0 0 lp\<rparr>,
          scalar_ask U 0 0 0 [] [] [] [] @ (if 0 < frn_Ports frn then [port_ask U tk [] []] else []))"
      using ApplyUnreserved_ok [of "frn_Ports frn" ?h1 U rnd 0 0 0] by auto
    from good_ports_split(1) [OF assms(1) t(2)] have tk: "good_ports tk" .
    obtain pr ro where pr: "frn_Principal frn = Some pr" "frn_Role frn = Some ro" using assms by auto
    note it = PortIterator_unreserved [OF PortIterator_taken [OF tk t(1), of 0 0 0 "[]" "[]" "[]" "[]"]]
    show thesis
      using t False compat
      by (intro fit [where g' = "drained (ReservedResources h) (frn_Cpus frn) (frn_Mem frn) (frn_Disk frn)
              (rg_Ports (ReservedResources h))" and
            g = "drained (drained (UnreservedResources h) 0 0 0 lp) CPUS_PER_EXECUTOR MEM_PER_EXECUTOR 0 lp"
            and tk = tk, OF _ _ t(1) it fits])
        (auto simp: reserved_asks_def ApplyUnreserved_no_ports ApplyReserved_no_ports pr deref_def split: if_splits)
  qed
qed

lemma ApplyReservedOffer_cases:
  assumes "good_ports (rg_Ports (UnreservedResources h))"
    and "frn_Role frn \<noteq> None" and "frn_Principal frn \<noteq> None"
  obtains (unfit) "ApplyReservedOffer U rnd sc frn h = Inr (frn, h, False)"
  | (fit) g g' ta ea tk where
      "ApplyReservedOffer U rnd sc frn h =
        Inr (launched sc h (sort_key sint tk) frn,
          h\<lparr>ReservedResources := g', UnreservedResources := g,
            TasksToLaunch := TasksToLaunch h @
              [node_TaskInfo U sc (launched sc h (sort_key sint tk) frn) ta ea]\<rparr>, True)"
      "mset tk + mset (rg_Ports g) = mset (rg_Ports (UnreservedResources h))"
      "length tk = nat (frn_Ports frn)" "PortIterator U ta = Inr (sort_key sint tk)"
proof (rule reserved_asks_cases [OF assms, of rnd sc])
  assume "reserved_asks U rnd sc frn h = Inr None"
  then show thesis by (intro unfit) (simp add: ApplyReservedOffer_def)
next
  fix g g' ta ea tk
  assume "reserved_asks U rnd sc frn h = Inr (Some (h\<lparr>ReservedResources := g', UnreservedResources := g\<rparr>, ta, ea))"
    "mset tk + mset (rg_Ports g) = mset (rg_Ports (UnreservedResources h))"
    "length tk = nat (frn_Ports frn)" "PortIterator U ta = Inr (sort_key sint tk)"
  then show thesis
    by (intro fit [where tk = tk and g' = g' and g = g and ta = ta and ea = ea]) (simp_all add: ApplyReservedOffer_def launched_def Let_def)
qed

lemma ApplyReservedOffer_unfit:
  assumes "good_ports (rg_Ports (UnreservedResources h))"
    and "frn_Role frn \<noteq> None" and "frn_Principal frn \<noteq> None"
    and "ApplyReservedOffer U rnd sc frn h = Inr (frn', h', False)"
  shows "frn' = frn" "h' = h"
  by (rule ApplyReservedOffer_cases [OF assms(1-3), of rnd sc]; use assms(4) in simp)+

end

lemma ApplyUnreservedOffer_cases:
  assumes "frn_Role frn \<noteq> None" and "frn_Principal frn \<noteq> None"
  obtains (unfit) "ApplyUnreservedOffer U rnd frn h = Inr (frn, h, False)"
  | (fit) g rs vs tk where
      "ApplyUnreservedOffer U rnd frn h =
        Inr (frn\<lparr>frn_SlaveID := of_SlaveId (MesosOffer h), frn_Hostname := of_Hostname (MesosOffer h),
                 frn_CurrentState := Reserved\<rparr>,
          h\<lparr>UnreservedResources := g, ResourcesToReserve := ResourcesToReserve h @ rs,
            VolumesToCreate := VolumesToCreate h @ vs\<rparr>, True)"
      "mset tk + mset (rg_Ports g) = mset (rg_Ports (UnreservedResources h))"
      "length tk = nat (frn_Ports frn)"
proof (cases "CanFitUnreserved h (fadd (frn_Cpus frn) CPUS_PER_EXECUTOR)
    (fadd (frn_Mem frn) MEM_PER_EXECUTOR) (frn_Disk frn) (frn_Ports frn)")
  case False
  then show thesis by (intro unfit) (simp add: ApplyUnreservedOffer_def)
next
  case True
  then have "frn_Ports frn \<le> int (length (rg_Ports (UnreservedResources h)))"
    by (simp add: CanFitUnreserved_def)
  then obtain tk lp where t: "length tk = nat (frn_Ports frn)"
    "mset tk + mset lp = mset (rg_Ports (UnreservedResources h))"
    "ApplyUnreserved U rnd h CPUS_PER_EXECUTOR MEM_PER_EXECUTOR 0 (frn_Ports frn) =
      Inr (h\<lparr>UnreservedResources := drained (UnreservedResources h) CPUS_PER_EXECUTOR MEM_PER_EXECUTOR 0 lp\<rparr>,
        scalar_ask U CPUS_PER_EXECUTOR MEM_PER_EXECUTOR 0 [] [] [] [] @
          (if 0 < frn_Ports frn then [port_ask U tk [] []] else []))"
    by (rule ApplyUnreserved_ok)
  obtain pr ro where pr: "frn_Principal frn = Some pr" "frn_Role frn = Some ro" using assms by auto
  let ?c = "frn_Cpus frn" and ?m = "frn_Mem frn" and ?d = "frn_Disk frn"
  let ?g = "drained (drained (UnreservedResources h) CPUS_PER_EXECUTOR MEM_PER_EXECUTOR 0 lp) ?c ?m ?d lp"
  let ?g' = "drained ?g 0 0 ?d lp"
  show thesis
    using t True
    by (intro fit [where tk = tk and g = "?g'\<lparr>rg_Disk := fadd (rg_Disk ?g') ?d\<rparr>" and
          rs = "scalar_ask U ?c ?m ?d pr ro [] []" and
          vs = "scalar_ask U 0 0 ?d pr ro (PersistenceID frn) (frn_ContainerPath frn)"])
      (simp_all add: ApplyUnreservedOffer_def MakeReservation_def MakeVolume_def pr deref_def
        apply_defs scalar_ask_def drained_def)
qed

section \<open>Port accounting\<close>

text \<open>
  The ports of a task and what an offer helper promises of them while an offer is being answered:
  no port is held twice, by two tasks or by a task and the pool, and every port comes from the pool
  the offer started with. A task's data name the first ports of its own stream.
\<close>

definition task_ports :: "mesosutil \<Rightarrow> TaskInfo \<Rightarrow> int64 list" where
  "task_ports U t = (case PortIterator U (ti_Resources t) of Inl _ \<Rightarrow> [] | Inr ps \<Rightarrow> ps)"

definition task_ports_ok :: "mesosutil \<Rightarrow> TaskInfo \<Rightarrow> bool" where
  "task_ports_ok U t \<longleftrightarrow>
     td_HTTPPort (task_data t) = receive (task_ports U t) 0 \<and>
     td_PBPort (task_data t) = receive (task_ports U t) 1 \<and>
     td_DisterlPort (task_data t) = receive (task_ports U t) 2"

definition ports_inv :: "mesosutil \<Rightarrow> int64 list \<Rightarrow> OfferHelper \<Rightarrow> bool" where
  "ports_inv U P h \<longleftrightarrow>
     good_ports (concat (map (task_ports U) (TasksToLaunch h)) @ rg_Ports (UnreservedResources h)) \<and>
     set (concat (map (task_ports U) (TasksToLaunch h)) @ rg_Ports (UnreservedResources h)) \<subseteq> set P \<and>
     list_all (task_ports_ok U) (TasksToLaunch h)"

lemma ports_inv_pool: "ports_inv U P h \<Longrightarrow> good_ports (rg_Ports (UnreservedResources h))"
  by (auto simp: ports_inv_def good_ports_def)

lemma good_ports_shift:
  assumes "good_ports (xs @ ps)" and "mset tk + mset lp = mset ps" and "mset tk' = mset tk"
  shows "good_ports ((xs @ tk') @ lp)" "set ((xs @ tk') @ lp) = set (xs @ ps)"
proof -
  from assms have m: "mset ((xs @ tk') @ lp) = mset (xs @ ps)" by (simp add: ac_simps)
  then show s: "set ((xs @ tk') @ lp) = set (xs @ ps)" by (rule mset_eq_setD)
  from m have "distinct ((xs @ tk') @ lp) = distinct (xs @ ps)" by (rule mset_eq_imp_distinct_iff)
  with s assms(1) show "good_ports ((xs @ tk') @ lp)" by (metis good_ports_def)
qed

lemma ports_inv_drop:
  assumes "ports_inv U P h" and "mset tk + mset (rg_Ports g) = mset (rg_Ports (UnreservedResources h))"
    and "TasksToLaunch h' = TasksToLaunch h" and "UnreservedResources h' = g"
  shows "ports_inv U P h'"
proof -
  let ?ts = "concat (map (task_ports U) (TasksToLaunch h))"
  from assms(1) have g: "good_ports (?ts @ rg_Ports (UnreservedResources h))"
    and s: "set (?ts @ rg_Ports (UnreservedResources h)) \<subseteq> set P"
    by (simp_all add: ports_inv_def)
  note sh = good_ports_shift [OF g assms(2) refl]
  from sh(1) have "good_ports (?ts @ rg_Ports g)" by (auto simp: good_ports_def)
  moreover from sh(2) s have "set (?ts @ rg_Ports g) \<subseteq> set P" by auto
  ultimately show ?thesis using assms(1,3,4) by (simp add: ports_inv_def)
qed

lemma mset_sort_key: "mset (sort_key f xs) = mset xs"
  by simp

context mesosutil_laws
begin

lemma ports_inv_launch:
  assumes "ports_inv U P h" and "mset tk + mset (rg_Ports g) = mset (rg_Ports (UnreservedResources h))"
    and "PortIterator U ta = Inr (sort_key sint tk)"
    and "TasksToLaunch h' = TasksToLaunch h @ [node_TaskInfo U sc (launched sc h (sort_key sint tk) frn) ta ea]"
    and "UnreservedResources h' = g"
  shows "ports_inv U P h'"
proof -
  let ?t = "node_TaskInfo U sc (launched sc h (sort_key sint tk) frn) ta ea"
  let ?ts = "concat (map (task_ports U) (TasksToLaunch h))"
  have t: "task_ports U ?t = sort_key sint tk"
    by (simp add: task_ports_def node_TaskInfo_def assms(3))
  have "task_ports_ok U ?t"
    unfolding task_ports_ok_def t by (simp add: node_TaskInfo_def task_data_def TaskData_roundtrip)
  moreover from assms(1) have g: "good_ports (?ts @ rg_Ports (UnreservedResources h))"
    and s: "set (?ts @ rg_Ports (UnreservedResources h)) \<subseteq> set P"
    and "list_all (task_ports_ok U) (TasksToLaunch h)"
    by (simp_all add: ports_inv_def)
  moreover note sh = good_ports_shift [OF g assms(2) mset_sort_key [of sint tk]]
  ultimately show ?thesis
    unfolding ports_inv_def assms(4,5) using sh by (simp add: t)
qed

lemma ApplyReservedOffer_inv:
  assumes "ports_inv U P h" and "frn_Role frn \<noteq> None" and "frn_Principal frn \<noteq> None"
  obtains frn' h' b where "ApplyReservedOffer U rnd sc frn h = Inr (frn', h', b)" "ports_inv U P h'"
    "MesosOffer h' = MesosOffer h" "PersistenceIDs h' = PersistenceIDs h"
    "ResourcesToReserve h' = ResourcesToReserve h" "VolumesToCreate h' = VolumesToCreate h"
    "ResourcesToUneserve h' = ResourcesToUneserve h" "VolumesToDestroy h' = VolumesToDestroy h"
    "frn' = (if b then launched sc h (task_ports U (last (TasksToLaunch h'))) frn else frn)"
    "TasksToLaunch h' = (if b then TasksToLaunch h @ [last (TasksToLaunch h')] else TasksToLaunch h)"
    "b \<longrightarrow> ti_TaskId (last (TasksToLaunch h')) = CurrentID frn \<and> ti_Data (last (TasksToLaunch h')) = TaskData_Serialize (frn_TaskData frn')"
proof (rule ApplyReservedOffer_cases [OF ports_inv_pool [OF assms(1)] assms(2,3), of rnd sc])
  assume "ApplyReservedOffer U rnd sc frn h = Inr (frn, h, False)"
  then show thesis using assms(1) by (intro that [of frn h False]) simp_all
next
  fix g g' ta ea tk
  let ?h' = "h\<lparr>ReservedResources := g', UnreservedResources := g,
      TasksToLaunch := TasksToLaunch h @ [node_TaskInfo U sc (launched sc h (sort_key sint tk) frn) ta ea]\<rparr>"
  assume r: "ApplyReservedOffer U rnd sc frn h = Inr (launched sc h (sort_key sint tk) frn, ?h', True)"
    and m: "mset tk + mset (rg_Ports g) = mset (rg_Ports (UnreservedResources h))"
    and p: "PortIterator U ta = Inr (sort_key sint tk)"
  have "ports_inv U P ?h'" by (rule ports_inv_launch [OF assms(1) m p]) simp_all
  with r show thesis
    by (intro that [of "launched sc h (sort_key sint tk) frn" ?h' True])
      (simp_all add: task_ports_def node_TaskInfo_def p CreateTaskID_def)
qed

end

lemma ApplyUnreservedOffer_inv:
  assumes "ports_inv U P h" and "frn_Role frn \<noteq> None" and "frn_Principal frn \<noteq> None"
  obtains frn' h' b where "ApplyUnreservedOffer U rnd frn h = Inr (frn', h', b)" "ports_inv U P h'"
    "MesosOffer h' = MesosOffer h" "PersistenceIDs h' = PersistenceIDs h"
    "TasksToLaunch h' = TasksToLaunch h"
    "ResourcesToUneserve h' = ResourcesToUneserve h" "VolumesToDestroy h' = VolumesToDestroy h"
    "frn' = (if b then frn\<lparr>frn_SlaveID := of_SlaveId (MesosOffer h),
       frn_Hostname := of_Hostname (MesosOffer h), frn_CurrentState := Reserved\<rparr> else frn)"
proof (rule ApplyUnreservedOffer_cases [OF assms(2,3), of U rnd h])
  assume "ApplyUnreservedOffer U rnd frn h = Inr (frn, h, False)"
  then show thesis using assms(1) by (intro that [of frn h False]) simp_all
next
  fix g rs vs tk
  let ?f' = "frn\<lparr>frn_SlaveID := of_SlaveId (MesosOffer h), frn_Hostname := of_Hostname (MesosOffer h),
       frn_CurrentState := Reserved\<rparr>"
  let ?h' = "h\<lparr>UnreservedResources := g, ResourcesToReserve := ResourcesToReserve h @ rs,
      VolumesToCreate := VolumesToCreate h @ vs\<rparr>"
  assume r: "ApplyUnreservedOffer U rnd frn h = Inr (?f', ?h', True)"
    and m: "mset tk + mset (rg_Ports g) = mset (rg_Ports (UnreservedResources h))"
  have "ports_inv U P ?h'" by (rule ports_inv_drop [OF assms(1) m]) simp_all
  with r show thesis by (intro that [of ?f' ?h' True]) simp_all
qed

lemma first_three:
  assumes "distinct ps" and "3 \<le> length ps"
  shows "distinct [receive ps 0, receive ps 1, receive ps 2]"
    and "set [receive ps 0, receive ps 1, receive ps 2] \<subseteq> set ps"
  using assms by (auto simp: receive_def nth_eq_iff_index_eq intro: nth_mem)

lemma launched_task:
  assumes "mesosutil_laws U" and "good_ports (rg_Ports (UnreservedResources h))"
    and "3 \<le> frn_Ports frn" and "frn_Role frn \<noteq> None" and "frn_Principal frn \<noteq> None"
    and "ApplyReservedOffer U rnd sc frn h = Inr (frn', h', True)"
  shows "\<exists>task ports. frn' = launched sc h ports frn \<and> TasksToLaunch h' = TasksToLaunch h @ [task] \<and> ti_TaskId task = CurrentID frn \<and>
    ti_Data task = TaskData_Serialize (frn_TaskData frn') \<and>
    (let d = task_data task; ps = [td_HTTPPort d, td_PBPort d, td_DisterlPort d]
     in distinct ps \<and>
        set ps \<subseteq> set (rg_Ports (UnreservedResources h)) - set (rg_Ports (UnreservedResources h')))"
proof (rule mesosutil_laws.ApplyReservedOffer_cases [OF assms(1,2,4,5), of rnd sc])
  assume "ApplyReservedOffer U rnd sc frn h = Inr (frn, h, False)"
  with assms(6) show ?thesis by simp
next
  fix g g' ta ea tk
  assume r: "ApplyReservedOffer U rnd sc frn h =
      Inr (launched sc h (sort_key sint tk) frn, h\<lparr>ReservedResources := g', UnreservedResources := g,
        TasksToLaunch := TasksToLaunch h @ [node_TaskInfo U sc (launched sc h (sort_key sint tk) frn) ta ea]\<rparr>, True)"
    and m: "mset tk + mset (rg_Ports g) = mset (rg_Ports (UnreservedResources h))"
    and l: "length tk = nat (frn_Ports frn)"
  let ?s = "sort_key sint tk"
  from assms(3) l have len: "3 \<le> length ?s" by simp
  from good_ports_split [OF assms(2) m] have d: "distinct ?s"
    and sub: "set ?s \<subseteq> set (rg_Ports (UnreservedResources h)) - set (rg_Ports g)"
    by (auto simp: good_ports_def)
  note three = first_three [OF d len]
  with r sub len assms(6) show ?thesis
    by (auto simp: node_TaskInfo_def CreateTaskID_def Let_def task_data_def TaskData_roundtrip simp del: set_sort)
qed

section \<open>Properties\<close>

text \<open>
  C20: A node launched on an offer gets three different ports for HTTP, protocol buffers and
  distributed Erlang. All three come from the unreserved ports of the offer and are gone from the
  pool afterwards, and the task that is launched carries them under the node's own id.
\<close>

theorem launched_node_ports:
  assumes "mesosutil_laws U" and "good_ports (rg_Ports (UnreservedResources h))"
    and "3 \<le> frn_Ports frn" and "frn_Role frn \<noteq> None" and "frn_Principal frn \<noteq> None"
    and "ApplyReservedOffer U rnd sc frn h = Inr (frn', h', True)"
  shows "\<exists>task. TasksToLaunch h' = TasksToLaunch h @ [task] \<and> ti_TaskId task = CurrentID frn \<and>
    ti_Data task = TaskData_Serialize (frn_TaskData frn') \<and>
    (let d = task_data task; ps = [td_HTTPPort d, td_PBPort d, td_DisterlPort d]
     in distinct ps \<and>
        set ps \<subseteq> set (rg_Ports (UnreservedResources h)) - set (rg_Ports (UnreservedResources h')))"
  using launched_task [OF assms] by blast

definition ex_node :: FrameworkRiakNode where
  "ex_node = \<lparr>frn_reconciled = True, frn_lastAskedToReconcile = zero_time, frn_SimpleId = 1,
     frn_DestinationState = Started, frn_CurrentState = Reserved, frn_TaskStatus = None,
     frn_Generation = 0, frn_SlaveID = Some ''S1'', frn_Hostname = ''host1.example'',
     frn_TaskData = zero_TaskData, frn_FrameworkName = ''riak'', frn_ClusterName = ''c1'',
     frn_Role = Some ''riak'', frn_Principal = Some ''p'', frn_Cpus = 1/2, frn_Mem = 1024,
     frn_Disk = 500, frn_Ports = 10, frn_UUID = ''u1'', frn_ContainerPath = ''root'',
     frn_RestartGeneration = 0\<rparr>"

definition ex_conf :: SchedulerConf where
  "ex_conf = \<lparr>sc_frameworkName = ''riak'', sc_frameworkRole = ''riak'', sc_mesosAuthPrincipal = ''p'',
     sc_zookeepers = [''zk1:2181''], sc_nodeCpus = ''0.5'', sc_nodeMem = ''1024'', sc_nodeDisk = ''500'',
     sc_compatibilityMode = True, sc_URI = ''http://s:80'',
     sc_hostURI = ''http://s:80/static/riak_mesos_executor.tar.gz'',
     sc_riakURI = ''http://s:80/static/riak-bin.tar.gz'', sc_cepmdURI = ''http://s:80/static/cepmd_linux_amd64'',
     env_USE_SUPER_CHROOT = [], tag_erlang = False\<rparr>"

lemma good_ports_ex_helper: "good_ports (rg_Ports (UnreservedResources ex_helper))"
  by (simp add: good_ports_def ex_helper_def valid_port_def)

text \<open>The example node fits the example offer: the sums of the fit check are small floats.\<close>

lemma ex_node_fits: "CanFitUnreserved ex_helper (fadd (frn_Cpus ex_node) CPUS_PER_EXECUTOR)
    (fadd (frn_Mem ex_node) MEM_PER_EXECUTOR) (frn_Disk ex_node) (frn_Ports ex_node)"
  by code_simp

lemma ex_node_launch:
  obtains frn' h' where "ApplyReservedOffer std_util 1 ex_conf ex_node ex_helper = Inr (frn', h', True)"
proof (rule std.ApplyReservedOffer_cases [OF good_ports_ex_helper, of ex_node 1 ex_conf])
  assume "ApplyReservedOffer std_util 1 ex_conf ex_node ex_helper = Inr (ex_node, ex_helper, False)"
  moreover have "reserved_asks std_util 1 ex_conf ex_node ex_helper \<noteq> Inr None"
    using ex_node_fits by (auto simp: reserved_asks_def ex_conf_def ApplyUnreserved_no_ports)
  ultimately show thesis
    by (auto simp: ApplyReservedOffer_def Let_def split: option.splits)
qed (auto simp: ex_node_def intro: that)

theorem launched_node_ports_witness:
  "mesosutil_laws std_util \<and> good_ports (rg_Ports (UnreservedResources ex_helper)) \<and> 3 \<le> frn_Ports ex_node \<and>
   frn_Role ex_node = Some ''riak'' \<and> frn_Principal ex_node = Some ''p'' \<and>
   (\<exists>frn' h' task. ApplyReservedOffer std_util 1 ex_conf ex_node ex_helper = Inr (frn', h', True) \<and>
      TasksToLaunch h' = [task] \<and> ti_TaskId task = ''riak-c1-1'' \<and> ti_Data task = TaskData_Serialize (frn_TaskData frn') \<and>
      distinct [td_HTTPPort (task_data task), td_PBPort (task_data task), td_DisterlPort (task_data task)])"
proof -
  have n: "3 \<le> frn_Ports ex_node" "frn_Role ex_node \<noteq> None" "frn_Principal ex_node \<noteq> None"
    by (simp_all add: ex_node_def)
  obtain frn' h' where l: "ApplyReservedOffer std_util 1 ex_conf ex_node ex_helper = Inr (frn', h', True)"
    by (rule ex_node_launch)
  from launched_node_ports [OF std.mesosutil_laws_axioms good_ports_ex_helper n l]
  obtain task where "TasksToLaunch h' = TasksToLaunch ex_helper @ [task]"
    and "ti_TaskId task = CurrentID ex_node" and d: "ti_Data task = TaskData_Serialize (frn_TaskData frn')"
    and "distinct [td_HTTPPort (task_data task), td_PBPort (task_data task), td_DisterlPort (task_data task)]"
    unfolding Let_def by blast
  moreover have "CurrentID ex_node = ''riak-c1-1''" by code_simp
  moreover have "TasksToLaunch ex_helper = []" by (simp add: ex_helper_def)
  moreover have "frn_Role ex_node = Some ''riak''" "frn_Principal ex_node = Some ''p''"
    by (simp_all add: ex_node_def)
  ultimately show ?thesis
    using std.mesosutil_laws_axioms good_ports_ex_helper n(1) l
    by (intro conjI exI) (assumption | simp)+
qed



end
