(* ===== verification/Explorer_Client.thy ===== *)
theory Explorer_Client
  imports Json
begin

text \<open>
  The client of Riak Explorer, \<^verbatim>\<open>riak_explorer/client.go\<close>: each command is a GET on a path of its
  own, and its reply is the struct that JSON decoding fills. What a request meets on the network is an
  argument, one outcome per URL.
\<close>

datatype http_outcome =
    BadURL string
  | TransportError string
  | ReadError string
  | Response int string

type_synonym transport = "string \<Rightarrow> http_outcome"

section \<open>Requests\<close>

definition admin_url :: "string \<Rightarrow> string \<Rightarrow> string" where
  "admin_url host path = ''http://'' @ host @ ''/admin/'' @ path"

text \<open>Body and error; an error is its text.\<close>

definition read_response :: "http_outcome \<Rightarrow> string \<times> string option" where
  "read_response resp =
     (case resp of
        BadURL e \<Rightarrow> ([], Some e)
      | TransportError e \<Rightarrow> ([], Some e)
      | ReadError e \<Rightarrow> ([], Some e)
      | Response status body \<Rightarrow>
          if 200 \<le> status \<and> status < 300 then (body, None)
          else (body, Some (''Unknown HTTP Status: '' @ fmt_d status)))"

definition doGet :: "transport \<Rightarrow> string \<Rightarrow> string \<Rightarrow> string \<times> string option" where
  "doGet net host path = read_response (net (admin_url host path))"

text \<open>
  A PUT sends its data with it, so its outcome may depend on them. \<^verbatim>\<open>http.NewRequest\<close> returns nil
  for a URL it cannot parse, and the source sets a header of the request before it looks at the error.
\<close>

definition doPutWithData ::
  "(string \<Rightarrow> string \<Rightarrow> http_outcome) \<Rightarrow> string \<Rightarrow> string \<Rightarrow> string \<Rightarrow> (string \<times> string option) result" where
  "doPutWithData net host path data =
     (case net (admin_url host path) data of
        BadURL e \<Rightarrow> Inl NilDereference
      | resp \<Rightarrow> Inr (read_response resp))"

section \<open>Commands that pass the body on\<close>

definition GetAAEStatusJSON :: "transport \<Rightarrow> string \<Rightarrow> string \<Rightarrow> string \<times> string option" where
  "GetAAEStatusJSON net host node = doGet net host (''control/nodes/'' @ node @ ''/aae-status'')"

definition GetStatusJSON :: "transport \<Rightarrow> string \<Rightarrow> string \<Rightarrow> string \<times> string option" where
  "GetStatusJSON net host node = doGet net host (''control/nodes/'' @ node @ ''/status'')"

definition GetRingreadyJSON :: "transport \<Rightarrow> string \<Rightarrow> string \<Rightarrow> string \<times> string option" where
  "GetRingreadyJSON net host node = doGet net host (''control/nodes/'' @ node @ ''/ringready'')"

definition GetTransfersJSON :: "transport \<Rightarrow> string \<Rightarrow> string \<Rightarrow> string \<times> string option" where
  "GetTransfersJSON net host node = doGet net host (''control/nodes/'' @ node @ ''/transfers'')"

definition GetBucketTypesJSON :: "transport \<Rightarrow> string \<Rightarrow> string \<Rightarrow> string \<times> string option" where
  "GetBucketTypesJSON net host node = doGet net host (''explore/nodes/'' @ node @ ''/bucket_types'')"

definition CreateBucketTypeJSON ::
  "(string \<Rightarrow> string \<Rightarrow> http_outcome) \<Rightarrow> string \<Rightarrow> string \<Rightarrow> string \<Rightarrow> string
     \<Rightarrow> (string \<times> string option) result" where
  "CreateBucketTypeJSON net host node bucketType props =
     doPutWithData net host (''explore/nodes/'' @ node @ ''/bucket_types/'' @ bucketType) props"

section \<open>Commands with a decoded reply\<close>

record Links =
  lk_Self :: string
  lk_Related :: string

text \<open>
  The reply structs of the commands are alike: one nested struct with a success and an error text,
  named after the command, and the links.
\<close>

record CommandReply =
  cr_Success :: string
  cr_Error :: string
  cr_Links :: Links

definition zero_CommandReply :: CommandReply where
  "zero_CommandReply = \<lparr>cr_Success = [], cr_Error = [], cr_Links = \<lparr>lk_Self = [], lk_Related = []\<rparr>\<rparr>"

definition unmarshal_reply :: "string \<Rightarrow> string \<Rightarrow> CommandReply" where
  "unmarshal_reply tag v =
     (let j = parse_json v
      in \<lparr>cr_Success = string_field ''success'' (member tag j),
          cr_Error = string_field ''error'' (member tag j),
          cr_Links = \<lparr>lk_Self = string_field ''self'' (member ''links'' j),
                      lk_Related = string_field ''related'' (member ''links'' j)\<rparr>\<rparr>)"

definition command :: "transport \<Rightarrow> string \<Rightarrow> string \<Rightarrow> string \<Rightarrow> CommandReply \<times> string option" where
  "command net host tag commandURI =
     (let (v, err) = doGet net host commandURI
      in case err of Some e \<Rightarrow> (zero_CommandReply, Some e) | None \<Rightarrow> (unmarshal_reply tag v, None))"

definition Client_Join :: "transport \<Rightarrow> string \<Rightarrow> string \<Rightarrow> string \<Rightarrow> CommandReply \<times> string option" where
  "Client_Join net host fromNode toNode =
     command net host ''join'' (''control/nodes/'' @ fromNode @ ''/join/'' @ toNode)"

definition StagedJoin :: "transport \<Rightarrow> string \<Rightarrow> string \<Rightarrow> string \<Rightarrow> CommandReply \<times> string option" where
  "StagedJoin net host fromNode toNode =
     command net host ''staged-join'' (''control/nodes/'' @ fromNode @ ''/staged-join/'' @ toNode)"

definition Client_Leave :: "transport \<Rightarrow> string \<Rightarrow> string \<Rightarrow> string \<Rightarrow> CommandReply \<times> string option" where
  "Client_Leave net host stayingNode leavingNode =
     command net host ''leave'' (''control/nodes/'' @ stayingNode @ ''/leave/'' @ leavingNode)"

definition StagedLeave :: "transport \<Rightarrow> string \<Rightarrow> string \<Rightarrow> CommandReply \<times> string option" where
  "StagedLeave net host node =
     command net host ''staged-leave'' (''control/nodes/'' @ node @ ''/staged-leave'')"

definition StagedLeaveTarget :: "transport \<Rightarrow> string \<Rightarrow> string \<Rightarrow> string \<Rightarrow> CommandReply \<times> string option" where
  "StagedLeaveTarget net host stayingNode leavingNode =
     command net host ''staged-leave'' (''control/nodes/'' @ stayingNode @ ''/staged-leave/'' @ leavingNode)"

definition ForceRemove :: "transport \<Rightarrow> string \<Rightarrow> string \<Rightarrow> string \<Rightarrow> CommandReply \<times> string option" where
  "ForceRemove net host stayingNode leavingNode =
     command net host ''force-remove'' (''control/nodes/'' @ stayingNode @ ''/force-remove/'' @ leavingNode)"

definition Replace :: "transport \<Rightarrow> string \<Rightarrow> string \<Rightarrow> string \<Rightarrow> string \<Rightarrow> CommandReply \<times> string option" where
  "Replace net host fromNode oldNode newNode =
     command net host ''replace'' (''control/nodes/'' @ fromNode @ ''/replace/'' @ oldNode @ ''/'' @ newNode)"

definition StagedReplace :: "transport \<Rightarrow> string \<Rightarrow> string \<Rightarrow> string \<Rightarrow> string \<Rightarrow> CommandReply \<times> string option" where
  "StagedReplace net host fromNode oldNode newNode =
     command net host ''staged-replace''
       (''control/nodes/'' @ fromNode @ ''/staged-replace/'' @ oldNode @ ''/'' @ newNode)"

definition ForceReplace :: "transport \<Rightarrow> string \<Rightarrow> string \<Rightarrow> string \<Rightarrow> string \<Rightarrow> CommandReply \<times> string option" where
  "ForceReplace net host fromNode oldNode newNode =
     command net host ''force-replace''
       (''control/nodes/'' @ fromNode @ ''/force-replace/'' @ oldNode @ ''/'' @ newNode)"

definition Commit :: "transport \<Rightarrow> string \<Rightarrow> string \<Rightarrow> CommandReply \<times> string option" where
  "Commit net host node = command net host ''commit'' (''control/nodes/'' @ node @ ''/commit'')"

definition Clear :: "transport \<Rightarrow> string \<Rightarrow> string \<Rightarrow> CommandReply \<times> string option" where
  "Clear net host node = command net host ''clear'' (''control/nodes/'' @ node @ ''/clear'')"

section \<open>Correctness\<close>

text \<open>A reply is decoded only from a response with a success status; every other outcome is an
  error and the zero reply.\<close>

lemma command_ok_iff:
  "snd (command net host tag uri) = None \<longleftrightarrow>
     (\<exists>status body. net (admin_url host uri) = Response status body \<and> 200 \<le> status \<and> status < 300)"
  by (auto simp: command_def doGet_def read_response_def split: http_outcome.splits if_splits)

lemma command_error_zero:
  "snd (command net host tag uri) \<noteq> None \<Longrightarrow> fst (command net host tag uri) = zero_CommandReply"
  by (auto simp: command_def split: prod.splits option.splits)

end
