(* ===== verification/Riak_Cluster.thy ===== *)
theory Riak_Cluster
  imports Riak_Node Explorer_Client
begin

text \<open>
  A cluster and what it does to its nodes, \<^verbatim>\<open>scheduler/cluster.go\<close>. A loop over \<^verbatim>\<open>frc.Nodes\<close> takes the
  order \<open>ks\<close> in which it meets the keys. What differs from call to call is an argument indexed by where
  it is used: the random draw of a node (by its key), the clock (by key, for the two readings of one
  iteration) and the network (by the key of the node that is asked and the attempt).
\<close>

section \<open>State\<close>

type_synonym NodeMap = "(string, FrameworkRiakNode) fmap"

record FrameworkRiakCluster =
  frc_Name :: string
  frc_Nodes :: NodeMap
  frc_Graveyard :: NodeMap
  frc_RiakConfig :: string
  frc_AdvancedConfig :: string
  frc_IsKilled :: bool
  frc_IsRestarting :: bool
  frc_Generation :: int64

text \<open>\<open>asset\<close> is the embedded file table; a missing file reads as empty.\<close>

definition NewFrameworkRiakCluster :: "(string \<rightharpoonup> string) \<Rightarrow> string \<Rightarrow> FrameworkRiakCluster" where
  "NewFrameworkRiakCluster asset name =
     \<lparr>frc_Name = name, frc_Nodes = fmempty, frc_Graveyard = fmempty,
      frc_RiakConfig = GetValue (asset ''riak.conf''),
      frc_AdvancedConfig = GetValue (asset ''advanced.config''),
      frc_IsKilled = False, frc_IsRestarting = False, frc_Generation = 0\<rparr>"

section \<open>Resources\<close>

text \<open>
  One iteration of \<open>ApplyOffer\<close>: the node, the offer, whether the state got dirty and whether the
  cluster needs reconciliation.
\<close>

definition offer_node ::
  "mesosutil \<Rightarrow> nat \<Rightarrow> SchedulerConf \<Rightarrow> FrameworkRiakNode \<Rightarrow> OfferHelper
     \<Rightarrow> (FrameworkRiakNode \<times> OfferHelper \<times> bool \<times> bool) result" where
  "offer_node U rnd sc frn h =
     (if NeedsToBeReconciled frn then Inr (frn, h, False, True)
      else if CanBeScheduled frn \<and> sc_compatibilityMode sc then
        bind_result (ApplyReservedOffer U rnd sc frn h) (\<lambda>(frn', h', ok).
        Inr (frn', h', ok, False))
      else if CanBeScheduled frn \<and> HasRequestedReservation frn \<and> HasPersistenceId h (PersistenceID frn) then
        bind_result (ApplyReservedOffer U rnd sc frn h) (\<lambda>(frn', h', ok).
        Inr (frn', h', ok, \<not> ok))
      else if CanBeScheduled frn \<and> HasRequestedReservation frn \<and>
          (GetValue (frn_SlaveID frn) = GetValue (of_SlaveId (MesosOffer h)) \<or>
           frn_Hostname frn = of_Hostname (MesosOffer h)) then
        bind_result (ApplyReservedOffer U rnd sc frn h) (\<lambda>(frn', h', ok).
        Inr (if ok then frn' else Unreserve frn', h', True, False))
      else if CanBeScheduled frn \<and> \<not> HasRequestedReservation frn \<and> \<not> sc_compatibilityMode sc then
        bind_result (ApplyUnreservedOffer U rnd frn h) (\<lambda>(frn', h', ok).
        Inr (frn', h', ok, False))
      else Inr (frn, h, False, False))"

fun offer_loop ::
  "mesosutil \<Rightarrow> (string \<Rightarrow> nat) \<Rightarrow> SchedulerConf \<Rightarrow> string list \<Rightarrow> NodeMap \<Rightarrow> OfferHelper \<Rightarrow> bool \<Rightarrow> bool
     \<Rightarrow> (NodeMap \<times> OfferHelper \<times> bool \<times> bool) result" where
  "offer_loop U rnd sc [] nodes h stateDirty needs = Inr (nodes, h, stateDirty, needs)"
| "offer_loop U rnd sc (k # ks) nodes h stateDirty needs =
     (case fmlookup nodes k of
        None \<Rightarrow> offer_loop U rnd sc ks nodes h stateDirty needs
      | Some frn \<Rightarrow>
          bind_result (offer_node U (rnd k) sc frn h) (\<lambda>(frn', h', dirty, need).
          offer_loop U rnd sc ks (fmupd k frn' nodes) h' (stateDirty \<or> dirty) (needs \<or> need)))"

text \<open>
  \<open>ApplyOffer\<close> up to its last step: the cluster, the offer, the dirty flag on which the source then
  persists the whole scheduler state, and the result.
\<close>

definition Cluster_ApplyOffer ::
  "mesosutil \<Rightarrow> (string \<Rightarrow> nat) \<Rightarrow> SchedulerConf \<Rightarrow> string list \<Rightarrow> OfferHelper \<Rightarrow> FrameworkRiakCluster
     \<Rightarrow> (FrameworkRiakCluster \<times> OfferHelper \<times> bool \<times> bool) result" where
  "Cluster_ApplyOffer U rnd sc ks h frc =
     bind_result (offer_loop U rnd sc ks (frc_Nodes frc) h False False) (\<lambda>(nodes, h', dirty, needs).
     Inr (frc\<lparr>frc_Nodes := nodes\<rparr>, h', dirty, needs))"

section \<open>Cluster state\<close>

definition RollingRestart :: "FrameworkRiakCluster \<Rightarrow> FrameworkRiakCluster" where
  "RollingRestart frc =
     (if frc_IsRestarting frc then frc
      else frc\<lparr>frc_IsRestarting := True, frc_Generation := frc_Generation frc + 1\<rparr>)"

definition Cluster_KillNext :: "FrameworkRiakCluster \<Rightarrow> FrameworkRiakCluster" where
  "Cluster_KillNext frc = frc\<lparr>frc_IsKilled := True\<rparr>"

definition Cluster_CanBeRemoved :: "FrameworkRiakCluster \<Rightarrow> bool" where
  "Cluster_CanBeRemoved frc \<longleftrightarrow> frc_IsKilled frc \<and> len_map (frc_Nodes frc) = 0"

definition GetNodes :: "FrameworkRiakCluster \<Rightarrow> NodeMap" where
  "GetNodes frc = frc_Nodes frc"

definition GetNextSimpleId :: "FrameworkRiakCluster \<Rightarrow> int" where
  "GetNextSimpleId frc = int (len_map (frc_Nodes frc)) + int (len_map (frc_Graveyard frc)) + 1"

section \<open>Node operations\<close>

definition CreateNode ::
  "SchedulerConf \<Rightarrow> string \<Rightarrow> FrameworkRiakCluster \<Rightarrow> (FrameworkRiakCluster \<times> FrameworkRiakNode) result" where
  "CreateNode sc uuid frc =
     (let simpleId = GetNextSimpleId frc
      in bind_result (NewFrameworkRiakNode sc uuid (frc_Name frc) (frc_Generation frc) simpleId) (\<lambda>riakNode.
         Inr (frc\<lparr>frc_Nodes := fmupd (CurrentID riakNode) riakNode (frc_Nodes frc)\<rparr>, riakNode)))"

definition HasNode :: "FrameworkRiakCluster \<Rightarrow> string \<Rightarrow> bool" where
  "HasNode frc riakNodeID \<longleftrightarrow>
     fmlookup (frc_Nodes frc) riakNodeID \<noteq> None \<or> fmlookup (frc_Graveyard frc) riakNodeID \<noteq> None"

definition RemoveNode :: "FrameworkRiakNode \<Rightarrow> FrameworkRiakCluster \<Rightarrow> FrameworkRiakCluster" where
  "RemoveNode riakNode frc =
     frc\<lparr>frc_Graveyard := fmupd (CurrentID riakNode) riakNode (frc_Graveyard frc),
         frc_Nodes := fmdrop (CurrentID riakNode) (frc_Nodes frc)\<rparr>"

text \<open>The first loop of \<open>GetNodesToRestart\<close>: the node it picks, and its two counters.\<close>

fun restart_scan :: "int64 \<Rightarrow> NodeMap \<Rightarrow> string list \<Rightarrow> nat \<Rightarrow> string option \<times> nat \<times> nat" where
  "restart_scan gen nodes [] already = (None, 0, already)"
| "restart_scan gen nodes (k # ks) already =
     (case fmlookup nodes k of
        None \<Rightarrow> restart_scan gen nodes ks already
      | Some riakNode \<Rightarrow>
          if HasRestarted riakNode gen then restart_scan gen nodes ks (already + 1)
          else if IsRestarting riakNode gen then (None, 1, already)
          else (Some k, 0, already))"

text \<open>
  The nodes to restart (by id), whether the state was modified, and the cluster, whose node of that
  key the source has marked through its pointer.
\<close>

definition GetNodesToRestart ::
  "string list \<Rightarrow> FrameworkRiakCluster \<Rightarrow> FrameworkRiakCluster \<times> NodeMap \<times> bool" where
  "GetNodesToRestart ks frc =
     (if \<not> frc_IsRestarting frc then (frc, fmempty, False)
      else
        let (pick, currentlyRestarting, alreadyRestarted) =
              restart_scan (frc_Generation frc) (frc_Nodes frc) ks 0;
            (frc1, nodesToRestart, stateModified1) =
              (case pick of
                 Some k \<Rightarrow>
                   (case fmlookup (frc_Nodes frc) k of
                      Some riakNode \<Rightarrow>
                        (let n' = (if currentlyRestarting = 0 then Restart (frc_Generation frc) riakNode
                                   else riakNode)
                         in (frc\<lparr>frc_Nodes := fmupd k n' (frc_Nodes frc)\<rparr>,
                             fmupd (CurrentID riakNode) n' fmempty, currentlyRestarting = 0))
                    | None \<Rightarrow> (frc, fmempty, False))
               | None \<Rightarrow> (frc, fmempty, False))
        in if alreadyRestarted = len_map (frc_Nodes frc)
           then (frc1\<lparr>frc_IsRestarting := False\<rparr>, nodesToRestart, True)
           else (frc1, nodesToRestart, stateModified1))"

definition collect_nodes :: "(FrameworkRiakNode \<Rightarrow> bool) \<Rightarrow> NodeMap \<Rightarrow> string list \<Rightarrow> NodeMap" where
  "collect_nodes P nodes ks =
     foldl (\<lambda>m k. case fmlookup nodes k of
              Some riakNode \<Rightarrow> if P riakNode then fmupd (CurrentID riakNode) riakNode m else m
            | None \<Rightarrow> m) fmempty ks"

definition GetNodesToKillOrRemove :: "string list \<Rightarrow> FrameworkRiakCluster \<Rightarrow> NodeMap \<times> NodeMap" where
  "GetNodesToKillOrRemove ks frc =
     (collect_nodes CanBeKilled (frc_Nodes frc) ks, collect_nodes CanBeRemoved (frc_Nodes frc) ks)"

text \<open>
  \<^verbatim>\<open>time.Since(t).Seconds() > 5\<close>: a duration saturates at 64 bits, and exceeds five seconds just
  when its count of nanoseconds does.
\<close>

definition Since :: "time \<Rightarrow> time \<Rightarrow> int" where
  "Since now t = max (- (2 ^ 63)) (min (2 ^ 63 - 1) (now - t))"

definition reconcile_due :: "time \<Rightarrow> FrameworkRiakNode \<Rightarrow> bool" where
  "reconcile_due now riakNode \<longleftrightarrow>
     \<not> frn_reconciled riakNode \<and> 5 * 10 ^ 9 < Since now (frn_lastAskedToReconcile riakNode)"

fun reconcile_scan ::
  "(string \<Rightarrow> time \<times> time) \<Rightarrow> string list \<Rightarrow> NodeMap \<Rightarrow> NodeMap \<times> TaskStatus list" where
  "reconcile_scan clock [] nodes = (nodes, [])"
| "reconcile_scan clock (k # ks) nodes =
     (case fmlookup nodes k of
        None \<Rightarrow> reconcile_scan clock ks nodes
      | Some riakNode \<Rightarrow>
          (case GetTaskStatus riakNode of
             None \<Rightarrow> reconcile_scan clock ks nodes
           | Some st \<Rightarrow>
               if reconcile_due (fst (clock k)) riakNode
               then let (nodes', sts) = reconcile_scan clock ks
                          (fmupd k (riakNode\<lparr>frn_lastAskedToReconcile := snd (clock k)\<rparr>) nodes)
                    in (nodes', st # sts)
               else reconcile_scan clock ks nodes))"

definition GetNodeTasksToReconcile ::
  "(string \<Rightarrow> time \<times> time) \<Rightarrow> string list \<Rightarrow> FrameworkRiakCluster
     \<Rightarrow> FrameworkRiakCluster \<times> TaskStatus list" where
  "GetNodeTasksToReconcile clock ks frc =
     (let (nodes, tasksToReconcile) = reconcile_scan clock ks (frc_Nodes frc)
      in (frc\<lparr>frc_Nodes := nodes\<rparr>, tasksToReconcile))"

section \<open>Joining and leaving\<close>

definition rex_hostname :: "FrameworkRiakNode \<Rightarrow> string" where
  "rex_hostname frn = frn_Hostname frn @ '':'' @ fmt_d (sint (td_HTTPPort (frn_TaskData frn)))"

text \<open>Whether the call succeeded, and how many requests it sent; attempt \<open>retry\<close> meets \<open>net retry\<close>.\<close>

function doJoin ::
  "(int \<Rightarrow> transport) \<Rightarrow> FrameworkRiakNode \<Rightarrow> FrameworkRiakNode \<Rightarrow> int \<Rightarrow> int \<Rightarrow> bool \<times> nat" where
  "doJoin net oldNode newNode retry maxRetry =
     (if retry > maxRetry then (False, 0)
      else
        let (joinReply, joinErr) = Client_Join (net retry) (rex_hostname oldNode)
              (td_FullyQualifiedNodeName (frn_TaskData newNode))
              (td_FullyQualifiedNodeName (frn_TaskData oldNode))
        in if cr_Success joinReply = ''ok'' then (True, 1)
           else if cr_Error joinReply = ''not_single_node'' then (True, 1)
           else let (ok, n) = doJoin net oldNode newNode (retry + 1) maxRetry in (ok, n + 1))"
  by pat_completeness auto
termination
  by (relation "measure (\<lambda>(net, oldNode, newNode, retry, maxRetry). nat (maxRetry + 1 - retry))") auto

function doLeave ::
  "(int \<Rightarrow> transport) \<Rightarrow> FrameworkRiakNode \<Rightarrow> FrameworkRiakNode \<Rightarrow> int \<Rightarrow> int \<Rightarrow> bool \<times> nat" where
  "doLeave net stayingNode leavingNode retry maxRetry =
     (if retry > maxRetry then (False, 0)
      else
        let (leaveReply, leaveErr) = ForceRemove (net retry) (rex_hostname stayingNode)
              (td_FullyQualifiedNodeName (frn_TaskData stayingNode))
              (td_FullyQualifiedNodeName (frn_TaskData leavingNode))
        in if cr_Success leaveReply = ''ok'' then (True, 1)
           else if cr_Error leaveReply = ''not_member'' then (True, 1)
           else let (ok, n) = doLeave net stayingNode leavingNode (retry + 1) maxRetry in (ok, n + 1))"
  by pat_completeness auto
termination
  by (relation "measure (\<lambda>(net, stayingNode, leavingNode, retry, maxRetry). nat (maxRetry + 1 - retry))") auto

declare doJoin.simps [simp del] doLeave.simps [simp del]

text \<open>The loops over the other nodes, which stop at the first success.\<close>

fun join_loop ::
  "(string \<Rightarrow> int \<Rightarrow> transport) \<Rightarrow> NodeMap \<Rightarrow> FrameworkRiakNode \<Rightarrow> string list \<Rightarrow> bool \<times> nat" where
  "join_loop net nodes newNode [] = (False, 0)"
| "join_loop net nodes newNode (k # ks) =
     (case fmlookup nodes k of
        None \<Rightarrow> join_loop net nodes newNode ks
      | Some oldNode \<Rightarrow>
          if CanBeJoined oldNode
          then let (ok, n) = doJoin (net k) oldNode newNode 0 5
               in if ok then (True, n)
                  else let (ok', n') = join_loop net nodes newNode ks in (ok', n + n')
          else join_loop net nodes newNode ks)"

fun leave_loop ::
  "(string \<Rightarrow> int \<Rightarrow> transport) \<Rightarrow> NodeMap \<Rightarrow> string \<Rightarrow> FrameworkRiakNode \<Rightarrow> string list \<Rightarrow> bool \<times> nat" where
  "leave_loop net nodes leavingKey leavingNode [] = (False, 0)"
| "leave_loop net nodes leavingKey leavingNode (k # ks) =
     (case fmlookup nodes k of
        None \<Rightarrow> leave_loop net nodes leavingKey leavingNode ks
      | Some stayingNode \<Rightarrow>
          if CanBeLeft stayingNode \<and> k \<noteq> leavingKey
          then let (ok, n) = doLeave (net k) stayingNode leavingNode 0 5
               in if ok then (True, n)
                  else let (ok', n') = leave_loop net nodes leavingKey leavingNode ks in (ok', n + n')
          else leave_loop net nodes leavingKey leavingNode ks)"

text \<open>The node after \<open>Join\<close>, and the requests sent.\<close>

definition Join ::
  "(string \<Rightarrow> int \<Rightarrow> transport) \<Rightarrow> string list \<Rightarrow> NodeMap \<Rightarrow> FrameworkRiakNode \<Rightarrow> FrameworkRiakNode \<times> nat" where
  "Join net ks nodes newNode =
     (if \<not> CanJoinCluster newNode then (Run newNode, 0)
      else if len_map nodes = 1 then (Run newNode, 0)
      else let (joinSuccess, n) = join_loop net nodes newNode ks in (Run newNode, n))"

definition Leave ::
  "(string \<Rightarrow> int \<Rightarrow> transport) \<Rightarrow> string list \<Rightarrow> NodeMap \<Rightarrow> string \<Rightarrow> FrameworkRiakNode \<Rightarrow> nat" where
  "Leave net ks nodes leavingKey leavingNode =
     (if len_map nodes = 1 then 0
      else let (leaveSuccess, n) = leave_loop net nodes leavingKey leavingNode ks in n)"

text \<open>
  The update goes to the node under the task's id. \<^verbatim>\<open>riakNode\<close> is nil when there is none, which the
  first assignment to it turns into a panic. Returned with the cluster: the requests sent.
\<close>

definition HandleNodeStatusUpdate ::
  "(string \<Rightarrow> int \<Rightarrow> transport) \<Rightarrow> string list \<Rightarrow> TaskStatus \<Rightarrow> FrameworkRiakCluster
     \<Rightarrow> (FrameworkRiakCluster \<times> nat) result" where
  "HandleNodeStatusUpdate net ks status frc =
     (let key = ts_TaskId status
      in if fmlookup (frc_Graveyard frc) key \<noteq> None then Inr (frc, 0)
         else case fmlookup (frc_Nodes frc) key of
           None \<Rightarrow> Inl NilDereference
         | Some node0 \<Rightarrow>
             let riakNode = node0\<lparr>frn_reconciled := True, frn_TaskStatus := Some status,
                                  frn_SlaveID := ts_SlaveId status\<rparr>;
                 nodes = fmupd key riakNode (frc_Nodes frc);
                 (node', sent) =
                   (case ts_State status of
                      TASK_STAGING \<Rightarrow> (Stage riakNode, 0)
                    | TASK_STARTING \<Rightarrow> (Start riakNode, 0)
                    | TASK_RUNNING \<Rightarrow> Join net ks nodes riakNode
                    | TASK_FINISHED \<Rightarrow>
                        (let fin = Finish riakNode
                         in if \<not> IsRestarting fin (frc_Generation frc)
                            then (fin, Leave net ks (fmupd key fin nodes) key fin) else (fin, 0))
                    | TASK_FAILED \<Rightarrow> (Fail riakNode, 0)
                    | TASK_KILLED \<Rightarrow> (Kill riakNode, Leave net ks nodes key riakNode)
                    | TASK_LOST \<Rightarrow> (Lost riakNode, 0)
                    | TASK_ERROR \<Rightarrow> (Error riakNode, 0)
                    | TASK_OTHER _ \<Rightarrow> (riakNode, 0))
             in Inr (frc\<lparr>frc_Nodes := fmupd key node' (frc_Nodes frc)\<rparr>, sent))"

section \<open>Legal nodes\<close>

text \<open>
  The states a node can be in: the scheduler never enters \<open>ShuttingDown\<close>, and \<open>Restarting\<close> is only a
  destination.
\<close>

definition legal :: "FrameworkRiakNode \<Rightarrow> bool" where
  "legal n \<longleftrightarrow>
     frn_CurrentState n \<in> set [Unknown, Reserved, Starting, Started, Shutdown, Failed] \<and>
     frn_DestinationState n \<in> set [Started, Shutdown, Restarting]"

definition status_ok :: "FrameworkRiakNode \<Rightarrow> bool" where
  "status_ok n \<longleftrightarrow> (case frn_TaskStatus n of None \<Rightarrow> True | Some s \<Rightarrow> ts_TaskId s = CurrentID n)"

definition node_ok :: "string \<Rightarrow> string \<Rightarrow> int \<Rightarrow> FrameworkRiakNode \<Rightarrow> bool" where
  "node_ok fw cl bound n \<longleftrightarrow>
     frn_FrameworkName n = fw \<and> frn_ClusterName n = cl \<and> 1 \<le> frn_SimpleId n \<and> frn_SimpleId n \<le> bound \<and>
     frn_Role n \<noteq> None \<and> frn_Principal n \<noteq> None \<and> legal n \<and> status_ok n"

text \<open>
  What every operation on one node promises: it keeps the node's identity and its reservation
  credentials, it forgets a task status or leaves it, and it leads from legal states to legal ones.
\<close>

locale node_transition =
  fixes f :: "FrameworkRiakNode \<Rightarrow> FrameworkRiakNode"
  assumes keeps: "frn_FrameworkName (f n) = frn_FrameworkName n" "frn_ClusterName (f n) = frn_ClusterName n"
      "frn_SimpleId (f n) = frn_SimpleId n" "frn_Role (f n) = frn_Role n"
      "frn_Principal (f n) = frn_Principal n" "frn_UUID (f n) = frn_UUID n"
    and status: "frn_TaskStatus (f n) = frn_TaskStatus n \<or> frn_TaskStatus (f n) = None"
    and legal: "legal n \<Longrightarrow> legal (f n)"
begin

lemma same_id: "CurrentID (f n) = CurrentID n"
  by (simp add: CurrentID_def keeps)

lemma same_volume: "PersistenceID (f n) = PersistenceID n"
  by (simp add: PersistenceID_def keeps)

lemma keeps_ok: "node_ok fw cl b n \<Longrightarrow> node_ok fw cl b (f n)"
  using status [of n]
  by (auto simp: node_ok_def status_ok_def keeps same_id legal split: option.splits)

end

definition reserved_on :: "OfferHelper \<Rightarrow> FrameworkRiakNode \<Rightarrow> FrameworkRiakNode" where
  "reserved_on h frn = frn\<lparr>frn_SlaveID := of_SlaveId (MesosOffer h),
     frn_Hostname := of_Hostname (MesosOffer h), frn_CurrentState := Reserved\<rparr>"

lemmas transition_defs = legal_def node_setter_defs reserved_on_def

interpretation restart: node_transition "Restart g" for g
  by unfold_locales (auto simp: transition_defs)

interpretation unreserve: node_transition Unreserve
  by unfold_locales (auto simp: transition_defs)

interpretation kill_next: node_transition KillNext
  by unfold_locales (auto simp: transition_defs)

interpretation start: node_transition Start
  by unfold_locales (auto simp: transition_defs)

interpretation run: node_transition Run
  by unfold_locales (auto simp: transition_defs)

interpretation finish: node_transition Finish
  by unfold_locales (auto simp: transition_defs)

interpretation kill: node_transition Kill
  by unfold_locales (auto simp: transition_defs)

interpretation error: node_transition Error
  by unfold_locales (auto simp: transition_defs)

interpretation reserve: node_transition "reserved_on h" for h
  by unfold_locales (auto simp: transition_defs)

interpretation launch: node_transition "launched sc h ps" for sc h ps
  by unfold_locales (simp_all, simp add: legal_def)

interpretation asked: node_transition "frn_lastAskedToReconcile_update t" for t
  by unfold_locales (auto simp: legal_def)

lemmas transitions_keep_ok = restart.keeps_ok unreserve.keeps_ok kill_next.keeps_ok start.keeps_ok
  run.keeps_ok finish.keeps_ok kill.keeps_ok error.keeps_ok reserve.keeps_ok launch.keeps_ok asked.keeps_ok

lemmas transitions_same_id = restart.same_id unreserve.same_id kill_next.same_id start.same_id
  run.same_id finish.same_id kill.same_id error.same_id reserve.same_id launch.same_id asked.same_id

text \<open>A status update for the node's own task is no transition of this kind: it records the status.\<close>

definition with_status :: "TaskStatus \<Rightarrow> FrameworkRiakNode \<Rightarrow> FrameworkRiakNode" where
  "with_status s n = n\<lparr>frn_reconciled := True, frn_TaskStatus := Some s, frn_SlaveID := ts_SlaveId s\<rparr>"

lemma with_status_id [simp]: "CurrentID (with_status s n) = CurrentID n"
  by (simp add: with_status_def CurrentID_def)

lemma with_status_ok: "node_ok fw cl b n \<Longrightarrow> ts_TaskId s = CurrentID n \<Longrightarrow> node_ok fw cl b (with_status s n)"
  by (simp add: with_status_def node_ok_def status_ok_def legal_def CurrentID_def)

lemma node_ok_mono: "node_ok fw cl b n \<Longrightarrow> b \<le> b' \<Longrightarrow> node_ok fw cl b' n"
  by (auto simp: node_ok_def)

section \<open>The invariant of a cluster\<close>

definition nodes_ok :: "string \<Rightarrow> string \<Rightarrow> int \<Rightarrow> NodeMap \<Rightarrow> bool" where
  "nodes_ok fw cl b nodes \<longleftrightarrow> fmpred (\<lambda>k n. k = CurrentID n \<and> node_ok fw cl b n) nodes"

definition cluster_size :: "FrameworkRiakCluster \<Rightarrow> int" where
  "cluster_size frc = int (len_map (frc_Nodes frc)) + int (len_map (frc_Graveyard frc))"

text \<open>
  Every node, living or dead, sits under its own id, belongs to this cluster, and has a number between
  one and the number of nodes the cluster ever had; no id is living and dead at once.
\<close>

definition cluster_ok :: "string \<Rightarrow> FrameworkRiakCluster \<Rightarrow> bool" where
  "cluster_ok fw frc \<longleftrightarrow>
     nodes_ok fw (frc_Name frc) (cluster_size frc) (frc_Nodes frc) \<and>
     nodes_ok fw (frc_Name frc) (cluster_size frc) (frc_Graveyard frc) \<and>
     fmdom (frc_Nodes frc) |\<inter>| fmdom (frc_Graveyard frc) = {||}"

lemma nodes_okD:
  assumes "nodes_ok fw cl b nodes" and "fmlookup nodes k = Some n"
  shows "k = CurrentID n" "node_ok fw cl b n"
  using assms by (auto simp: nodes_ok_def fmpred_iff)

lemma nodes_ok_upd:
  "nodes_ok fw cl b nodes \<Longrightarrow> k = CurrentID n \<Longrightarrow> node_ok fw cl b n \<Longrightarrow> nodes_ok fw cl b (fmupd k n nodes)"
  by (auto simp: nodes_ok_def)

lemma nodes_ok_mono: "nodes_ok fw cl b nodes \<Longrightarrow> b \<le> b' \<Longrightarrow> nodes_ok fw cl b' nodes"
  by (auto simp: nodes_ok_def fmpred_iff intro: node_ok_mono)

lemma len_map_dom: "fmdom m = fmdom m' \<Longrightarrow> len_map m = len_map m'"
  by (simp add: len_map_def)

text \<open>Replacing living nodes by others under the same ids keeps the invariant.\<close>

lemma cluster_ok_nodes:
  assumes "cluster_ok fw frc" and "fmdom nodes = fmdom (frc_Nodes frc)"
    and "nodes_ok fw (frc_Name frc) (cluster_size frc) nodes"
  shows "cluster_ok fw (frc\<lparr>frc_Nodes := nodes\<rparr>)"
  using assms len_map_dom [OF assms(2)] by (simp add: cluster_ok_def cluster_size_def)

lemma cluster_ok_upd:
  assumes "cluster_ok fw frc" and "fmlookup (frc_Nodes frc) k = Some n" and "CurrentID n' = CurrentID n"
    and "\<And>cl b. node_ok fw cl b n \<Longrightarrow> node_ok fw cl b n'"
  shows "cluster_ok fw (frc\<lparr>frc_Nodes := fmupd k n' (frc_Nodes frc)\<rparr>)"
proof (rule cluster_ok_nodes [OF assms(1)])
  from assms(1) have ok: "nodes_ok fw (frc_Name frc) (cluster_size frc) (frc_Nodes frc)"
    by (simp add: cluster_ok_def)
  from nodes_okD [OF ok assms(2)] assms(3,4)
  show "nodes_ok fw (frc_Name frc) (cluster_size frc) (fmupd k n' (frc_Nodes frc))"
    by (intro nodes_ok_upd [OF ok]) auto
  show "fmdom (fmupd k n' (frc_Nodes frc)) = fmdom (frc_Nodes frc)"
    using assms(2) by (auto dest: fmdomI)
qed

lemma cluster_ok_flags:
  assumes "cluster_ok fw frc" and "frc_Name frc' = frc_Name frc" and "frc_Nodes frc' = frc_Nodes frc"
    and "frc_Graveyard frc' = frc_Graveyard frc"
  shows "cluster_ok fw frc'"
  using assms by (simp add: cluster_ok_def cluster_size_def)

lemma cluster_ok_new: "cluster_ok fw (NewFrameworkRiakCluster asset name)"
  by (simp add: cluster_ok_def NewFrameworkRiakCluster_def nodes_ok_def)

section \<open>Creating and removing nodes\<close>

lemma NewFrameworkRiakNode_fields:
  assumes "NewFrameworkRiakNode sc uuid cl g i = Inr n"
  shows "frn_FrameworkName n = sc_frameworkName sc" "frn_ClusterName n = cl" "frn_SimpleId n = i"
    "frn_CurrentState n = Unknown" "frn_DestinationState n = Started" "frn_TaskStatus n = None"
    "frn_RestartGeneration n = g" "frn_UUID n = uuid" "frn_Ports n = PORTS_PER_TASK"
    "frn_Role n = Some (sc_frameworkRole sc)" "frn_Principal n = Some (sc_mesosAuthPrincipal sc)"
  using assms by (auto simp: NewFrameworkRiakNode_def split: option.splits)

lemma CreateNode_cases:
  assumes "CreateNode sc uuid frc = Inr (frc', n)"
  shows "NewFrameworkRiakNode sc uuid (frc_Name frc) (frc_Generation frc) (GetNextSimpleId frc) = Inr n"
    and "frc' = frc\<lparr>frc_Nodes := fmupd (CurrentID n) n (frc_Nodes frc)\<rparr>"
  using assms by (auto simp: CreateNode_def Let_def)

lemma new_id_fresh:
  assumes "nodes_ok fw cl b nodes" and "frn_FrameworkName n = fw" and "b < frn_SimpleId n" and "0 \<le> b"
  shows "CurrentID n |\<notin>| fmdom nodes"
proof
  assume "CurrentID n |\<in>| fmdom nodes"
  then obtain m where m: "fmlookup nodes (CurrentID n) = Some m" by (auto simp: fmlookup_dom_iff)
  from nodes_okD [OF assms(1) this]
  have id: "CurrentID n = CurrentID m" and ok: "node_ok fw cl b m" by simp_all
  then have "frn_SimpleId n = frn_SimpleId m"
    using CurrentID_eq_iff [of n m] assms(2-4) by (auto simp: node_ok_def)
  with ok assms(3) show False by (auto simp: node_ok_def)
qed

lemma CreateNode_ok:
  assumes "cluster_ok (sc_frameworkName sc) frc" and "CreateNode sc uuid frc = Inr (frc', n)"
  shows "cluster_ok (sc_frameworkName sc) frc'"
    and "CurrentID n |\<notin>| fmdom (frc_Nodes frc)" and "CurrentID n |\<notin>| fmdom (frc_Graveyard frc)"
proof -
  note cr = CreateNode_cases [OF assms(2)] and fl = NewFrameworkRiakNode_fields [OF CreateNode_cases(1) [OF assms(2)]]
  have b: "GetNextSimpleId frc = cluster_size frc + 1" "0 \<le> cluster_size frc"
    by (simp_all add: GetNextSimpleId_def cluster_size_def)
  from assms(1) have ok: "nodes_ok (sc_frameworkName sc) (frc_Name frc) (cluster_size frc) (frc_Nodes frc)"
    "nodes_ok (sc_frameworkName sc) (frc_Name frc) (cluster_size frc) (frc_Graveyard frc)"
    "fmdom (frc_Nodes frc) |\<inter>| fmdom (frc_Graveyard frc) = {||}"
    by (simp_all add: cluster_ok_def)
  have fresh: "CurrentID n |\<notin>| fmdom (frc_Nodes frc)" "CurrentID n |\<notin>| fmdom (frc_Graveyard frc)"
    using new_id_fresh [OF ok(1), of n] new_id_fresh [OF ok(2), of n] fl(1,3) b by simp_all
  then show "CurrentID n |\<notin>| fmdom (frc_Nodes frc)" "CurrentID n |\<notin>| fmdom (frc_Graveyard frc)" .
  have size: "cluster_size frc' = cluster_size frc + 1"
    using fresh by (simp add: cr(2) cluster_size_def len_map_upd)
  have "node_ok (sc_frameworkName sc) (frc_Name frc) (cluster_size frc + 1) n"
    using fl b by (simp add: node_ok_def status_ok_def legal_def)
  with ok fresh show "cluster_ok (sc_frameworkName sc) frc'"
    unfolding cluster_ok_def size
    by (simp add: cr(2) nodes_ok_upd nodes_ok_mono [where b' = "cluster_size frc + 1"])
qed

lemma RemoveNode_ok:
  assumes "cluster_ok fw frc" and "fmlookup (frc_Nodes frc) k = Some n"
  shows "cluster_ok fw (RemoveNode n frc)" and "cluster_size (RemoveNode n frc) = cluster_size frc"
proof -
  from assms(1) have ok: "nodes_ok fw (frc_Name frc) (cluster_size frc) (frc_Nodes frc)"
    "nodes_ok fw (frc_Name frc) (cluster_size frc) (frc_Graveyard frc)"
    "fmdom (frc_Nodes frc) |\<inter>| fmdom (frc_Graveyard frc) = {||}"
    by (simp_all add: cluster_ok_def)
  note n = nodes_okD [OF ok(1) assms(2)]
  have d: "CurrentID n |\<in>| fmdom (frc_Nodes frc)" using assms(2) n by (auto intro: fmdomI)
  with ok(3) have d': "CurrentID n |\<notin>| fmdom (frc_Graveyard frc)" by blast
  show size: "cluster_size (RemoveNode n frc) = cluster_size frc"
    using len_map_move [OF d d', of n] by (simp add: cluster_size_def RemoveNode_def)
  have "nodes_ok fw (frc_Name frc) (cluster_size frc) (fmdrop (CurrentID n) (frc_Nodes frc))"
    using ok(1) by (auto simp: nodes_ok_def fmpred_drop)
  with ok n show "cluster_ok fw (RemoveNode n frc)"
    unfolding cluster_ok_def size by (auto simp: RemoveNode_def intro: nodes_ok_upd)
qed

section \<open>Nodes to kill, remove and restart\<close>

lemma collect_nodes_lookup:
  assumes "nodes_ok fw cl b nodes"
  shows "fmlookup (collect_nodes P nodes ks) k =
    (case fmlookup nodes k of Some n \<Rightarrow> if P n \<and> k \<in> set ks then Some n else None | None \<Rightarrow> None)"
  unfolding collect_nodes_def
proof (induction ks rule: rev_induct)
  case Nil
  then show ?case by (simp split: option.splits)
next
  case (snoc j ks)
  have "CurrentID n = j" if "fmlookup nodes j = Some n" for n
    using nodes_okD(1) [OF assms that] ..
  with snoc show ?case by (auto split: option.splits)
qed

lemma restart_scan_pick:
  "restart_scan gen nodes ks a = (Some k, c, al) \<Longrightarrow>
    c = 0 \<and> k \<in> set ks \<and> (\<exists>n. fmlookup nodes k = Some n \<and> \<not> HasRestarted n gen \<and> \<not> IsRestarting n gen)"
  by (induction gen nodes ks a rule: restart_scan.induct) (auto split: option.splits if_splits)

lemma restart_scan_count:
  assumes "\<forall>k \<in> set ks. fmlookup nodes k \<noteq> None"
  shows "snd (snd (restart_scan gen nodes ks a)) \<le> a + length ks \<and>
    (snd (snd (restart_scan gen nodes ks a)) = a + length ks \<longleftrightarrow>
      (\<forall>k \<in> set ks. \<forall>n. fmlookup nodes k = Some n \<longrightarrow> HasRestarted n gen))"
  using assms
proof (induction ks arbitrary: a)
  case (Cons k ks)
  then obtain n where n: "fmlookup nodes k = Some n" by auto
  show ?case
  proof (cases "HasRestarted n gen")
    case True
    with n Cons.IH [of "a + 1"] Cons.prems show ?thesis by auto
  next
    case False
    with n show ?thesis by auto
  qed
qed simp

lemma GetNodesToRestart_idle: "\<not> frc_IsRestarting frc \<Longrightarrow> GetNodesToRestart ks frc = (frc, fmempty, False)"
  by (simp add: GetNodesToRestart_def)

text \<open>
  What a pass of the rolling restart returns: nothing, or one node that has not restarted yet, marked
  as restarting; the flag of the cluster is cleared when no node is left.
\<close>

lemma GetNodesToRestart_cases:
  assumes "frc_IsRestarting frc" and "enumerates ks (frc_Nodes frc)"
  defines "all \<equiv> fmpred (\<lambda>k n. HasRestarted n (frc_Generation frc)) (frc_Nodes frc)"
  obtains (none) "GetNodesToRestart ks frc = (if all then frc\<lparr>frc_IsRestarting := False\<rparr> else frc, fmempty, all)"
  | (one) k n where "fmlookup (frc_Nodes frc) k = Some n" "\<not> all"
      "\<not> HasRestarted n (frc_Generation frc)" "\<not> IsRestarting n (frc_Generation frc)"
      "GetNodesToRestart ks frc =
        (frc\<lparr>frc_Nodes := fmupd k (Restart (frc_Generation frc) n) (frc_Nodes frc)\<rparr>,
         fmupd (CurrentID n) (Restart (frc_Generation frc) n) fmempty, True)"
proof -
  obtain pick c al where scan: "restart_scan (frc_Generation frc) (frc_Nodes frc) ks 0 = (pick, c, al)"
    by (cases "restart_scan (frc_Generation frc) (frc_Nodes frc) ks 0") auto
  have "\<forall>k \<in> set ks. fmlookup (frc_Nodes frc) k \<noteq> None"
    using enumerates_lookup [OF assms(2)] by auto
  from restart_scan_count [OF this, of "frc_Generation frc" 0]
  have all: "al = len_map (frc_Nodes frc) \<longleftrightarrow> all"
    using enumerates_lookup [OF assms(2)] unfolding all_def scan
    by (auto simp: fmpred_iff enumerates_length [OF assms(2)])
  show thesis
  proof (cases pick)
    case None
    then show thesis
      by (intro none) (use assms(1) all in \<open>simp add: GetNodesToRestart_def scan\<close>)
  next
    case (Some k)
    with restart_scan_pick [of "frc_Generation frc" "frc_Nodes frc" ks 0 k c al] scan
    obtain n where n: "c = 0" "fmlookup (frc_Nodes frc) k = Some n"
      "\<not> HasRestarted n (frc_Generation frc)" "\<not> IsRestarting n (frc_Generation frc)" by auto
    then have "\<not> all" by (auto simp: all_def fmpred_iff)
    with n Some assms(1) all show thesis
      by (intro one [of k n]) (simp_all add: GetNodesToRestart_def scan Let_def)
  qed
qed

lemma GetNodesToRestart_ok:
  assumes "cluster_ok fw frc" and "enumerates ks (frc_Nodes frc)"
    and "GetNodesToRestart ks frc = (frc', m, d)"
  shows "cluster_ok fw frc'" "frc_Name frc' = frc_Name frc" "fmdom (frc_Nodes frc') = fmdom (frc_Nodes frc)"
    "frc_Graveyard frc' = frc_Graveyard frc" "\<not> d \<longrightarrow> frc' = frc"
proof -
  have "cluster_ok fw frc' \<and> frc_Name frc' = frc_Name frc \<and> fmdom (frc_Nodes frc') = fmdom (frc_Nodes frc) \<and>
    frc_Graveyard frc' = frc_Graveyard frc \<and> (\<not> d \<longrightarrow> frc' = frc)"
  proof (cases "frc_IsRestarting frc")
    case False
    with assms show ?thesis by (simp add: GetNodesToRestart_idle)
  next
    case True
    from this assms(2) show ?thesis
    proof (cases rule: GetNodesToRestart_cases)
      case none
      with assms(1,3) show ?thesis by (auto intro: cluster_ok_flags split: if_splits)
    next
      case (one k n)
      from one(1) have "fmdom (fmupd k (Restart (frc_Generation frc) n) (frc_Nodes frc)) = fmdom (frc_Nodes frc)"
        by (auto dest: fmdomI)
      with one(1,5) assms(3) cluster_ok_upd [OF assms(1) one(1) restart.same_id restart.keeps_ok]
      show ?thesis by auto
    qed
  qed
  then show "cluster_ok fw frc'" "frc_Name frc' = frc_Name frc" "fmdom (frc_Nodes frc') = fmdom (frc_Nodes frc)"
    "frc_Graveyard frc' = frc_Graveyard frc" "\<not> d \<longrightarrow> frc' = frc" by blast+
qed

section \<open>Requests for joining and leaving\<close>

text \<open>
  Both calls are bounded retries whose state is the number of requests sent so far; \<open>accepted\<close> says
  whether an attempt ends the loop.
\<close>

definition join_accepted :: "(int \<Rightarrow> transport) \<Rightarrow> FrameworkRiakNode \<Rightarrow> FrameworkRiakNode \<Rightarrow> int \<Rightarrow> bool" where
  "join_accepted net oldNode newNode i =
     (let r = fst (Client_Join (net i) (rex_hostname oldNode)
            (td_FullyQualifiedNodeName (frn_TaskData newNode)) (td_FullyQualifiedNodeName (frn_TaskData oldNode)))
      in cr_Success r = ''ok'' \<or> cr_Error r = ''not_single_node'')"

definition leave_accepted :: "(int \<Rightarrow> transport) \<Rightarrow> FrameworkRiakNode \<Rightarrow> FrameworkRiakNode \<Rightarrow> int \<Rightarrow> bool" where
  "leave_accepted net stayingNode leavingNode i =
     (let r = fst (ForceRemove (net i) (rex_hostname stayingNode)
            (td_FullyQualifiedNodeName (frn_TaskData stayingNode)) (td_FullyQualifiedNodeName (frn_TaskData leavingNode)))
      in cr_Success r = ''ok'' \<or> cr_Error r = ''not_member'')"

definition ask_once :: "(int \<Rightarrow> bool) \<Rightarrow> int \<Rightarrow> nat \<Rightarrow> (bool \<times> nat) + nat" where
  "ask_once accepted i n = (if accepted i then Inl (True, n + 1) else Inr (n + 1))"

lemma fails_ask_once: "fails (ask_once acc) c k n m \<Longrightarrow> m = n + k \<and> (\<forall>i \<in> {c..<c + int k}. \<not> acc i)"
proof (induction rule: fails.induct)
  case (fails_Suc c s s' n t)
  then have "{c..<c + int (Suc n)} = insert c {c + 1..<c + 1 + int n}" by auto
  with fails_Suc show ?case by (auto simp: ask_once_def split: if_splits)
qed simp

text \<open>The interface of an asking loop: how often it asks, and when it succeeds.\<close>

locale asking = bounded_retry loop "ask_once accepted" "\<lambda>n. (False, n)"
  for loop :: "int \<Rightarrow> int \<Rightarrow> nat \<Rightarrow> bool \<times> nat" and accepted :: "int \<Rightarrow> bool"
begin

lemma asks_bounded: "c \<le> m + 1 \<Longrightarrow> snd (loop c m 0) \<le> nat (m + 1 - c)"
proof (cases rule: loop_cases [of m c 0])
  case (succeeded k t r)
  then have "loop c m 0 = (True, t + 1)" by (auto simp: ask_once_def split: if_splits)
  with fails_ask_once [OF succeeded(2)] succeeded(1) show ?thesis by simp
next
  case (gave_up t)
  with fails_ask_once [OF gave_up(1)] show ?thesis by simp
qed

lemma asks_succeed_iff: "c \<le> m + 1 \<Longrightarrow> fst (loop c m 0) \<longleftrightarrow> (\<exists>i \<in> {c..m}. accepted i)"
proof (cases rule: loop_cases [of m c 0])
  case (succeeded k t r)
  assume "c \<le> m + 1"
  from succeeded have "accepted (c + int k)" "c + int k \<in> {c..m}" "loop c m 0 = (True, t + 1)"
    by (auto simp: ask_once_def split: if_splits)
  then show ?thesis by auto
next
  case (gave_up t)
  assume c: "c \<le> m + 1"
  then have "{c..<c + int (nat (m + 1 - c))} = {c..m}" by auto
  with fails_ask_once [OF gave_up(1)] gave_up(2) show ?thesis by simp
qed

end

interpretation joining: asking
  "\<lambda>c m n. let (ok, k) = doJoin net oldNode newNode c m in (ok, n + k)" "join_accepted net oldNode newNode"
  for net oldNode newNode
  by unfold_locales
    (subst doJoin.simps, auto simp: ask_once_def join_accepted_def Let_def split: prod.splits)

interpretation leaving: asking
  "\<lambda>c m n. let (ok, k) = doLeave net stayingNode leavingNode c m in (ok, n + k)"
  "leave_accepted net stayingNode leavingNode"
  for net stayingNode leavingNode
  by unfold_locales
    (subst doLeave.simps, auto simp: ask_once_def leave_accepted_def Let_def split: prod.splits)

lemma doJoin_bounded: "snd (doJoin net oldNode newNode 0 5) \<le> 6"
  using joining.asks_bounded [of 0 5 net oldNode newNode] by (simp add: case_prod_unfold)

lemma doLeave_bounded: "snd (doLeave net stayingNode leavingNode 0 5) \<le> 6"
  using leaving.asks_bounded [of 0 5 net stayingNode leavingNode] by (simp add: case_prod_unfold)

lemma join_loop_bounded: "snd (join_loop net nodes newNode ks) \<le> 6 * length ks"
proof (induction ks)
  case (Cons k ks)
  show ?case
  proof (cases "fmlookup nodes k")
    case (Some n)
    with Cons doJoin_bounded [of "net k" n newNode] show ?thesis
      by (auto simp: case_prod_unfold Let_def)
  qed (use Cons in simp)
qed simp

lemma leave_loop_bounded: "snd (leave_loop net nodes key leavingNode ks) \<le> 6 * length ks"
proof (induction ks)
  case (Cons k ks)
  show ?case
  proof (cases "fmlookup nodes k")
    case (Some n)
    with Cons doLeave_bounded [of "net k" n leavingNode] show ?thesis
      by (auto simp: case_prod_unfold Let_def)
  qed (use Cons in simp)
qed simp

lemma Join_bounded: "snd (Join net ks nodes n) \<le> 6 * length ks"
  using join_loop_bounded [of net nodes n ks] by (simp add: Join_def case_prod_unfold Let_def)

lemma Join_node [simp]: "fst (Join net ks nodes n) = Run n"
  by (simp add: Join_def case_prod_unfold Let_def)

lemma Leave_bounded: "Leave net ks nodes key n \<le> 6 * length ks"
  using leave_loop_bounded [of net nodes key n ks] by (simp add: Leave_def case_prod_unfold Let_def)

section \<open>Status updates\<close>

text \<open>What a status makes of the node it is for, whatever the network does.\<close>

definition status_effect :: "TaskStatus \<Rightarrow> FrameworkRiakNode \<Rightarrow> FrameworkRiakNode" where
  "status_effect s n =
     (let n1 = with_status s n
      in case ts_State s of
           TASK_STAGING \<Rightarrow> Start n1 | TASK_STARTING \<Rightarrow> Start n1 | TASK_RUNNING \<Rightarrow> Run n1
         | TASK_FINISHED \<Rightarrow> Finish n1 | TASK_KILLED \<Rightarrow> Kill n1
         | TASK_FAILED \<Rightarrow> Error n1 | TASK_LOST \<Rightarrow> Error n1 | TASK_ERROR \<Rightarrow> Error n1
         | TASK_OTHER _ \<Rightarrow> n1)"

lemma status_effect_id [simp]: "CurrentID (status_effect s n) = CurrentID n"
  by (simp add: status_effect_def Let_def transitions_same_id split: TaskState.splits)

lemma status_effect_ok:
  "node_ok fw cl b n \<Longrightarrow> ts_TaskId s = CurrentID n \<Longrightarrow> node_ok fw cl b (status_effect s n)"
  by (simp add: status_effect_def Let_def transitions_keep_ok with_status_ok split: TaskState.splits)

lemma status_effect_simps [simp]:
  "frn_reconciled (status_effect s n)" "frn_TaskStatus (status_effect s n) = Some s"
  "frn_SlaveID (status_effect s n) = ts_SlaveId s"
  by (simp_all add: status_effect_def with_status_def Let_def node_setter_defs split: TaskState.splits)

lemma HandleNodeStatusUpdate_dead:
  "fmlookup (frc_Graveyard frc) (ts_TaskId s) \<noteq> None \<Longrightarrow> HandleNodeStatusUpdate net ks s frc = Inr (frc, 0)"
  by (simp add: HandleNodeStatusUpdate_def Let_def)

lemma HandleNodeStatusUpdate_alive:
  assumes "fmlookup (frc_Graveyard frc) (ts_TaskId s) = None"
    and "fmlookup (frc_Nodes frc) (ts_TaskId s) = Some n"
  obtains sent where "HandleNodeStatusUpdate net ks s frc =
      Inr (frc\<lparr>frc_Nodes := fmupd (ts_TaskId s) (status_effect s n) (frc_Nodes frc)\<rparr>, sent)"
    and "sent \<le> 6 * length ks"
proof (cases "ts_State s")
  case TASK_RUNNING
  let ?nodes = "fmupd (ts_TaskId s) (with_status s n) (frc_Nodes frc)"
  show thesis
    using assms TASK_RUNNING Join_bounded [of net ks ?nodes "with_status s n"]
    by (intro that [of "snd (Join net ks ?nodes (with_status s n))"])
      (simp_all add: HandleNodeStatusUpdate_def status_effect_def with_status_def [symmetric] Let_def case_prod_unfold)
next
  case TASK_FINISHED
  let ?fin = "Finish (with_status s n)"
  let ?sent = "if IsRestarting ?fin (frc_Generation frc) then 0
    else Leave net ks (fmupd (ts_TaskId s) ?fin (fmupd (ts_TaskId s) (with_status s n) (frc_Nodes frc)))
      (ts_TaskId s) ?fin"
  show thesis
    using assms TASK_FINISHED Leave_bounded
    by (intro that [of ?sent])
      (simp_all add: HandleNodeStatusUpdate_def status_effect_def with_status_def [symmetric] Let_def del: fmupd_idem)
next
  case TASK_KILLED
  show thesis
    using assms TASK_KILLED Leave_bounded
    by (intro that [of "Leave net ks (fmupd (ts_TaskId s) (with_status s n) (frc_Nodes frc)) (ts_TaskId s) (with_status s n)"])
      (simp_all add: HandleNodeStatusUpdate_def status_effect_def with_status_def [symmetric] Let_def)
qed (use assms in \<open>auto intro!: that [of 0]
      simp: HandleNodeStatusUpdate_def status_effect_def with_status_def [symmetric] Let_def
        Stage_def Fail_def Lost_def\<close>)

lemma HandleNodeStatusUpdate_ok:
  assumes "cluster_ok fw frc" and "HasNode frc (ts_TaskId s)"
  obtains frc' sent where "HandleNodeStatusUpdate net ks s frc = Inr (frc', sent)" "cluster_ok fw frc'"
    "frc_Name frc' = frc_Name frc" "fmdom (frc_Nodes frc') = fmdom (frc_Nodes frc)"
    "frc_Graveyard frc' = frc_Graveyard frc" "sent \<le> 6 * length ks"
proof (cases "fmlookup (frc_Graveyard frc) (ts_TaskId s)")
  case (Some n)
  with assms(1) show thesis by (intro that [of frc 0]) (simp_all add: HandleNodeStatusUpdate_dead)
next
  case None
  with assms(2) obtain n where n: "fmlookup (frc_Nodes frc) (ts_TaskId s) = Some n"
    by (auto simp: HasNode_def)
  from None n obtain sent where u: "HandleNodeStatusUpdate net ks s frc =
      Inr (frc\<lparr>frc_Nodes := fmupd (ts_TaskId s) (status_effect s n) (frc_Nodes frc)\<rparr>, sent)" "sent \<le> 6 * length ks"
    by (rule HandleNodeStatusUpdate_alive)
  from assms(1) n have "ts_TaskId s = CurrentID n" by (auto simp: cluster_ok_def dest: nodes_okD)
  with cluster_ok_upd [OF assms(1) n, of "status_effect s n"] status_effect_ok
  have ok: "cluster_ok fw (frc\<lparr>frc_Nodes := fmupd (ts_TaskId s) (status_effect s n) (frc_Nodes frc)\<rparr>)" by simp
  have "fmdom (fmupd (ts_TaskId s) (status_effect s n) (frc_Nodes frc)) = fmdom (frc_Nodes frc)"
    using n by (auto dest: fmdomI)
  with u ok show thesis by (intro that [OF u(1) ok]) simp_all
qed

section \<open>Offers\<close>

text \<open>What answering an offer leaves alone: the offer and what is given back to it.\<close>

definition offer_frame :: "OfferHelper \<Rightarrow> OfferHelper \<Rightarrow> bool" where
  "offer_frame h h' \<longleftrightarrow> MesosOffer h' = MesosOffer h \<and> PersistenceIDs h' = PersistenceIDs h \<and>
     ResourcesToUneserve h' = ResourcesToUneserve h \<and> VolumesToDestroy h' = VolumesToDestroy h"

lemma offer_frame_refl [simp]: "offer_frame h h"
  by (simp add: offer_frame_def)

lemma offer_frame_trans [trans]: "offer_frame h h' \<Longrightarrow> offer_frame h' h'' \<Longrightarrow> offer_frame h h''"
  by (simp add: offer_frame_def)

text \<open>
  The outcomes of offering to one node. Only a node that can be scheduled changes; the state is dirty
  exactly when it does.
\<close>

definition offered ::
  "mesosutil \<Rightarrow> int64 list \<Rightarrow> FrameworkRiakNode \<Rightarrow> OfferHelper \<Rightarrow> FrameworkRiakNode \<Rightarrow> OfferHelper \<Rightarrow> bool \<Rightarrow> bool \<Rightarrow> bool" where
  "offered U P n h n' h' dirty need \<longleftrightarrow>
     ports_inv U P h' \<and> offer_frame h h' \<and>
     CurrentID n' = CurrentID n \<and> (\<forall>fw cl b. node_ok fw cl b n \<longrightarrow> node_ok fw cl b n') \<and>
     (\<not> dirty \<longrightarrow> n' = n \<and> h' = h) \<and> (dirty \<longrightarrow> CanBeScheduled n) \<and>
     (NeedsToBeReconciled n \<longrightarrow> need) \<and>
     (TasksToLaunch h' = TasksToLaunch h \<or>
      (\<exists>t. TasksToLaunch h' = TasksToLaunch h @ [t] \<and> dirty \<and> ti_TaskId t = CurrentID n \<and>
         ti_Data t = TaskData_Serialize (frn_TaskData n') \<and> frn_CurrentState n' = Starting))"

lemma offered_idle:
  "ports_inv U P h \<Longrightarrow> (NeedsToBeReconciled n \<longrightarrow> need) \<Longrightarrow> offered U P n h n h False need"
  by (simp add: offered_def)

context mesosutil_laws
begin

lemma offered_launch:
  assumes "ports_inv U P h" and "frn_Role n \<noteq> None" and "frn_Principal n \<noteq> None" and "CanBeScheduled n"
  obtains n' h' ok where "ApplyReservedOffer U rnd sc n h = Inr (n', h', ok)"
    "offered U P n h n' h' ok (\<not> ok)" "offered U P n h n' h' ok False"
    "\<not> ok \<longrightarrow> n' = n \<and> h' = h"
proof (rule ApplyReservedOffer_inv [OF assms(1-3), of rnd sc])
  fix frn' h' b
  assume r: "ApplyReservedOffer U rnd sc n h = Inr (frn', h', b)" and i: "ports_inv U P h'"
    and f: "MesosOffer h' = MesosOffer h" "PersistenceIDs h' = PersistenceIDs h"
      "ResourcesToUneserve h' = ResourcesToUneserve h" "VolumesToDestroy h' = VolumesToDestroy h"
    and n: "frn' = (if b then launched sc h (task_ports U (last (TasksToLaunch h'))) n else n)"
    and t: "TasksToLaunch h' = (if b then TasksToLaunch h @ [last (TasksToLaunch h')] else TasksToLaunch h)"
    and d: "b \<longrightarrow> ti_TaskId (last (TasksToLaunch h')) = CurrentID n \<and> ti_Data (last (TasksToLaunch h')) = TaskData_Serialize (frn_TaskData frn')"
  have u: "\<not> b \<longrightarrow> frn' = n \<and> h' = h"
    using ApplyReservedOffer_unfit [OF ports_inv_pool [OF assms(1)] assms(2,3)] r by auto
  have nr: "\<not> NeedsToBeReconciled n" using assms(4) by (rule CanBeScheduled_D)
  have "offered U P n h frn' h' b need" for need
  proof (cases b)
    case True
    with i f n t d nr assms(4) show ?thesis
      by (auto simp: offered_def offer_frame_def launch.keeps_ok)
  next
    case False
    with u nr assms(1) show ?thesis by (simp add: offered_idle)
  qed
  with r u show thesis by (intro that)
qed

end

lemma offered_reserve:
  assumes "ports_inv U P h" and "frn_Role n \<noteq> None" and "frn_Principal n \<noteq> None" and "CanBeScheduled n"
  obtains n' h' ok where "ApplyUnreservedOffer U rnd n h = Inr (n', h', ok)" "offered U P n h n' h' ok False"
proof (rule ApplyUnreservedOffer_cases [OF assms(2,3), of U rnd h])
  assume "ApplyUnreservedOffer U rnd n h = Inr (n, h, False)"
  with assms(1,4) show thesis by (intro that) (auto intro: offered_idle dest: CanBeScheduled_D(4))
next
  fix g rs vs tk
  let ?h' = "h\<lparr>UnreservedResources := g, ResourcesToReserve := ResourcesToReserve h @ rs,
      VolumesToCreate := VolumesToCreate h @ vs\<rparr>"
  assume r: "ApplyUnreservedOffer U rnd n h =
      Inr (n\<lparr>frn_SlaveID := of_SlaveId (MesosOffer h), frn_Hostname := of_Hostname (MesosOffer h),
             frn_CurrentState := Reserved\<rparr>, ?h', True)"
    and m: "mset tk + mset (rg_Ports g) = mset (rg_Ports (UnreservedResources h))"
  have "ports_inv U P ?h'" by (rule ports_inv_drop [OF assms(1) m]) simp_all
  moreover have "\<not> NeedsToBeReconciled n" using assms(4) by (rule CanBeScheduled_D)
  ultimately have "offered U P n h (reserved_on h n) ?h' True False"
    using assms(4) reserve.keeps_ok by (auto simp: offered_def offer_frame_def reserve.same_id)
  with r show thesis by (intro that) (simp_all add: reserved_on_def)
qed

lemma offered_unreserve:
  assumes "ports_inv U P h" and "CanBeScheduled n"
  shows "offered U P n h (Unreserve n) h True False"
  using assms CanBeScheduled_D(4) [OF assms(2)] unreserve.keeps_ok
  by (auto simp: offered_def unreserve.same_id)

context mesosutil_laws
begin

lemma offer_node_offered:
  assumes "ports_inv U P h" and "frn_Role n \<noteq> None" and "frn_Principal n \<noteq> None"
  obtains n' h' dirty need where "offer_node U rnd sc n h = Inr (n', h', dirty, need)"
    "offered U P n h n' h' dirty need"
proof (cases "CanBeScheduled n")
  case False
  with assms(1) show thesis
    by (cases "NeedsToBeReconciled n")
      (auto simp: offer_node_def intro!: that [OF _ offered_idle [OF assms(1)]])
next
  case True
  obtain n1 h1 ok1 where l: "ApplyReservedOffer U rnd sc n h = Inr (n1, h1, ok1)"
    "offered U P n h n1 h1 ok1 (\<not> ok1)" "offered U P n h n1 h1 ok1 False" "\<not> ok1 \<longrightarrow> n1 = n \<and> h1 = h"
    using assms True by (rule offered_launch [of P h n rnd sc])
  obtain n2 h2 ok2 where r: "ApplyUnreservedOffer U rnd n h = Inr (n2, h2, ok2)" "offered U P n h n2 h2 ok2 False"
    using assms True by (rule offered_reserve [of U P h n rnd])
  have nr: "\<not> NeedsToBeReconciled n" using True by (rule CanBeScheduled_D)
  have un: "offered U P n h (if ok1 then n1 else Unreserve n1) h1 True False"
    using l(3,4) offered_unreserve [OF assms(1) True] by (cases ok1) auto
  note idle = offered_idle [OF assms(1), of n False]
  have "offer_node U rnd sc n h \<in> {Inr (n1, h1, ok1, False), Inr (n1, h1, ok1, \<not> ok1),
      Inr (if ok1 then n1 else Unreserve n1, h1, True, False), Inr (n2, h2, ok2, False), Inr (n, h, False, False)}"
    using True nr unfolding offer_node_def l(1) r(1) bind_result_simps prod.case by (simp only: if_True if_False simp_thms) auto
  then show thesis
    using nr that [OF _ l(2)] that [OF _ l(3)] that [OF _ r(2)] that [OF _ un] that [OF _ idle] by blast
qed

end

text \<open>
  A rule for the loop over the nodes of a cluster: \<open>I\<close> relates what was visited so far to the state of
  the loop.
\<close>

lemma offer_loop_rule:
  assumes "I vis nodes h dirty needs" and "distinct ks" and "set ks \<inter> vis = {}"
    and "\<And>vis k nodes h dirty needs n. I vis nodes h dirty needs \<Longrightarrow> k \<notin> vis \<Longrightarrow> fmlookup nodes k = Some n \<Longrightarrow>
      \<exists>n' h' d need. offer_node U (rnd k) sc n h = Inr (n', h', d, need) \<and>
        I (insert k vis) (fmupd k n' nodes) h' (dirty \<or> d) (needs \<or> need)"
    and "\<And>vis k nodes h dirty needs. I vis nodes h dirty needs \<Longrightarrow> fmlookup nodes k = None \<Longrightarrow>
      I (insert k vis) nodes h dirty needs"
  shows "\<exists>nodes' h' d need. offer_loop U rnd sc ks nodes h dirty needs = Inr (nodes', h', d, need) \<and>
    I (vis \<union> set ks) nodes' h' d need"
  using assms(1-3)
proof (induction ks arbitrary: vis nodes h dirty needs)
  case Nil
  then show ?case by simp
next
  case (Cons k ks)
  show ?case
  proof (cases "fmlookup nodes k")
    case None
    with Cons.IH [OF assms(5) [OF Cons.prems(1) None]] Cons.prems(2,3) show ?thesis by simp
  next
    case (Some n)
    with assms(4) [OF Cons.prems(1) _ Some] Cons.prems(3)
    obtain n' h' d need where o: "offer_node U (rnd k) sc n h = Inr (n', h', d, need)"
      "I (insert k vis) (fmupd k n' nodes) h' (dirty \<or> d) (needs \<or> need)" by auto
    from Cons.IH [OF o(2)] Cons.prems(2,3) Some o(1) show ?thesis by simp
  qed
qed

text \<open>
  What holds while an offer is offered to the nodes \<open>N0\<close> of a cluster, \<open>vis\<close> of which it has visited:
  nodes that cannot be scheduled stay as they are, nothing changes unless the state gets dirty, and a
  visited node that needs reconciliation makes the cluster need it.
\<close>

definition offering ::
  "mesosutil \<Rightarrow> int64 list \<Rightarrow> NodeMap \<Rightarrow> OfferHelper \<Rightarrow> string set \<Rightarrow> NodeMap \<Rightarrow> OfferHelper \<Rightarrow> bool \<Rightarrow> bool \<Rightarrow> bool" where
  "offering U P N0 h0 vis nodes h dirty needs \<longleftrightarrow>
     ports_inv U P h \<and> offer_frame h0 h \<and> fmdom nodes = fmdom N0 \<and>
     (\<forall>k. k \<notin> vis \<longrightarrow> fmlookup nodes k = fmlookup N0 k) \<and>
     (\<forall>k n. fmlookup N0 k = Some n \<longrightarrow> \<not> CanBeScheduled n \<longrightarrow> fmlookup nodes k = Some n) \<and>
     (\<not> dirty \<longrightarrow> nodes = N0 \<and> h = h0) \<and>
     (\<forall>k n. k \<in> vis \<longrightarrow> fmlookup N0 k = Some n \<longrightarrow> NeedsToBeReconciled n \<longrightarrow> needs)"

text \<open>
  The tasks added so far: one at most for a visited node, which could be scheduled before and is
  starting now with the data of the task.
\<close>

definition launching :: "NodeMap \<Rightarrow> OfferHelper \<Rightarrow> string set \<Rightarrow> NodeMap \<Rightarrow> OfferHelper \<Rightarrow> bool" where
  "launching N0 h0 vis nodes h \<longleftrightarrow>
     (\<exists>ts. TasksToLaunch h = TasksToLaunch h0 @ ts \<and> distinct (map ti_TaskId ts) \<and>
        (\<forall>t \<in> set ts. ti_TaskId t \<in> vis \<and>
           (\<exists>n n'. fmlookup N0 (ti_TaskId t) = Some n \<and> CanBeScheduled n \<and>
              fmlookup nodes (ti_TaskId t) = Some n' \<and> frn_CurrentState n' = Starting \<and>
              ti_Data t = TaskData_Serialize (frn_TaskData n'))))"

lemma offering_start: "ports_inv U P h \<Longrightarrow> offering U P nodes h {} nodes h False False"
  by (simp add: offering_def)

lemma launching_start: "launching nodes h {} nodes h"
  by (simp add: launching_def)

lemma offering_step:
  assumes "offering U P N0 h0 vis nodes h dirty needs" and "k \<notin> vis" and "fmlookup nodes k = Some n"
    and "offered U P n h n' h' d need"
  shows "offering U P N0 h0 (insert k vis) (fmupd k n' nodes) h' (dirty \<or> d) (needs \<or> need)"
proof -
  have N0: "fmlookup N0 k = Some n" using assms(1-3) by (simp add: offering_def)
  have dom: "fmdom (fmupd k n' nodes) = fmdom N0"
    using assms(1,3) by (auto simp: offering_def dest: fmdomI)
  have same: "\<not> CanBeScheduled n \<Longrightarrow> n' = n" "\<not> d \<Longrightarrow> n' = n \<and> h' = h"
    using assms(4) by (auto simp: offered_def)
  have fr: "offer_frame h0 h'" and inv: "ports_inv U P h'" and nd: "NeedsToBeReconciled n \<longrightarrow> need"
    using assms(1,4) by (auto simp: offering_def offered_def intro: offer_frame_trans)
  have "fmupd k n nodes = nodes" using assms(3) by (intro fmap_ext) auto
  with assms(1) N0 dom same fr inv nd show ?thesis
    by (auto simp: offering_def)
qed

lemma offering_skip:
  assumes "offering U P N0 h0 vis nodes h dirty needs" and "fmlookup nodes k = None"
  shows "offering U P N0 h0 (insert k vis) nodes h dirty needs"
proof -
  from assms have "fmlookup N0 k = None"
    by (metis fmdom_notD fmdom_notI offering_def)
  with assms(1) show ?thesis by (auto simp: offering_def)
qed

lemma launching_mono:
  assumes "launching N0 h0 vis nodes h" and "k \<notin> vis" and "TasksToLaunch h' = TasksToLaunch h"
  shows "launching N0 h0 (insert k vis) (fmupd k n' nodes) h'"
  using assms unfolding launching_def by (metis fmupd_lookup insertCI)

lemma launching_skip:
  "launching N0 h0 vis nodes h \<Longrightarrow> launching N0 h0 (insert k vis) nodes h"
  unfolding launching_def by blast

lemma launching_step:
  assumes "launching N0 h0 vis nodes h" and "k \<notin> vis" and "fmlookup N0 k = Some n" and "k = CurrentID n"
    and "offered U P n h n' h' d need"
  shows "launching N0 h0 (insert k vis) (fmupd k n' nodes) h'"
proof (cases "TasksToLaunch h' = TasksToLaunch h")
  case True
  with assms(1,2) show ?thesis by (rule launching_mono)
next
  case False
  with assms(5) obtain t where t: "TasksToLaunch h' = TasksToLaunch h @ [t]" "ti_TaskId t = k" "CanBeScheduled n"
    "ti_Data t = TaskData_Serialize (frn_TaskData n')" "frn_CurrentState n' = Starting"
    using assms(4) by (auto simp: offered_def)
  from assms(1) obtain ts where ts: "TasksToLaunch h = TasksToLaunch h0 @ ts" "distinct (map ti_TaskId ts)"
    "\<forall>t \<in> set ts. ti_TaskId t \<in> vis \<and>
       (\<exists>n n'. fmlookup N0 (ti_TaskId t) = Some n \<and> CanBeScheduled n \<and>
          fmlookup nodes (ti_TaskId t) = Some n' \<and> frn_CurrentState n' = Starting \<and> ti_Data t = TaskData_Serialize (frn_TaskData n'))"
    by (auto simp: launching_def)
  from ts(2,3) t(2) assms(2) have "distinct (map ti_TaskId (ts @ [t]))" by auto
  moreover from ts(3) t assms(2,3) have "\<forall>t \<in> set (ts @ [t]). ti_TaskId t \<in> insert k vis \<and>
       (\<exists>n m. fmlookup N0 (ti_TaskId t) = Some n \<and> CanBeScheduled n \<and>
          fmlookup (fmupd k n' nodes) (ti_TaskId t) = Some m \<and> frn_CurrentState m = Starting \<and>
          ti_Data t = TaskData_Serialize (frn_TaskData m))"
    by auto
  ultimately show ?thesis using ts(1) t(1) unfolding launching_def by (metis append.assoc)
qed

context mesosutil_laws
begin

lemma offer_loop_ok:
  assumes "ports_inv U P h" and "nodes_ok fw cl b nodes" and "distinct ks"
  obtains nodes' h' d need where "offer_loop U rnd sc ks nodes h False False = Inr (nodes', h', d, need)"
    "offering U P nodes h (set ks) nodes' h' d need" "launching nodes h (set ks) nodes' h'"
    "nodes_ok fw cl b nodes'"
proof -
  let ?I = "\<lambda>vis nodes' h' d need. offering U P nodes h vis nodes' h' d need \<and>
    launching nodes h vis nodes' h' \<and> nodes_ok fw cl b nodes'"
  have "\<exists>nodes' h' d need. offer_loop U rnd sc ks nodes h False False = Inr (nodes', h', d, need) \<and>
      ?I ({} \<union> set ks) nodes' h' d need"
  proof (rule offer_loop_rule)
    show "?I {} nodes h False False"
      using assms(1,2) by (simp add: offering_start launching_start)
  next
    fix vis k nodes' h' dirty needs n
    assume I: "?I vis nodes' h' dirty needs" and k: "k \<notin> vis" and n: "fmlookup nodes' k = Some n"
    from I n have ok: "k = CurrentID n" "node_ok fw cl b n" by (auto dest: nodes_okD)
    from I have "ports_inv U P h'" by (simp add: offering_def)
    then obtain n1 h1 d1 need1 where o: "offer_node U (rnd k) sc n h' = Inr (n1, h1, d1, need1)"
      "offered U P n h' n1 h1 d1 need1"
      using ok(2) by (auto simp: node_ok_def elim!: offer_node_offered [where n = n and rnd = "rnd k" and sc = sc])
    have "fmlookup nodes k = Some n" using I k n by (simp add: offering_def)
    with I k n o ok show "\<exists>n' h'' d need. offer_node U (rnd k) sc n h' = Inr (n', h'', d, need) \<and>
        ?I (insert k vis) (fmupd k n' nodes') h'' (dirty \<or> d) (needs \<or> need)"
      by (auto intro!: offering_step launching_step nodes_ok_upd simp: offered_def [of _ _ n])
  next
    fix vis k nodes' h' dirty needs
    assume "?I vis nodes' h' dirty needs" and "fmlookup nodes' k = None"
    then show "?I (insert k vis) nodes' h' dirty needs"
      by (auto intro: offering_skip launching_skip)
  qed (use assms(3) in simp_all)
  then show thesis using that by auto
qed

lemma Cluster_ApplyOffer_ok:
  assumes "ports_inv U P h" and "cluster_ok fw frc" and "enumerates ks (frc_Nodes frc)"
  obtains frc' h' d need where "Cluster_ApplyOffer U rnd sc ks h frc = Inr (frc', h', d, need)"
    "cluster_ok fw frc'" "frc' = frc\<lparr>frc_Nodes := frc_Nodes frc'\<rparr>"
    "offering U P (frc_Nodes frc) h (fset (fmdom (frc_Nodes frc))) (frc_Nodes frc') h' d need"
    "launching (frc_Nodes frc) h (fset (fmdom (frc_Nodes frc))) (frc_Nodes frc') h'"
proof -
  from assms(2) have ok: "nodes_ok fw (frc_Name frc) (cluster_size frc) (frc_Nodes frc)"
    by (simp add: cluster_ok_def)
  have vis: "set ks = fset (fmdom (frc_Nodes frc))"
    using enumeratesD(2) [OF assms(3)] by blast
  from assms(1) ok enumeratesD(1) [OF assms(3)] obtain nodes' h' d need where
    l: "offer_loop U rnd sc ks (frc_Nodes frc) h False False = Inr (nodes', h', d, need)"
    "offering U P (frc_Nodes frc) h (set ks) nodes' h' d need" "launching (frc_Nodes frc) h (set ks) nodes' h'"
    "nodes_ok fw (frc_Name frc) (cluster_size frc) nodes'"
    by (rule offer_loop_ok)
  then have "cluster_ok fw (frc\<lparr>frc_Nodes := nodes'\<rparr>)"
    by (intro cluster_ok_nodes [OF assms(2)]) (simp_all add: offering_def)
  with l vis show thesis
    by (intro that [of "frc\<lparr>frc_Nodes := nodes'\<rparr>" h' d need]) (simp_all add: Cluster_ApplyOffer_def)
qed

end

section \<open>Properties\<close>

text \<open>
  C21: Creating a node never overwrites another: in a well-formed cluster the new node's id belongs to
  no living and no dead node, the cluster stays well-formed, and every other node is as before.
\<close>

theorem create_node_fresh:
  assumes "cluster_ok (sc_frameworkName sc) frc" and "CreateNode sc uuid frc = Inr (frc', n)"
  shows "\<not> HasNode frc (CurrentID n) \<and> cluster_ok (sc_frameworkName sc) frc' \<and>
    (\<forall>k. fmlookup (frc_Nodes frc') k = (if k = CurrentID n then Some n else fmlookup (frc_Nodes frc) k)) \<and>
    frc_Graveyard frc' = frc_Graveyard frc"
  using CreateNode_ok [OF assms] CreateNode_cases(2) [OF assms(2)]
  by (auto simp: HasNode_def fmdom_notD)

definition ex_cluster :: FrameworkRiakCluster where
  "ex_cluster = \<lparr>frc_Name = ''c1'', frc_Nodes = fmupd ''riak-c1-1'' ex_node fmempty, frc_Graveyard = fmempty,
     frc_RiakConfig = [], frc_AdvancedConfig = [], frc_IsKilled = False, frc_IsRestarting = False,
     frc_Generation = 0\<rparr>"

lemma ex_node_id: "CurrentID ex_node = ''riak-c1-1''"
  by code_simp

lemma ex_node_ok: "node_ok ''riak'' ''c1'' 1 ex_node"
  by (simp add: node_ok_def legal_def status_ok_def ex_node_def)

lemma ex_cluster_ok: "cluster_ok ''riak'' ex_cluster"
proof -
  have "nodes_ok ''riak'' ''c1'' 1 (fmupd ''riak-c1-1'' ex_node fmempty)"
    by (rule nodes_ok_upd) (simp_all add: nodes_ok_def ex_node_id ex_node_ok)
  then show ?thesis
    by (simp add: cluster_ok_def ex_cluster_def cluster_size_def len_map_upd) (simp add: nodes_ok_def)
qed

lemma ex_new_node:
  obtains frc' n where "CreateNode ex_conf ''u2'' ex_cluster = Inr (frc', n)"
proof -
  have "ParseFloat ''0.5'' = Some (1/2)" "ParseFloat ''1024'' = Some 1024" "ParseFloat ''500'' = Some 500"
    by code_simp+
  then have "\<exists>n. NewFrameworkRiakNode ex_conf ''u2'' (frc_Name ex_cluster) (frc_Generation ex_cluster)
      (GetNextSimpleId ex_cluster) = Inr n"
    by (simp add: NewFrameworkRiakNode_def ex_conf_def)
  with that show thesis by (auto simp: CreateNode_def Let_def)
qed

theorem create_node_fresh_witness:
  "cluster_ok (sc_frameworkName ex_conf) ex_cluster \<and>
   (\<exists>frc' n. CreateNode ex_conf ''u2'' ex_cluster = Inr (frc', n) \<and> \<not> HasNode ex_cluster (CurrentID n) \<and>
      fmlookup (frc_Nodes frc') ''riak-c1-1'' = Some ex_node \<and> cluster_ok ''riak'' frc')"
proof -
  have ok: "cluster_ok (sc_frameworkName ex_conf) ex_cluster" using ex_cluster_ok by (simp add: ex_conf_def)
  obtain frc' n where c: "CreateNode ex_conf ''u2'' ex_cluster = Inr (frc', n)" by (rule ex_new_node)
  note f = create_node_fresh [OF ok c]
  have "HasNode ex_cluster ''riak-c1-1''" by (simp add: HasNode_def ex_cluster_def)
  with f have "CurrentID n \<noteq> ''riak-c1-1''" by metis
  with f have "fmlookup (frc_Nodes frc') ''riak-c1-1'' = Some ex_node" by (simp add: ex_cluster_def)
  with f c ok show ?thesis by (auto simp: ex_conf_def)
qed

text \<open>
  C24: Removing a node buries it: the same ids are known as before, so that a late status update still
  finds the node among the dead, and the number the next node gets does not change, so that no id is
  ever given out twice.
\<close>

theorem remove_node_buries:
  assumes "cluster_ok fw frc" and "fmlookup (frc_Nodes frc) k = Some n"
  shows "cluster_ok fw (RemoveNode n frc) \<and> GetNextSimpleId (RemoveNode n frc) = GetNextSimpleId frc \<and>
    (\<forall>i. HasNode (RemoveNode n frc) i = HasNode frc i) \<and>
    fmlookup (frc_Nodes (RemoveNode n frc)) k = None \<and>
    fmlookup (frc_Graveyard (RemoveNode n frc)) k = Some n"
proof -
  from assms have k: "k = CurrentID n" by (auto simp: cluster_ok_def dest: nodes_okD)
  from RemoveNode_ok [OF assms] have "GetNextSimpleId (RemoveNode n frc) = GetNextSimpleId frc"
    by (simp add: GetNextSimpleId_def cluster_size_def)
  with RemoveNode_ok [OF assms] k assms(2) show ?thesis
    by (auto simp: HasNode_def RemoveNode_def)
qed

theorem remove_node_buries_witness:
  "cluster_ok ''riak'' ex_cluster \<and> fmlookup (frc_Nodes ex_cluster) ''riak-c1-1'' = Some ex_node \<and>
   GetNextSimpleId (RemoveNode ex_node ex_cluster) = 2 \<and> HasNode (RemoveNode ex_node ex_cluster) ''riak-c1-1''"
proof -
  have l: "fmlookup (frc_Nodes ex_cluster) ''riak-c1-1'' = Some ex_node" by (simp add: ex_cluster_def)
  moreover have "GetNextSimpleId ex_cluster = 2" "HasNode ex_cluster ''riak-c1-1''"
    by (simp_all add: GetNextSimpleId_def HasNode_def ex_cluster_def len_map_upd)
  ultimately show ?thesis using remove_node_buries [OF ex_cluster_ok l] ex_cluster_ok by metis
qed

text \<open>
  C23: A pass of the rolling restart hands out at most one node, whatever order the map is visited in:
  a node of the cluster that has not restarted yet. That node alone is marked, and the cluster stops
  restarting exactly when every node has restarted.
\<close>

theorem rolling_restart_one_node:
  assumes "enumerates ks (frc_Nodes frc)" and "frc_IsRestarting frc"
    and "GetNodesToRestart ks frc = (frc', toRestart, modified)"
  shows "len_map toRestart \<le> 1 \<and>
    (frc_IsRestarting frc' \<longleftrightarrow> \<not> fmpred (\<lambda>k n. HasRestarted n (frc_Generation frc)) (frc_Nodes frc)) \<and>
    (if toRestart = fmempty then frc_Nodes frc' = frc_Nodes frc
     else \<exists>k n. fmlookup (frc_Nodes frc) k = Some n \<and> \<not> HasRestarted n (frc_Generation frc) \<and>
            frc_Nodes frc' = fmupd k (Restart (frc_Generation frc) n) (frc_Nodes frc) \<and>
            toRestart = fmupd (CurrentID n) (Restart (frc_Generation frc) n) fmempty \<and> modified)"
  using assms(2,1)
proof (cases rule: GetNodesToRestart_cases)
  case none
  with assms show ?thesis by (auto split: if_splits)
next
  case (one k n)
  have ne: "fmupd (CurrentID n) (Restart (frc_Generation frc) n) fmempty \<noteq> fmempty"
    by (metis fmempty_lookup fmupd_lookup option.distinct(1))
  from one assms have "frc' = frc\<lparr>frc_Nodes := fmupd k (Restart (frc_Generation frc) n) (frc_Nodes frc)\<rparr>"
    "toRestart = fmupd (CurrentID n) (Restart (frc_Generation frc) n) fmempty" "modified" by simp_all
  with one(1-3) ne assms(2) show ?thesis by (auto simp: len_map_upd)
qed

definition ex_running :: "int \<Rightarrow> FrameworkRiakNode" where
  "ex_running i = ex_node\<lparr>frn_SimpleId := i, frn_CurrentState := Started\<rparr>"

definition ex_pair :: FrameworkRiakCluster where
  "ex_pair = ex_cluster\<lparr>frc_Nodes := fmupd ''riak-c1-1'' (ex_running 1) (fmupd ''riak-c1-2'' (ex_running 2) fmempty),
     frc_IsRestarting := True, frc_Generation := 1\<rparr>"

lemma ex_pair_enum: "enumerates [''riak-c1-1'', ''riak-c1-2''] (frc_Nodes ex_pair)"
  "enumerates [''riak-c1-2'', ''riak-c1-1''] (frc_Nodes ex_pair)"
  by (auto simp: enumerates_def ex_pair_def)

theorem rolling_restart_one_node_witness:
  "enumerates [''riak-c1-1'', ''riak-c1-2''] (frc_Nodes ex_pair) \<and> frc_IsRestarting ex_pair \<and>
   (\<exists>frc' m d. GetNodesToRestart [''riak-c1-1'', ''riak-c1-2''] ex_pair = (frc', m, d) \<and> len_map m \<le> 1 \<and>
      frc_IsRestarting frc')"
proof -
  obtain frc' m d where g: "GetNodesToRestart [''riak-c1-1'', ''riak-c1-2''] ex_pair = (frc', m, d)"
    by (metis prod_cases3)
  have r: "frc_IsRestarting ex_pair" by (simp add: ex_pair_def)
  have "\<not> fmpred (\<lambda>k n. HasRestarted n (frc_Generation ex_pair)) (frc_Nodes ex_pair)"
    by (auto simp: ex_pair_def HasRestarted_def ex_running_def ex_node_def fmpred_iff)
  with rolling_restart_one_node [OF ex_pair_enum(1) r g] g r ex_pair_enum(1) show ?thesis by auto
qed

text \<open>
  The rolling restart does not keep to one node at a time. A node that was asked to restart still
  counts as neither restarted nor restarting until its task ends, so a second pass that happens to
  meet another node first marks that one too: here both nodes of a running cluster are to restart.
\<close>

theorem rolling_restart_overlap:
  "\<exists>frc1 m1 frc2 m2.
     GetNodesToRestart [''riak-c1-1'', ''riak-c1-2''] ex_pair = (frc1, m1, True) \<and>
     GetNodesToRestart [''riak-c1-2'', ''riak-c1-1''] frc1 = (frc2, m2, True) \<and>
     fmdom m1 = {|''riak-c1-1''|} \<and> fmdom m2 = {|''riak-c1-2''|} \<and>
     fmpred (\<lambda>k n. frn_DestinationState n = Restarting \<and> frn_CurrentState n = Started) (frc_Nodes frc2)"
proof -
  have id: "CurrentID (ex_running 1) = ''riak-c1-1''" "CurrentID (ex_running 2) = ''riak-c1-2''"
    by code_simp+
  have h: "\<not> HasRestarted (ex_running i) 1" "\<not> IsRestarting (ex_running i) 1" for i
    by (simp_all add: HasRestarted_def IsRestarting_def ex_running_def ex_node_def)
  have 1: "GetNodesToRestart [''riak-c1-1'', ''riak-c1-2''] ex_pair =
      (ex_pair\<lparr>frc_Nodes := fmupd ''riak-c1-1'' (Restart 1 (ex_running 1)) (frc_Nodes ex_pair)\<rparr>,
       fmupd ''riak-c1-1'' (Restart 1 (ex_running 1)) fmempty, True)"
    by (simp add: GetNodesToRestart_def ex_pair_def h id Let_def len_map_upd)
  have 2: "GetNodesToRestart [''riak-c1-2'', ''riak-c1-1'']
      (ex_pair\<lparr>frc_Nodes := fmupd ''riak-c1-1'' (Restart 1 (ex_running 1)) (frc_Nodes ex_pair)\<rparr>) =
      (ex_pair\<lparr>frc_Nodes := fmupd ''riak-c1-2'' (Restart 1 (ex_running 2))
         (fmupd ''riak-c1-1'' (Restart 1 (ex_running 1)) (frc_Nodes ex_pair))\<rparr>,
       fmupd ''riak-c1-2'' (Restart 1 (ex_running 2)) fmempty, True)"
    by (simp add: GetNodesToRestart_def ex_pair_def h id Let_def len_map_upd)
  have "fmpred (\<lambda>k n. frn_DestinationState n = Restarting \<and> frn_CurrentState n = Started)
      (fmupd ''riak-c1-2'' (Restart 1 (ex_running 2)) (fmupd ''riak-c1-1'' (Restart 1 (ex_running 1)) (frc_Nodes ex_pair)))"
    by (auto simp: fmpred_iff ex_pair_def Restart_def ex_running_def)
  with 1 2 show ?thesis by simp
qed

text \<open>
  C22: A status update for a node the cluster knows is always handled: for a dead node nothing changes,
  and for a living one exactly that node changes, to the state its task reports, with the status
  recorded and the node reconciled. It sends at most six requests for each node of the cluster.
\<close>

theorem status_update_effect:
  assumes "cluster_ok fw frc" and "HasNode frc (ts_TaskId s)" and "enumerates ks (frc_Nodes frc)"
  shows "\<exists>frc' sent. HandleNodeStatusUpdate net ks s frc = Inr (frc', sent) \<and> cluster_ok fw frc' \<and>
    sent \<le> 6 * len_map (frc_Nodes frc) \<and>
    frc_Nodes frc' = (case fmlookup (frc_Nodes frc) (ts_TaskId s) of
        None \<Rightarrow> frc_Nodes frc
      | Some n \<Rightarrow> fmupd (ts_TaskId s) (status_effect s n) (frc_Nodes frc)) \<and>
    frc_Graveyard frc' = frc_Graveyard frc"
proof -
  obtain frc' sent where u: "HandleNodeStatusUpdate net ks s frc = Inr (frc', sent)" "cluster_ok fw frc'"
    "frc_Graveyard frc' = frc_Graveyard frc" "sent \<le> 6 * length ks"
    using assms(1,2) by (rule HandleNodeStatusUpdate_ok)
  have disj: "fmdom (frc_Nodes frc) |\<inter>| fmdom (frc_Graveyard frc) = {||}"
    using assms(1) by (simp add: cluster_ok_def)
  have "frc_Nodes frc' = (case fmlookup (frc_Nodes frc) (ts_TaskId s) of None \<Rightarrow> frc_Nodes frc
      | Some n \<Rightarrow> fmupd (ts_TaskId s) (status_effect s n) (frc_Nodes frc))"
  proof (cases "fmlookup (frc_Nodes frc) (ts_TaskId s)")
    case None
    with assms(2) u(1) show ?thesis by (simp add: HandleNodeStatusUpdate_dead HasNode_def)
  next
    case (Some n)
    with disj have "fmlookup (frc_Graveyard frc) (ts_TaskId s) = None"
      by (metis fmdomI fmdom_notD finterI fempty_iff)
    from this Some obtain sent' where "HandleNodeStatusUpdate net ks s frc =
        Inr (frc\<lparr>frc_Nodes := fmupd (ts_TaskId s) (status_effect s n) (frc_Nodes frc)\<rparr>, sent')"
      by (rule HandleNodeStatusUpdate_alive)
    with u(1) have "frc' = frc\<lparr>frc_Nodes := fmupd (ts_TaskId s) (status_effect s n) (frc_Nodes frc)\<rparr>" by simp
    with Some show ?thesis by simp
  qed
  with u enumerates_length [OF assms(3)] show ?thesis by simp
qed

definition ex_status :: "TaskState \<Rightarrow> TaskStatus" where
  "ex_status st = \<lparr>ts_TaskId = ''riak-c1-1'', ts_State = st, ts_SlaveId = Some ''S1''\<rparr>"

theorem status_update_effect_witness:
  "cluster_ok ''riak'' ex_cluster \<and> HasNode ex_cluster (ts_TaskId (ex_status TASK_LOST)) \<and>
   enumerates [''riak-c1-1''] (frc_Nodes ex_cluster) \<and>
   (\<exists>frc' sent. HandleNodeStatusUpdate (\<lambda>_ _ _. TransportError []) [''riak-c1-1''] (ex_status TASK_LOST) ex_cluster =
       Inr (frc', sent) \<and>
      fmlookup (frc_Nodes frc') ''riak-c1-1'' = Some (Error (with_status (ex_status TASK_LOST) ex_node)) \<and> sent \<le> 6)"
proof -
  have hn: "HasNode ex_cluster (ts_TaskId (ex_status TASK_LOST))"
    by (simp add: HasNode_def ex_cluster_def ex_status_def)
  have en: "enumerates [''riak-c1-1''] (frc_Nodes ex_cluster)"
    by (auto simp: enumerates_def ex_cluster_def)
  have "fmlookup (frc_Nodes ex_cluster) (ts_TaskId (ex_status TASK_LOST)) = Some ex_node"
    "len_map (frc_Nodes ex_cluster) = 1" "ts_TaskId (ex_status TASK_LOST) = ''riak-c1-1''"
    by (simp_all add: ex_cluster_def ex_status_def len_map_upd)
  moreover have "status_effect (ex_status TASK_LOST) ex_node = Error (with_status (ex_status TASK_LOST) ex_node)"
    by (simp add: status_effect_def ex_status_def)
  moreover obtain frc' sent where
    "HandleNodeStatusUpdate (\<lambda>_ _ _. TransportError []) [''riak-c1-1''] (ex_status TASK_LOST) ex_cluster = Inr (frc', sent)"
    "sent \<le> 6 * len_map (frc_Nodes ex_cluster)"
    "frc_Nodes frc' = (case fmlookup (frc_Nodes ex_cluster) (ts_TaskId (ex_status TASK_LOST)) of
        None \<Rightarrow> frc_Nodes ex_cluster
      | Some n \<Rightarrow> fmupd (ts_TaskId (ex_status TASK_LOST)) (status_effect (ex_status TASK_LOST) n) (frc_Nodes ex_cluster))"
    using status_update_effect [OF ex_cluster_ok hn en, of "\<lambda>_ _ _. TransportError []"] by blast
  ultimately show ?thesis using ex_cluster_ok hn en by simp
qed

text \<open>
  A kill request is lost when the node's task reports that it is staging, starting or running after
  the request: the update sets the destination back to started, so the node is neither killed nor
  removed by the next pass.
\<close>

theorem kill_request_lost:
  "\<exists>n'. status_effect (ex_status TASK_RUNNING) (KillNext ex_node) = n' \<and>
     frn_DestinationState (KillNext ex_node) = Shutdown \<and> frn_DestinationState n' = Started \<and>
     \<not> CanBeKilled n' \<and> \<not> CanBeRemoved n' \<and>
     (\<exists>sent. HandleNodeStatusUpdate (\<lambda>_ _ _. TransportError []) [''riak-c1-1''] (ex_status TASK_RUNNING)
        (ex_cluster\<lparr>frc_Nodes := fmupd ''riak-c1-1'' (KillNext ex_node) fmempty\<rparr>) =
        Inr (ex_cluster\<lparr>frc_Nodes := fmupd ''riak-c1-1'' n' fmempty\<rparr>, sent))"
proof -
  let ?frc = "ex_cluster\<lparr>frc_Nodes := fmupd ''riak-c1-1'' (KillNext ex_node) fmempty\<rparr>"
  have "fmlookup (frc_Graveyard ?frc) (ts_TaskId (ex_status TASK_RUNNING)) = None"
    "fmlookup (frc_Nodes ?frc) (ts_TaskId (ex_status TASK_RUNNING)) = Some (KillNext ex_node)"
    by (simp_all add: ex_cluster_def ex_status_def)
  from HandleNodeStatusUpdate_alive [OF this, of "\<lambda>_ _ _. TransportError []" "[''riak-c1-1'']"]
  obtain sent where "HandleNodeStatusUpdate (\<lambda>_ _ _. TransportError []) [''riak-c1-1''] (ex_status TASK_RUNNING) ?frc =
      Inr (?frc\<lparr>frc_Nodes := fmupd ''riak-c1-1'' (status_effect (ex_status TASK_RUNNING) (KillNext ex_node))
        (frc_Nodes ?frc)\<rparr>, sent)"
    by (metis ex_status_def TaskStatus.select_convs(1))
  then show ?thesis
    by (simp add: ex_status_def status_effect_def with_status_def Run_def KillNext_def CanBeKilled_def CanBeRemoved_def)
qed


end
