(* ===== verification/Metadata.thy ===== *)
theory Metadata
  imports Go_Prelude
begin

text \<open>
  The metadata store, \<^verbatim>\<open>metadata_manager/manager.go\<close> and \<^verbatim>\<open>metadata_manager/framework.go\<close>. The
  ZooKeeper client is not part of the repository: its calls are the record \<open>zk_conn\<close>, functions on a
  world \<open>'w\<close> (server, session and the pointer \<^verbatim>\<open>mgr.zkConn\<close>) that return what the Go calls return.
  Data are of a type \<open>'d\<close>, \<open>None\<close> for a nil slice. An operation returns its result or panic with the
  world it leaves behind.
\<close>

section \<open>The client\<close>

datatype zkerr =
    ErrNoNode
  | ErrNodeExists
  | ErrBadVersion
  | ErrConnectionClosed
  | ErrOther string

datatype zk_state = StateConnected | StateHasSession | StateConnecting | StateOther

record ('d, 'w) zk_conn =
  zk_Get :: "string \<Rightarrow> 'w \<Rightarrow> ('d option \<times> int option \<times> zkerr option) \<times> 'w"
  zk_Set :: "string \<Rightarrow> 'd option \<Rightarrow> int \<Rightarrow> 'w \<Rightarrow> (int option \<times> zkerr option) \<times> 'w"
  zk_Create :: "string \<Rightarrow> 'd option \<Rightarrow> bool \<Rightarrow> 'w \<Rightarrow> zkerr option \<times> 'w"
  zk_Exists :: "string \<Rightarrow> 'w \<Rightarrow> (bool \<times> zkerr option) \<times> 'w"
  zk_Children :: "string \<Rightarrow> 'w \<Rightarrow> (string list \<times> zkerr option) \<times> 'w"
  zk_ChildrenW :: "string \<Rightarrow> 'w \<Rightarrow> (string list \<times> nat \<times> zkerr option) \<times> 'w"
  zk_State :: "'w \<Rightarrow> zk_state option"
  zk_Close :: "'w \<Rightarrow> 'w"
  zk_Connect :: "string list \<Rightarrow> 'w \<Rightarrow> zkerr option \<times> 'w"
  zk_Lock :: "string \<Rightarrow> 'w \<Rightarrow> zkerr option \<times> 'w"

section \<open>Namespaces\<close>

datatype Namespace =
    baseNamespace
  | SubNamespace Namespace string

fun GetComponents :: "Namespace \<Rightarrow> string list" where
  "GetComponents baseNamespace = [[]]"
| "GetComponents (SubNamespace parent component) = GetComponents parent @ [component]"

fun GetZKPath :: "Namespace \<Rightarrow> string" where
  "GetZKPath baseNamespace = ''/''"
| "GetZKPath (SubNamespace parent component) =
     join_strings (GetComponents (SubNamespace parent component)) ''/''"

definition makeSubSpace :: "Namespace \<Rightarrow> string \<Rightarrow> Namespace" where
  "makeSubSpace ns subSpaceName = SubNamespace ns subSpaceName"

section \<open>The manager\<close>

text \<open>
  \<open>mgr.namespace\<close> is set by every \<open>CreateConnection\<close> to the same value, a function of the framework id.
\<close>

record MetadataManager =
  mgr_frameworkID :: string
  mgr_zookeepers :: "string list"

definition mgr_namespace :: "MetadataManager \<Rightarrow> Namespace" where
  "mgr_namespace mgr =
     makeSubSpace (makeSubSpace (makeSubSpace baseNamespace ''riak'') ''frameworks'') (mgr_frameworkID mgr)"

record 'd ZkNode =
  zn_stat :: "int option"
  zn_data :: "'d option"
  zn_ns :: Namespace

text \<open>An operation: a value or a panic, and the world after it.\<close>

type_synonym ('a, 'w) io = "'w \<Rightarrow> 'a result \<times> 'w"

definition bind_io :: "('a, 'w) io \<Rightarrow> ('a \<Rightarrow> ('b, 'w) io) \<Rightarrow> ('b, 'w) io" where
  "bind_io m f w = (case m w of (Inl p, w1) \<Rightarrow> (Inl p, w1) | (Inr x, w1) \<Rightarrow> f x w1)"

definition CreateConnection :: "('d, 'w) zk_conn \<Rightarrow> MetadataManager \<Rightarrow> (unit, 'w) io" where
  "CreateConnection Z mgr w =
     (case zk_State Z w of
        Some StateConnected \<Rightarrow> (Inr (), w)
      | Some StateHasSession \<Rightarrow> (Inr (), w)
      | Some StateConnecting \<Rightarrow> (Inr (), w)
      | other \<Rightarrow>
          let w1 = (case other of None \<Rightarrow> w | Some _ \<Rightarrow> zk_Close Z w);
              (err, w2) = zk_Connect Z (mgr_zookeepers mgr) w1
          in case err of
               Some e \<Rightarrow> (Inl (LogPanic ''zk.Connect''), w2)
             | None \<Rightarrow> (Inr (), w2))"

text \<open>Reading a node; the error is returned when the attempts are used up.\<close>

function getNodeWithRetry ::
  "('d, 'w) zk_conn \<Rightarrow> MetadataManager \<Rightarrow> Namespace \<Rightarrow> int \<Rightarrow> int \<Rightarrow> (zkerr + 'd ZkNode, 'w) io" where
  "getNodeWithRetry Z mgr ns currentRetry retry w =
     (let ((data, stat, err), w1) = zk_Get Z (GetZKPath ns) w
      in case err of
           None \<Rightarrow> (Inr (Inr \<lparr>zn_stat = stat, zn_data = data, zn_ns = ns\<rparr>), w1)
         | Some e \<Rightarrow>
             if currentRetry \<ge> retry then (Inr (Inl e), w1)
             else (case CreateConnection Z mgr w1 of
                     (Inl p, w2) \<Rightarrow> (Inl p, w2)
                   | (Inr _, w2) \<Rightarrow> getNodeWithRetry Z mgr ns (currentRetry + 1) retry w2))"
  by pat_completeness auto
termination
  by (relation "measure (\<lambda>(Z, mgr, ns, currentRetry, retry, w). nat (retry - currentRetry))") auto

declare getNodeWithRetry.simps [simp del]

definition getNode :: "('d, 'w) zk_conn \<Rightarrow> MetadataManager \<Rightarrow> Namespace \<Rightarrow> (zkerr + 'd ZkNode, 'w) io" where
  "getNode Z mgr ns = getNodeWithRetry Z mgr ns 0 10"

text \<open>
  Writing a node. The first attempt for a node without a stat creates it; a failed read leaves in the
  node whatever the client returned with the error.
\<close>

definition set_data_attempt ::
  "('d, 'w) zk_conn \<Rightarrow> 'd option \<Rightarrow> 'd ZkNode \<Rightarrow> ('d ZkNode \<times> zkerr option, 'w) io" where
  "set_data_attempt Z data node w =
     (let path = GetZKPath (zn_ns node)
      in if zn_stat node \<noteq> None then
           let ((d1, st1, err1), w1) = zk_Get Z path w;
               node1 = node\<lparr>zn_data := d1, zn_stat := st1\<rparr>
           in (case err1 of
                 Some e \<Rightarrow> (Inr (node1, Some e), w1)
               | None \<Rightarrow>
                   (case st1 of
                      None \<Rightarrow> (Inl NilDereference, w1)
                    | Some version \<Rightarrow>
                        let ((st2, err2), w2) = zk_Set Z path data version w1
                        in (Inr (node1\<lparr>zn_stat := st2\<rparr>, err2), w2)))
         else
           let (err1, w1) = zk_Create Z path data False w
           in (case err1 of
                 Some e \<Rightarrow> (Inr (node, Some e), w1)
               | None \<Rightarrow>
                   let ((d2, st2, err2), w2) = zk_Get Z path w1
                   in (Inr (node\<lparr>zn_data := d2, zn_stat := st2\<rparr>, err2), w2)))"

function SetDataWithRetry ::
  "('d, 'w) zk_conn \<Rightarrow> MetadataManager \<Rightarrow> 'd option \<Rightarrow> int \<Rightarrow> int \<Rightarrow> 'd ZkNode
     \<Rightarrow> ('d ZkNode \<times> zkerr option, 'w) io" where
  "SetDataWithRetry Z mgr data currentRetry retry node w =
     (case set_data_attempt Z data node w of
        (Inl p, w1) \<Rightarrow> (Inl p, w1)
      | (Inr (node1, None), w1) \<Rightarrow> (Inr (node1, None), w1)
      | (Inr (node1, Some e), w1) \<Rightarrow>
          if currentRetry \<ge> retry then (Inl (LogPanic ''Error persisting data''), w1)
          else (case CreateConnection Z mgr w1 of
                  (Inl p, w2) \<Rightarrow> (Inl p, w2)
                | (Inr _, w2) \<Rightarrow> SetDataWithRetry Z mgr data (currentRetry + 1) retry node1 w2))"
  by pat_completeness auto
termination
  by (relation "measure (\<lambda>(Z, mgr, data, currentRetry, retry, node, w). nat (retry - currentRetry))") auto

declare SetDataWithRetry.simps [simp del]

definition SetData ::
  "('d, 'w) zk_conn \<Rightarrow> MetadataManager \<Rightarrow> 'd option \<Rightarrow> 'd ZkNode \<Rightarrow> ('d ZkNode \<times> zkerr option, 'w) io" where
  "SetData Z mgr data node = SetDataWithRetry Z mgr data 0 10 node"

definition GetData :: "'d ZkNode \<Rightarrow> 'd option" where
  "GetData node = zn_data node"

text \<open>Creating missing path components.\<close>

function createIfNotExistsWithRetry ::
  "('d, 'w) zk_conn \<Rightarrow> string \<Rightarrow> bool \<Rightarrow> int \<Rightarrow> int \<Rightarrow> (unit, 'w) io" where
  "createIfNotExistsWithRetry Z path ephemeral currentRetry retry w =
     (let ((exists, err0), w1) = zk_Exists Z path w;
          (err, w2) = (if err0 = None \<and> \<not> exists then zk_Create Z path None ephemeral w1 else (err0, w1))
      in case err of
           None \<Rightarrow> (Inr (), w2)
         | Some e \<Rightarrow>
             if currentRetry \<ge> retry then (Inl (LogPanic ''createIfNotExists''), w2)
             else createIfNotExistsWithRetry Z path ephemeral (currentRetry + 1) retry w2)"
  by pat_completeness auto
termination
  by (relation "measure (\<lambda>(Z, path, ephemeral, currentRetry, retry, w). nat (retry - currentRetry))") auto

declare createIfNotExistsWithRetry.simps [simp del]

definition createIfNotExists :: "('d, 'w) zk_conn \<Rightarrow> string \<Rightarrow> bool \<Rightarrow> (unit, 'w) io" where
  "createIfNotExists Z path ephemeral = createIfNotExistsWithRetry Z path ephemeral 0 10"

fun create_each :: "('d, 'w) zk_conn \<Rightarrow> bool \<Rightarrow> string list \<Rightarrow> (unit, 'w) io" where
  "create_each Z ephemeral [] w = (Inr (), w)"
| "create_each Z ephemeral (path # paths) w =
     bind_io (createIfNotExists Z path ephemeral) (\<lambda>_. create_each Z ephemeral paths) w"

text \<open>The paths the loops over components visit: the prefixes of at least two components.\<close>

definition prefix_paths :: "string list \<Rightarrow> string list" where
  "prefix_paths components =
     map (\<lambda>idx. join_strings (take (idx + 1) components) ''/'') [1..<length components]"

definition CreateNSIfNotExists :: "('d, 'w) zk_conn \<Rightarrow> Namespace \<Rightarrow> bool \<Rightarrow> (unit, 'w) io" where
  "CreateNSIfNotExists Z ns ephemeral = create_each Z ephemeral (prefix_paths (GetComponents ns))"

definition NewMetadataManager ::
  "('d, 'w) zk_conn \<Rightarrow> string \<Rightarrow> string list \<Rightarrow> (MetadataManager, 'w) io" where
  "NewMetadataManager Z frameworkID zookeepers =
     (let manager = \<lparr>mgr_frameworkID = frameworkID, mgr_zookeepers = zookeepers\<rparr>
      in bind_io (CreateConnection Z manager) (\<lambda>_.
         bind_io (CreateNSIfNotExists Z (mgr_namespace manager) False) (\<lambda>_ w. (Inr manager, w))))"

text \<open>The root node of the framework.\<close>

function GetRootNodeWithRetry ::
  "('d, 'w) zk_conn \<Rightarrow> MetadataManager \<Rightarrow> int \<Rightarrow> int \<Rightarrow> ('d ZkNode, 'w) io" where
  "GetRootNodeWithRetry Z mgr currentRetry retry w =
     (case getNode Z mgr (mgr_namespace mgr) w of
        (Inl p, w1) \<Rightarrow> (Inl p, w1)
      | (Inr (Inr node), w1) \<Rightarrow> (Inr node, w1)
      | (Inr (Inl e), w1) \<Rightarrow>
          if currentRetry \<ge> retry then (Inl (LogPanic ''Could not get Root node''), w1)
          else GetRootNodeWithRetry Z mgr (currentRetry + 1) retry w1)"
  by pat_completeness auto
termination
  by (relation "measure (\<lambda>(Z, mgr, currentRetry, retry, w). nat (retry - currentRetry))") auto

declare GetRootNodeWithRetry.simps [simp del]

definition GetRootNode :: "('d, 'w) zk_conn \<Rightarrow> MetadataManager \<Rightarrow> ('d ZkNode, 'w) io" where
  "GetRootNode Z mgr = GetRootNodeWithRetry Z mgr 0 10"

text \<open>Reading all children of a node; the first child that cannot be read fails the attempt.\<close>

fun get_each :: "('d, 'w) zk_conn \<Rightarrow> MetadataManager \<Rightarrow> Namespace \<Rightarrow> string list \<Rightarrow> (zkerr + 'd ZkNode list, 'w) io" where
  "get_each Z mgr ns [] w = (Inr (Inr []), w)"
| "get_each Z mgr ns (name # names) w =
     bind_io (getNode Z mgr (makeSubSpace ns name)) (\<lambda>r. case r of
         Inl e \<Rightarrow> (\<lambda>w1. (Inr (Inl e), w1))
       | Inr node \<Rightarrow> bind_io (get_each Z mgr ns names) (\<lambda>r2 w2.
           (Inr (case r2 of Inl e \<Rightarrow> Inl e | Inr nodes \<Rightarrow> Inr (node # nodes)), w2))) w"

definition children_attempt ::
  "('d, 'w) zk_conn \<Rightarrow> MetadataManager \<Rightarrow> Namespace \<Rightarrow> (zkerr + 'd ZkNode list, 'w) io" where
  "children_attempt Z mgr ns w =
     (let ((children, err), w1) = zk_Children Z (GetZKPath ns) w
      in case err of Some e \<Rightarrow> (Inr (Inl e), w1) | None \<Rightarrow> get_each Z mgr ns children w1)"

function getChildrenWithRetry ::
  "('d, 'w) zk_conn \<Rightarrow> MetadataManager \<Rightarrow> Namespace \<Rightarrow> int \<Rightarrow> int \<Rightarrow> ('d ZkNode list, 'w) io" where
  "getChildrenWithRetry Z mgr ns currentRetry retry w =
     (case children_attempt Z mgr ns w of
        (Inl p, w1) \<Rightarrow> (Inl p, w1)
      | (Inr (Inr nodes), w1) \<Rightarrow> (Inr nodes, w1)
      | (Inr (Inl e), w1) \<Rightarrow>
          if currentRetry \<ge> retry then (Inl (LogPanic ''getChildren''), w1)
          else getChildrenWithRetry Z mgr ns (currentRetry + 1) retry w1)"
  by pat_completeness auto
termination
  by (relation "measure (\<lambda>(Z, mgr, ns, currentRetry, retry, w). nat (retry - currentRetry))") auto

declare getChildrenWithRetry.simps [simp del]

definition getChildren :: "('d, 'w) zk_conn \<Rightarrow> MetadataManager \<Rightarrow> Namespace \<Rightarrow> ('d ZkNode list, 'w) io" where
  "getChildren Z mgr ns = getChildrenWithRetry Z mgr ns 0 10"

definition childrenW_attempt ::
  "('d, 'w) zk_conn \<Rightarrow> MetadataManager \<Rightarrow> Namespace \<Rightarrow> (zkerr + 'd ZkNode list \<times> nat, 'w) io" where
  "childrenW_attempt Z mgr ns w =
     (let ((children, watchChan, err), w1) = zk_ChildrenW Z (GetZKPath ns) w
      in case err of Some e \<Rightarrow> (Inr (Inl e), w1)
         | None \<Rightarrow> bind_io (get_each Z mgr ns children) (\<lambda>r w2.
             (Inr (case r of Inl e \<Rightarrow> Inl e | Inr nodes \<Rightarrow> Inr (nodes, watchChan)), w2)) w1)"

function getChildrenWWithRetry ::
  "('d, 'w) zk_conn \<Rightarrow> MetadataManager \<Rightarrow> Namespace \<Rightarrow> int \<Rightarrow> int \<Rightarrow> ('d ZkNode list \<times> nat, 'w) io" where
  "getChildrenWWithRetry Z mgr ns currentRetry retry w =
     (case childrenW_attempt Z mgr ns w of
        (Inl p, w1) \<Rightarrow> (Inl p, w1)
      | (Inr (Inr res), w1) \<Rightarrow> (Inr res, w1)
      | (Inr (Inl e), w1) \<Rightarrow>
          if currentRetry \<ge> retry then (Inl (LogPanic ''getChildrenW''), w1)
          else getChildrenWWithRetry Z mgr ns (currentRetry + 1) retry w1)"
  by pat_completeness auto
termination
  by (relation "measure (\<lambda>(Z, mgr, ns, currentRetry, retry, w). nat (retry - currentRetry))") auto

declare getChildrenWWithRetry.simps [simp del]

definition getChildrenW :: "('d, 'w) zk_conn \<Rightarrow> MetadataManager \<Rightarrow> Namespace \<Rightarrow> ('d ZkNode list \<times> nat, 'w) io" where
  "getChildrenW Z mgr ns = getChildrenWWithRetry Z mgr ns 0 10"

text \<open>Making a node.\<close>

function makeNodeWithRetry ::
  "('d, 'w) zk_conn \<Rightarrow> MetadataManager \<Rightarrow> Namespace \<Rightarrow> bool \<Rightarrow> int \<Rightarrow> int \<Rightarrow> (zkerr + 'd ZkNode, 'w) io" where
  "makeNodeWithRetry Z mgr ns ephemeral currentRetry retry w =
     (let (err, w1) = zk_Create Z (GetZKPath ns) None ephemeral w
      in case err of
           None \<Rightarrow> getNode Z mgr ns w1
         | Some e \<Rightarrow>
             if currentRetry \<ge> retry then (Inl (LogPanic ''makeNode''), w1)
             else (case CreateConnection Z mgr w1 of
                     (Inl p, w2) \<Rightarrow> (Inl p, w2)
                   | (Inr _, w2) \<Rightarrow> makeNodeWithRetry Z mgr ns ephemeral (currentRetry + 1) retry w2))"
  by pat_completeness auto
termination
  by (relation "measure (\<lambda>(Z, mgr, ns, ephemeral, currentRetry, retry, w). nat (retry - currentRetry))") auto

declare makeNodeWithRetry.simps [simp del]

definition makeNode :: "('d, 'w) zk_conn \<Rightarrow> MetadataManager \<Rightarrow> Namespace \<Rightarrow> bool \<Rightarrow> (zkerr + 'd ZkNode, 'w) io" where
  "makeNode Z mgr ns ephemeral = makeNodeWithRetry Z mgr ns ephemeral 0 10"

text \<open>
  Making a node with data. Where the node exists, \<open>Get\<close> and \<open>Set\<close> assign to an \<^verbatim>\<open>err\<close> of an inner
  scope, so their errors never reach the test after the block.
\<close>

definition make_data_attempt ::
  "('d, 'w) zk_conn \<Rightarrow> Namespace \<Rightarrow> 'd option \<Rightarrow> bool \<Rightarrow> (zkerr option, 'w) io" where
  "make_data_attempt Z ns data ephemeral w =
     (let path = GetZKPath ns; ((exists, err), w1) = zk_Exists Z path w
      in if err \<noteq> None then (Inr err, w1)
         else if exists then
           let ((_, stat, err1), w2) = zk_Get Z path w1
           in (case err1 of
                 Some _ \<Rightarrow> (Inr None, w2)
               | None \<Rightarrow>
                   (case stat of
                      None \<Rightarrow> (Inl NilDereference, w2)
                    | Some version \<Rightarrow>
                        let ((_, _), w3) = zk_Set Z path data version w2 in (Inr None, w3)))
         else let (err1, w2) = zk_Create Z path data ephemeral w1 in (Inr err1, w2))"

function makeNodeWithDataWithRetry ::
  "('d, 'w) zk_conn \<Rightarrow> MetadataManager \<Rightarrow> Namespace \<Rightarrow> 'd option \<Rightarrow> bool \<Rightarrow> int \<Rightarrow> int
     \<Rightarrow> (zkerr + 'd ZkNode, 'w) io" where
  "makeNodeWithDataWithRetry Z mgr ns data ephemeral currentRetry retry w =
     (case make_data_attempt Z ns data ephemeral w of
        (Inl p, w1) \<Rightarrow> (Inl p, w1)
      | (Inr None, w1) \<Rightarrow> getNode Z mgr ns w1
      | (Inr (Some e), w1) \<Rightarrow>
          if currentRetry \<ge> retry then (Inl (LogPanic ''Error persisting data''), w1)
          else (case CreateConnection Z mgr w1 of
                  (Inl p, w2) \<Rightarrow> (Inl p, w2)
                | (Inr _, w2) \<Rightarrow>
                    makeNodeWithDataWithRetry Z mgr ns data ephemeral (currentRetry + 1) retry w2))"
  by pat_completeness auto
termination
  by (relation "measure (\<lambda>(Z, mgr, ns, data, ephemeral, currentRetry, retry, w). nat (retry - currentRetry))") auto

declare makeNodeWithDataWithRetry.simps [simp del]

definition makeNodeWithData ::
  "('d, 'w) zk_conn \<Rightarrow> MetadataManager \<Rightarrow> Namespace \<Rightarrow> 'd option \<Rightarrow> bool \<Rightarrow> (zkerr + 'd ZkNode, 'w) io" where
  "makeNodeWithData Z mgr ns data ephemeral = makeNodeWithDataWithRetry Z mgr ns data ephemeral 0 10"

section \<open>Operations on a node\<close>

definition slash_panic :: panic where
  "slash_panic = LogPanic ''Error, name of subnode cannot contain /''"

definition MakeEmptyChild :: "'d ZkNode \<Rightarrow> string \<Rightarrow> 'd ZkNode result" where
  "MakeEmptyChild node name =
     (if contains_char name CHR ''/'' then Inl slash_panic
      else Inr \<lparr>zn_stat = None, zn_data = None, zn_ns = makeSubSpace (zn_ns node) name\<rparr>)"

definition MakeChild ::
  "('d, 'w) zk_conn \<Rightarrow> MetadataManager \<Rightarrow> 'd ZkNode \<Rightarrow> string \<Rightarrow> bool \<Rightarrow> (zkerr + 'd ZkNode, 'w) io" where
  "MakeChild Z mgr node name ephemeral w =
     (if contains_char name CHR ''/'' then (Inl slash_panic, w)
      else makeNode Z mgr (makeSubSpace (zn_ns node) name) ephemeral w)"

definition MakeChildWithData ::
  "('d, 'w) zk_conn \<Rightarrow> MetadataManager \<Rightarrow> 'd ZkNode \<Rightarrow> string \<Rightarrow> 'd option \<Rightarrow> bool
     \<Rightarrow> (zkerr + 'd ZkNode, 'w) io" where
  "MakeChildWithData Z mgr node name data ephemeral w =
     (if contains_char name CHR ''/'' then (Inl slash_panic, w)
      else makeNodeWithData Z mgr (makeSubSpace (zn_ns node) name) data ephemeral w)"

definition GetChild ::
  "('d, 'w) zk_conn \<Rightarrow> MetadataManager \<Rightarrow> 'd ZkNode \<Rightarrow> string \<Rightarrow> (zkerr + 'd ZkNode, 'w) io" where
  "GetChild Z mgr node name w =
     (if contains_char name CHR ''/'' then (Inl slash_panic, w)
      else getNode Z mgr (makeSubSpace (zn_ns node) name) w)"

definition CreateChildIfNotExists ::
  "('d, 'w) zk_conn \<Rightarrow> 'd ZkNode \<Rightarrow> string \<Rightarrow> (unit, 'w) io" where
  "CreateChildIfNotExists Z node name w =
     (if contains_char name CHR ''/'' then (Inl slash_panic, w)
      else CreateNSIfNotExists Z (makeSubSpace (zn_ns node) name) False w)"

definition Node_GetChildren ::
  "('d, 'w) zk_conn \<Rightarrow> MetadataManager \<Rightarrow> 'd ZkNode \<Rightarrow> ('d ZkNode list, 'w) io" where
  "Node_GetChildren Z mgr node = getChildren Z mgr (zn_ns node)"

definition Node_GetChildrenW ::
  "('d, 'w) zk_conn \<Rightarrow> MetadataManager \<Rightarrow> 'd ZkNode \<Rightarrow> ('d ZkNode list \<times> nat, 'w) io" where
  "Node_GetChildrenW Z mgr node = getChildrenW Z mgr (zn_ns node)"

text \<open>\<open>encode\<close> turns the URI into data, \<^verbatim>\<open>[]byte(URI)\<close>.\<close>

definition SetupFramework ::
  "('d, 'w) zk_conn \<Rightarrow> (string \<Rightarrow> 'd) \<Rightarrow> MetadataManager \<Rightarrow> string \<Rightarrow> (unit, 'w) io" where
  "SetupFramework Z encode mgr URI w =
     (let (err, w1) = zk_Lock Z (GetZKPath (makeSubSpace (mgr_namespace mgr) ''lock'')) w
      in if err \<noteq> None then (Inl (LogPanic ''Unable to get framework lock''), w1)
         else let (err1, w2) = zk_Create Z (GetZKPath (makeSubSpace (mgr_namespace mgr) ''uri''))
                                 (Some (encode URI)) True w1
              in if err1 \<noteq> None then (Inl (LogPanic ''SetupFramework''), w2) else (Inr (), w2))"

section \<open>Retried operations\<close>

text \<open>
  As a bounded retry, the state of an attempt is the state of the operation, the world, and the error
  of the attempt before, which is what makes the next attempt reconnect.
\<close>

definition reconnected :: "('w \<Rightarrow> panic option \<times> 'w) \<Rightarrow> 'w \<times> zkerr option \<Rightarrow> panic option \<times> 'w" where
  "reconnected reconnect we = (case snd we of None \<Rightarrow> (None, fst we) | Some _ \<Rightarrow> reconnect (fst we))"

definition zk_attempt ::
  "('s \<Rightarrow> 'w \<Rightarrow> ('r + 's \<times> zkerr) \<times> 'w) \<Rightarrow> ('w \<Rightarrow> panic option \<times> 'w) \<Rightarrow> (panic \<Rightarrow> 'r) \<Rightarrow> int
     \<Rightarrow> 's \<times> 'w \<times> zkerr option \<Rightarrow> ('r \<times> 'w) + ('s \<times> 'w \<times> zkerr option)" where
  "zk_attempt try1 reconnect abort c = (\<lambda>(s, we). case reconnected reconnect we of
     (Some p, w) \<Rightarrow> Inl (abort p, w)
   | (None, w) \<Rightarrow> (case try1 s w of
        (Inl r, w1) \<Rightarrow> Inl (r, w1)
      | (Inr (s1, e), w1) \<Rightarrow> Inr (s1, w1, Some e)))"

definition zk_exhausted :: "(zkerr \<Rightarrow> 'r) \<Rightarrow> 's \<times> 'w \<times> zkerr option \<Rightarrow> 'r \<times> 'w" where
  "zk_exhausted give_up = (\<lambda>(s, w, e). (give_up (case e of None \<Rightarrow> ErrOther [] | Some x \<Rightarrow> x), w))"

definition zk_retrying ::
  "(int \<Rightarrow> int \<Rightarrow> 's \<Rightarrow> 'w \<Rightarrow> 'r \<times> 'w) \<Rightarrow> ('w \<Rightarrow> panic option \<times> 'w) \<Rightarrow> (panic \<Rightarrow> 'r) \<Rightarrow> (zkerr \<Rightarrow> 'r)
     \<Rightarrow> int \<Rightarrow> int \<Rightarrow> 's \<times> 'w \<times> zkerr option \<Rightarrow> 'r \<times> 'w" where
  "zk_retrying op reconnect abort give_up c m = (\<lambda>(s, we).
     if m < c then zk_exhausted give_up (s, we)
     else (case reconnected reconnect we of (Some p, w) \<Rightarrow> (abort p, w) | (None, w) \<Rightarrow> op c m s w))"

text \<open>
  The shape all operations above share: one try, and after an error either the last resort, when the
  counter has reached its limit, or a reconnection and the next try.
\<close>

locale zk_retry =
  fixes op :: "int \<Rightarrow> int \<Rightarrow> 's \<Rightarrow> 'w \<Rightarrow> 'r \<times> 'w"
    and try1 :: "'s \<Rightarrow> 'w \<Rightarrow> ('r + 's \<times> zkerr) \<times> 'w"
    and reconnect :: "'w \<Rightarrow> panic option \<times> 'w"
    and abort :: "panic \<Rightarrow> 'r"
    and give_up :: "zkerr \<Rightarrow> 'r"
  assumes op_step: "op c m s w =
    (case try1 s w of
       (Inl r, w1) \<Rightarrow> (r, w1)
     | (Inr (s1, e), w1) \<Rightarrow>
         if m \<le> c then (give_up e, w1)
         else (case reconnect w1 of
                 (Some p, w2) \<Rightarrow> (abort p, w2)
               | (None, w2) \<Rightarrow> op (c + 1) m s1 w2))"
begin

lemma retrying_step:
  "zk_retrying op reconnect abort give_up c m s = (if m < c then zk_exhausted give_up s
     else case zk_attempt try1 reconnect abort c s of Inl r \<Rightarrow> r | Inr s' \<Rightarrow> zk_retrying op reconnect abort give_up (c + 1) m s')"
proof -
  obtain s0 w e where s: "s = (s0, w, e)" by (cases s) auto
  obtain p w1 where rc: "reconnected reconnect (w, e) = (p, w1)" by (cases "reconnected reconnect (w, e)") auto
  obtain t w2 where t: "try1 s0 w1 = (t, w2)" by (cases "try1 s0 w1") auto
  show ?thesis
    unfolding s zk_retrying_def zk_attempt_def prod.case rc
    by (subst op_step)
      (auto simp: t zk_exhausted_def reconnected_def [of _ "(_, Some _)"] split: option.splits sum.splits prod.splits)
qed

lemma op_retrying: "c \<le> m \<Longrightarrow> op c m s w = zk_retrying op reconnect abort give_up c m (s, w, None)"
  by (simp add: zk_retrying_def reconnected_def)

text \<open>The rule for what an operation leaves behind: \<open>J\<close> holds between the attempts.\<close>

lemma op_rule:
  assumes "J s w"
    and "\<And>s w r w'. J s w \<Longrightarrow> try1 s w = (Inl r, w') \<Longrightarrow> Q r w'"
    and "\<And>s w s' e w'. J s w \<Longrightarrow> try1 s w = (Inr (s', e), w') \<Longrightarrow> J s' w' \<and> Q (give_up e) w'"
    and "\<And>s w w'. J s w \<Longrightarrow> reconnect w = (None, w') \<Longrightarrow> J s w'"
    and "\<And>s w p w'. J s w \<Longrightarrow> reconnect w = (Some p, w') \<Longrightarrow> Q (abort p) w'"
  shows "case op c m s w of (r, w') \<Rightarrow> Q r w'"
  using assms(1)
proof (induction "nat (m - c)" arbitrary: c s w rule: less_induct)
  case less
  obtain t w1 where t: "try1 s w = (t, w1)" by (cases "try1 s w") auto
  show ?case
  proof (cases t)
    case (Inl r)
    with t assms(2) [OF less.prems] show ?thesis by (subst op_step) simp
  next
    case (Inr se)
    then obtain s1 e where se: "t = Inr (s1, e)" by (cases se) auto
    with t assms(3) [OF less.prems] have J1: "J s1 w1" and g: "Q (give_up e) w1" by blast+
    obtain p w2 where rc: "reconnect w1 = (p, w2)" by (cases "reconnect w1") auto
    show ?thesis
    proof (cases "m \<le> c")
      case True
      with t se g show ?thesis by (subst op_step) simp
    next
      case False
      then have lt: "nat (m - (c + 1)) < nat (m - c)" by simp
      show ?thesis
      proof (cases p)
        case None
        with assms(4) [OF J1] rc have "J s1 w2" by simp
        from less.hyps [OF lt this] t se False rc None show ?thesis by (subst op_step) simp
      next
        case (Some q)
        with assms(5) [OF J1, of q w2] t se False rc show ?thesis by (subst op_step) simp
      qed
    qed
  qed
qed

end

sublocale zk_retry \<subseteq> retries: bounded_retry "zk_retrying op reconnect abort give_up" "zk_attempt try1 reconnect abort" "zk_exhausted give_up"
  by unfold_locales (rule retrying_step)

context zk_retry
begin

text \<open>
  What an operation started at counter \<open>c\<close> returns: the outcome of an attempt after fewer failures
  than it has attempts, or the last resort after every attempt has failed.
\<close>

lemma op_cases:
  assumes "c \<le> m"
  obtains (finished) k t r where "int k < m + 1 - c" "fails (zk_attempt try1 reconnect abort) c k (s, w, None) t"
      "zk_attempt try1 reconnect abort (c + int k) t = Inl r" "op c m s w = r"
  | (gave_up) t w' e where "fails (zk_attempt try1 reconnect abort) c (nat (m + 1 - c)) (s, w, None) (t, w', Some e)"
      "op c m s w = (give_up e, w')"
proof (cases rule: retries.loop_cases [of m c "(s, w, None)"])
  case (succeeded k t r)
  with assms show thesis by (intro finished) (simp_all add: op_retrying)
next
  case (gave_up t)
  moreover have "\<exists>u w' e. t = (u, w', Some e)"
  proof -
    from assms have "nat (m + 1 - c) = Suc (nat (m - c))" by linarith
    with gave_up(1) obtain c' s' where "zk_attempt try1 reconnect abort c' s' = Inr t" by (metis fails_last)
    then show ?thesis by (auto simp: zk_attempt_def split: prod.splits option.splits sum.splits)
  qed
  ultimately show thesis
    using that(2) assms by (auto simp: op_retrying zk_exhausted_def)
qed

end

text \<open>The operations of the manager as instances: what one try of each is.\<close>

definition reconnect_io :: "('d, 'w) zk_conn \<Rightarrow> MetadataManager \<Rightarrow> 'w \<Rightarrow> panic option \<times> 'w" where
  "reconnect_io Z mgr w = (case CreateConnection Z mgr w of (Inl p, w1) \<Rightarrow> (Some p, w1) | (Inr _, w1) \<Rightarrow> (None, w1))"

definition no_reconnect :: "'w \<Rightarrow> panic option \<times> 'w" where
  "no_reconnect w = (None, w)"

definition try_get ::
  "('d, 'w) zk_conn \<Rightarrow> Namespace \<Rightarrow> unit \<Rightarrow> 'w \<Rightarrow> ((zkerr + 'd ZkNode) result + unit \<times> zkerr) \<times> 'w" where
  "try_get Z ns u w =
     (let ((data, stat, err), w1) = zk_Get Z (GetZKPath ns) w
      in (case err of None \<Rightarrow> Inl (Inr (Inr \<lparr>zn_stat = stat, zn_data = data, zn_ns = ns\<rparr>)) | Some e \<Rightarrow> Inr ((), e), w1))"

definition try_set ::
  "('d, 'w) zk_conn \<Rightarrow> 'd option \<Rightarrow> 'd ZkNode \<Rightarrow> 'w
     \<Rightarrow> (('d ZkNode \<times> zkerr option) result + 'd ZkNode \<times> zkerr) \<times> 'w" where
  "try_set Z data node w =
     (case set_data_attempt Z data node w of
        (Inl p, w1) \<Rightarrow> (Inl (Inl p), w1)
      | (Inr (node1, None), w1) \<Rightarrow> (Inl (Inr (node1, None)), w1)
      | (Inr (node1, Some e), w1) \<Rightarrow> (Inr (node1, e), w1))"

definition try_create ::
  "('d, 'w) zk_conn \<Rightarrow> string \<Rightarrow> bool \<Rightarrow> unit \<Rightarrow> 'w \<Rightarrow> (unit result + unit \<times> zkerr) \<times> 'w" where
  "try_create Z path ephemeral u w =
     (let ((exists, err0), w1) = zk_Exists Z path w;
          (err, w2) = (if err0 = None \<and> \<not> exists then zk_Create Z path None ephemeral w1 else (err0, w1))
      in (case err of None \<Rightarrow> Inl (Inr ()) | Some e \<Rightarrow> Inr ((), e), w2))"

definition try_make_data ::
  "('d, 'w) zk_conn \<Rightarrow> MetadataManager \<Rightarrow> Namespace \<Rightarrow> 'd option \<Rightarrow> bool \<Rightarrow> unit \<Rightarrow> 'w
     \<Rightarrow> ((zkerr + 'd ZkNode) result + unit \<times> zkerr) \<times> 'w" where
  "try_make_data Z mgr ns data ephemeral u w =
     (case make_data_attempt Z ns data ephemeral w of
        (Inl p, w1) \<Rightarrow> (Inl (Inl p), w1)
      | (Inr None, w1) \<Rightarrow> (let (r, w2) = getNode Z mgr ns w1 in (Inl r, w2))
      | (Inr (Some e), w1) \<Rightarrow> (Inr ((), e), w1))"

text \<open>A try that returns its error, for the operations without a reconnection.\<close>

definition try_io :: "(zkerr + 'a, 'w) io \<Rightarrow> unit \<Rightarrow> 'w \<Rightarrow> ('a result + unit \<times> zkerr) \<times> 'w" where
  "try_io m u w =
     (case m w of
        (Inl p, w1) \<Rightarrow> (Inl (Inl p), w1)
      | (Inr (Inr x), w1) \<Rightarrow> (Inl (Inr x), w1)
      | (Inr (Inl e), w1) \<Rightarrow> (Inr ((), e), w1))"

lemmas try_splits = prod.splits sum.splits option.splits

interpretation get: zk_retry "\<lambda>c m u. getNodeWithRetry Z mgr ns c m" "try_get Z ns" "reconnect_io Z mgr" Inl "\<lambda>e. Inr (Inl e)"
  for Z :: "('d, 'w) zk_conn" and mgr ns
  by unfold_locales (subst getNodeWithRetry.simps, auto simp: try_get_def reconnect_io_def Let_def split: try_splits)

interpretation set: zk_retry "SetDataWithRetry Z mgr data" "try_set Z data" "reconnect_io Z mgr" Inl
  "\<lambda>e. Inl (LogPanic ''Error persisting data'')"
  for Z :: "('d, 'w) zk_conn" and mgr data
  by unfold_locales (subst SetDataWithRetry.simps, auto simp: try_set_def reconnect_io_def split: try_splits)

interpretation create: zk_retry "\<lambda>c m u. createIfNotExistsWithRetry Z path ephemeral c m" "try_create Z path ephemeral"
  no_reconnect Inl "\<lambda>e. Inl (LogPanic ''createIfNotExists'')"
  for Z :: "('d, 'w) zk_conn" and path ephemeral
  by unfold_locales
    (subst createIfNotExistsWithRetry.simps, auto simp: try_create_def no_reconnect_def Let_def split: try_splits)

interpretation root: zk_retry "\<lambda>c m u. GetRootNodeWithRetry Z mgr c m" "try_io (getNode Z mgr (mgr_namespace mgr))"
  no_reconnect Inl "\<lambda>e. Inl (LogPanic ''Could not get Root node'')"
  for Z :: "('d, 'w) zk_conn" and mgr
  by unfold_locales (subst GetRootNodeWithRetry.simps, auto simp: try_io_def no_reconnect_def split: try_splits)

interpretation children: zk_retry "\<lambda>c m u. getChildrenWithRetry Z mgr ns c m" "try_io (children_attempt Z mgr ns)"
  no_reconnect Inl "\<lambda>e. Inl (LogPanic ''getChildren'')"
  for Z :: "('d, 'w) zk_conn" and mgr ns
  by unfold_locales (subst getChildrenWithRetry.simps, auto simp: try_io_def no_reconnect_def split: try_splits)

interpretation childrenW: zk_retry "\<lambda>c m u. getChildrenWWithRetry Z mgr ns c m" "try_io (childrenW_attempt Z mgr ns)"
  no_reconnect Inl "\<lambda>e. Inl (LogPanic ''getChildrenW'')"
  for Z :: "('d, 'w) zk_conn" and mgr ns
  by unfold_locales (subst getChildrenWWithRetry.simps, auto simp: try_io_def no_reconnect_def split: try_splits)

interpretation make_data: zk_retry "\<lambda>c m u. makeNodeWithDataWithRetry Z mgr ns data ephemeral c m"
  "try_make_data Z mgr ns data ephemeral" "reconnect_io Z mgr" Inl "\<lambda>e. Inl (LogPanic ''Error persisting data'')"
  for Z :: "('d, 'w) zk_conn" and mgr ns data ephemeral
  by unfold_locales
    (subst makeNodeWithDataWithRetry.simps, auto simp: try_make_data_def reconnect_io_def split: try_splits)

section \<open>What the store promises\<close>

text \<open>
  The documented behaviour of ZooKeeper for the persistent nodes this client alone writes: \<open>tree\<close> is
  what the server holds. A call that succeeds has its effect; one that fails had it or had it not, since
  the connection can be lost after the request was applied. Reading, connecting and closing change
  nothing, and a call for one path leaves every other path alone. The law of creating stands by itself, as
  it may be asked for ephemeral nodes as well, as long as the session that made them lasts.
\<close>

definition create_law :: "('d, 'w) zk_conn \<Rightarrow> ('w \<Rightarrow> string \<Rightarrow> 'd option option) \<Rightarrow> bool \<Rightarrow> bool" where
  "create_law Z tree ephemeral \<longleftrightarrow> (\<forall>p d w err w'. zk_Create Z p d ephemeral w = (err, w') \<longrightarrow>
     tree w' = (tree w)(p := Some d) \<or> err \<noteq> None \<and> tree w' = tree w)"

locale zookeeper =
  fixes Z :: "('d, 'w) zk_conn"
    and tree :: "'w \<Rightarrow> string \<Rightarrow> 'd option option"
  assumes get_ok: "zk_Get Z p w = ((d, st, None), w') \<Longrightarrow> tree w p = Some d \<and> st \<noteq> None"
    and get_absent: "zk_Get Z p w = ((d, st, Some ErrNoNode), w') \<Longrightarrow> tree w p = None"
    and get_tree: "zk_Get Z p w = (r, w') \<Longrightarrow> tree w' = tree w"
    and set_ok: "zk_Set Z p d v w = ((st, None), w') \<Longrightarrow> tree w' = (tree w)(p := Some d) \<and> st \<noteq> None"
    and set_err: "zk_Set Z p d v w = ((st, Some e), w') \<Longrightarrow> tree w' = tree w \<or> tree w' = (tree w)(p := Some d)"
    and create_ok: "zk_Create Z p d False w = (None, w') \<Longrightarrow> tree w' = (tree w)(p := Some d)"
    and create_err: "zk_Create Z p d False w = (Some e, w') \<Longrightarrow> tree w' = tree w \<or> tree w' = (tree w)(p := Some d)"
    and exists_ok: "zk_Exists Z p w = ((b, None), w') \<Longrightarrow> b \<longleftrightarrow> tree w p \<noteq> None"
    and exists_tree: "zk_Exists Z p w = (rx, w') \<Longrightarrow> tree w' = tree w"
    and close_tree: "tree (zk_Close Z w) = tree w"
    and connect_tree: "zk_Connect Z ss w = (rc, w') \<Longrightarrow> tree w' = tree w"
begin

lemma CreateConnection_tree: "CreateConnection Z mgr w = (r, w') \<Longrightarrow> tree w' = tree w"
  by (auto simp: CreateConnection_def Let_def close_tree split: option.splits zk_state.splits prod.splits
      dest!: connect_tree)

lemma reconnect_tree: "reconnect_io Z mgr w = (r, w') \<Longrightarrow> tree w' = tree w"
  by (auto simp: reconnect_io_def split: prod.splits sum.splits dest: CreateConnection_tree)

text \<open>One attempt to write: done, or with the old or the new data in place.\<close>

lemma set_data_attempt_tree:
  assumes "set_data_attempt Z data node w = (r, w')"
  defines "p \<equiv> GetZKPath (zn_ns node)"
  shows "case r of
      Inl q \<Rightarrow> False
    | Inr (node', err) \<Rightarrow> zn_ns node' = zn_ns node \<and>
        (case err of None \<Rightarrow> tree w' = (tree w)(p := Some data) \<and> zn_stat node' \<noteq> None
         | Some _ \<Rightarrow> tree w' = tree w \<or> tree w' = (tree w)(p := Some data))"
proof (cases "zn_stat node")
  case None
  obtain err1 w1 where c: "zk_Create Z p data False w = (err1, w1)" by (cases "zk_Create Z p data False w") auto
  obtain d2 st2 err2 w2 where g: "zk_Get Z p w1 = ((d2, st2, err2), w2)"
    by (cases "zk_Get Z p w1") auto
  show ?thesis
  proof (cases err1)
    case (Some e)
    with None c assms(1) create_err [of p data w e w1] show ?thesis
      unfolding set_data_attempt_def p_def by auto
  next
    case err1: None
    with c have t: "tree w1 = (tree w)(p := Some data)" by (simp add: create_ok)
    from g have "tree w2 = tree w1" by (rule get_tree)
    moreover have "err2 = None \<Longrightarrow> st2 \<noteq> None" using get_ok [of p w1 d2 st2 w2] g by simp
    ultimately show ?thesis
      using None err1 c g t assms(1) unfolding set_data_attempt_def p_def by (auto split: option.splits)
  qed
next
  case (Some v0)
  obtain d1 st1 err1 w1 where g: "zk_Get Z p w = ((d1, st1, err1), w1)"
    by (cases "zk_Get Z p w") auto
  then have t1: "tree w1 = tree w" by (rule get_tree)
  show ?thesis
  proof (cases err1)
    case err1: (Some e)
    with Some g t1 assms(1) show ?thesis unfolding set_data_attempt_def p_def by auto
  next
    case None
    with g get_ok [of p w d1 st1 w1] obtain v where v: "st1 = Some v" by auto
    obtain st2 err2 w2 where s: "zk_Set Z p data v w1 = ((st2, err2), w2)"
      by (cases "zk_Set Z p data v w1") auto
    from s set_ok [of p data v w1 st2 w2] set_err [of p data v w1 st2 _ w2] t1
    have "case err2 of None \<Rightarrow> tree w2 = (tree w)(p := Some data) \<and> st2 \<noteq> None
      | Some _ \<Rightarrow> tree w2 = tree w \<or> tree w2 = (tree w)(p := Some data)"
      by (auto split: option.splits)
    with Some None g v s assms(1) show ?thesis
      unfolding set_data_attempt_def p_def by (auto split: option.splits)
  qed
qed

text \<open>
  Writing: when \<open>SetData\<close> returns, it returns no error and the data are in place; when it panics, the
  old or the new data are. No other path changes.
\<close>

lemma SetData_tree:
  assumes "SetData Z mgr data node w = (r, w')"
  defines "p \<equiv> GetZKPath (zn_ns node)"
  shows "case r of
      Inl q \<Rightarrow> tree w' = tree w \<or> tree w' = (tree w)(p := Some data)
    | Inr (node', err) \<Rightarrow> err = None \<and> tree w' = (tree w)(p := Some data) \<and> zn_ns node' = zn_ns node \<and>
        zn_stat node' \<noteq> None"
proof -
  let ?J = "\<lambda>n u. zn_ns n = zn_ns node \<and> (tree u = tree w \<or> tree u = (tree w)(p := Some data))"
  let ?Q = "\<lambda>r u. case r of
      Inl q \<Rightarrow> tree u = tree w \<or> tree u = (tree w)(p := Some data)
    | Inr (node', err) \<Rightarrow> err = None \<and> tree u = (tree w)(p := Some data) \<and> zn_ns node' = zn_ns node \<and>
        zn_stat node' \<noteq> None"
  have "case SetDataWithRetry Z mgr data 0 10 node w of (r, w') \<Rightarrow> ?Q r w'"
  proof (rule set.op_rule [where J = ?J])
    show "?J node w" by simp
  next
    fix s u r u'
    assume "?J s u" and "try_set Z data s u = (Inl r, u')"
    then show "?Q r u'"
      using set_data_attempt_tree [of data s u]
      by (fastforce simp: try_set_def p_def split: prod.splits sum.splits option.splits)
  next
    fix s u s' e u'
    assume "?J s u" and "try_set Z data s u = (Inr (s', e), u')"
    then show "?J s' u' \<and> ?Q (Inl (LogPanic ''Error persisting data'')) u'"
      using set_data_attempt_tree [of data s u]
      by (fastforce simp: try_set_def p_def split: prod.splits sum.splits option.splits)
  qed (auto dest: reconnect_tree)
  with assms(1) show ?thesis by (simp add: SetData_def)
qed

text \<open>Reading a node changes nothing, and what is returned was there when it was read.\<close>

lemma getNode_tree:
  assumes "getNode Z mgr ns w = (r, w')"
  shows "tree w' = tree w \<and>
    (case r of
       Inl q \<Rightarrow> True
     | Inr (Inl e) \<Rightarrow> e = ErrNoNode \<longrightarrow> tree w (GetZKPath ns) = None
     | Inr (Inr node) \<Rightarrow> tree w (GetZKPath ns) = Some (zn_data node) \<and> zn_ns node = ns \<and> zn_stat node \<noteq> None)"
proof -
  let ?Q = "\<lambda>r u. tree u = tree w \<and>
    (case r of
       Inl q \<Rightarrow> True
     | Inr (Inl e) \<Rightarrow> e = ErrNoNode \<longrightarrow> tree w (GetZKPath ns) = None
     | Inr (Inr node) \<Rightarrow> tree w (GetZKPath ns) = Some (zn_data node) \<and> zn_ns node = ns \<and> zn_stat node \<noteq> None)"
  have "case getNodeWithRetry Z mgr ns 0 10 w of (r, u) \<Rightarrow> ?Q r u"
  proof (rule get.op_rule [where J = "\<lambda>u v. tree v = tree w"])
    fix u :: unit and v r v'
    assume "tree v = tree w" and "try_get Z ns u v = (Inl r, v')"
    then show "?Q r v'"
      using get_ok [of "GetZKPath ns" v] get_tree [of "GetZKPath ns" v]
      by (auto simp: try_get_def split: prod.splits option.splits)
  next
    fix u :: unit and v u' e v'
    assume v: "tree v = tree w" and t: "try_get Z ns u v = (Inr (u', e), v')"
    then obtain d st where g: "zk_Get Z (GetZKPath ns) v = ((d, st, Some e), v')"
      by (auto simp: try_get_def split: prod.splits option.splits)
    from v g get_tree [OF g] get_absent [of "GetZKPath ns" v d st v']
    show "tree v' = tree w \<and> ?Q (Inr (Inl e)) v'" by auto
  qed (auto dest: reconnect_tree)
  with assms show ?thesis by (simp add: getNode_def)
qed

lemma GetRootNode_tree:
  assumes "GetRootNode Z mgr w = (r, w')"
  shows "tree w' = tree w \<and> (case r of Inl q \<Rightarrow> True | Inr node \<Rightarrow> zn_ns node = mgr_namespace mgr)"
proof -
  let ?Q = "\<lambda>r u. tree u = tree w \<and> (case r of Inl q \<Rightarrow> True | Inr node \<Rightarrow> zn_ns node = mgr_namespace mgr)"
  have "case GetRootNodeWithRetry Z mgr 0 10 w of (r, u) \<Rightarrow> ?Q r u"
  proof (rule root.op_rule [where J = "\<lambda>u v. tree v = tree w"])
    fix u :: unit and v r v'
    assume "tree v = tree w" and "try_io (getNode Z mgr (mgr_namespace mgr)) u v = (Inl r, v')"
    then show "?Q r v'"
      using getNode_tree [of mgr "mgr_namespace mgr" v]
      by (auto simp: try_io_def split: prod.splits sum.splits)
  next
    fix u :: unit and v u' e v'
    assume "tree v = tree w" and "try_io (getNode Z mgr (mgr_namespace mgr)) u v = (Inr (u', e), v')"
    then show "tree v' = tree w \<and> ?Q (Inl (LogPanic ''Could not get Root node'')) v'"
      using getNode_tree [of mgr "mgr_namespace mgr" v]
      by (auto simp: try_io_def split: prod.splits sum.splits)
  qed (auto simp: no_reconnect_def)
  with assms show ?thesis by (simp add: GetRootNode_def)
qed

lemma create_law_persistent: "create_law Z tree False"
  unfolding create_law_def using create_ok create_err by (metis option.exhaust)

text \<open>
  Making a node that is absent: when a node is returned, it holds the data it was made with. This holds of
  ephemeral nodes too, where creating those keeps the law.
\<close>

lemma make_data_attempt_law:
  assumes "make_data_attempt Z ns data e w = (r, w')" and "create_law Z tree e"
    and "tree w (GetZKPath ns) = None \<or> tree w (GetZKPath ns) = Some data"
  shows "(tree w' = tree w \<or> tree w' = (tree w)(GetZKPath ns := Some data)) \<and>
    (r = Inr None \<longrightarrow> tree w' = (tree w)(GetZKPath ns := Some data))"
proof -
  let ?p = "GetZKPath ns"
  obtain b err w1 where x: "zk_Exists Z ?p w = ((b, err), w1)" by (cases "zk_Exists Z ?p w") auto
  note t1 = exists_tree [OF x]
  show ?thesis
  proof (cases "err = None \<and> b")
    case True
    with x have "tree w ?p \<noteq> None" using exists_ok [of ?p w b w1] by auto
    with assms(3) have u: "tree w = (tree w)(?p := Some data)" by (auto simp: fun_eq_iff)
    obtain d st err1 w2 where g: "zk_Get Z ?p w1 = ((d, st, err1), w2)" by (cases "zk_Get Z ?p w1") auto
    note t2 = get_tree [OF g]
    show ?thesis
    proof (cases "err1 = None \<and> st \<noteq> None")
      case v: True
      then obtain version where v1: "st = Some version" by auto
      obtain st2 err2 w3 where c: "zk_Set Z ?p data version w2 = ((st2, err2), w3)"
        by (cases "zk_Set Z ?p data version w2") auto
      have "tree w3 = tree w2 \<or> tree w3 = (tree w2)(?p := Some data)"
        using set_ok [of ?p data version w2 st2 w3] set_err [of ?p data version w2 st2 _ w3] c by (cases err2) auto
      with t1 t2 u have "tree w3 = (tree w)(?p := Some data)" by auto
      with v v1 c assms(1) True x g show ?thesis by (simp add: make_data_attempt_def)
    next
      case False
      with assms(1) True x g t1 t2 u show ?thesis
        by (auto simp: make_data_attempt_def split: option.splits)
    qed
  next
    case False
    obtain err1 w2 where c: "zk_Create Z ?p data e w1 = (err1, w2)" by (cases "zk_Create Z ?p data e w1") auto
    have "tree w2 = tree w1 \<or> tree w2 = (tree w1)(?p := Some data)" "err1 = None \<Longrightarrow> tree w2 = (tree w1)(?p := Some data)"
      using assms(2) c unfolding create_law_def by metis+
    with assms(1) x c t1 False show ?thesis
      by (cases err) (auto simp: make_data_attempt_def Let_def)
  qed
qed

lemma makeNodeWithData_law:
  assumes "makeNodeWithData Z mgr ns data e w = (r, w')" and "create_law Z tree e" and "tree w (GetZKPath ns) = None"
  shows "(tree w' = tree w \<or> tree w' = (tree w)(GetZKPath ns := Some data)) \<and>
    (\<forall>node. r = Inr (Inr node) \<longrightarrow> zn_ns node = ns \<and> zn_stat node \<noteq> None \<and> zn_data node = data \<and>
       tree w' = (tree w)(GetZKPath ns := Some data))"
proof -
  let ?p = "GetZKPath ns"
  let ?J = "\<lambda>u v. tree v = tree w \<or> tree v = (tree w)(?p := Some data)"
  let ?Q = "\<lambda>r v. ?J () v \<and> (\<forall>node. r = Inr (Inr node) \<longrightarrow> zn_ns node = ns \<and> zn_stat node \<noteq> None \<and>
      zn_data node = data \<and> tree v = (tree w)(?p := Some data))"
  have "case makeNodeWithDataWithRetry Z mgr ns data e 0 10 w of (r, u) \<Rightarrow> ?Q r u"
  proof (rule make_data.op_rule [where J = ?J])
    show "?J () w" by simp
  next
    fix u :: unit and v r v'
    assume j: "?J u v" and t: "try_make_data Z mgr ns data e u v = (Inl r, v')"
    obtain q v1 where m: "make_data_attempt Z ns data e v = (q, v1)"
      by (cases "make_data_attempt Z ns data e v") auto
    have a: "(tree v1 = tree v \<or> tree v1 = (tree v)(?p := Some data)) \<and> (q = Inr None \<longrightarrow> tree v1 = (tree v)(?p := Some data))"
      by (rule make_data_attempt_law [OF m assms(2)]) (use j assms(3) in auto)
    show "?Q r v'"
    proof (cases "q = Inr None")
      case True
      obtain r2 v2 where g: "getNode Z mgr ns v1 = (r2, v2)" by (cases "getNode Z mgr ns v1") auto
      from True m t g have r: "r = r2" "v' = v2" by (simp_all add: try_make_data_def)
      from a True j have "tree v1 = (tree w)(?p := Some data)" by auto
      with getNode_tree [OF g] r show ?thesis by auto
    next
      case False
      with m t have "v' = v1" "\<exists>p. r = Inl p" by (auto simp: try_make_data_def split: sum.splits option.splits)
      with a j show ?thesis by auto
    qed
  next
    fix u :: unit and v u' er v'
    assume j: "?J u v" and t: "try_make_data Z mgr ns data e u v = (Inr (u', er), v')"
    obtain q v1 where m: "make_data_attempt Z ns data e v = (q, v1)"
      by (cases "make_data_attempt Z ns data e v") auto
    have "tree v1 = tree v \<or> tree v1 = (tree v)(?p := Some data)"
      using make_data_attempt_law [OF m assms(2)] j assms(3) by auto
    moreover have "v' = v1"
      using t m by (auto simp: try_make_data_def split: sum.splits option.splits prod.splits)
    ultimately show "?J u' v' \<and> ?Q (Inl (LogPanic ''Error persisting data'')) v'" using j by auto
  qed (auto dest: reconnect_tree)
  with assms(1) show ?thesis by (simp add: makeNodeWithData_def)
qed

lemma makeNodeWithData_tree:
  assumes "makeNodeWithData Z mgr ns data False w = (r, w')" and "tree w (GetZKPath ns) = None"
  shows "(tree w' = tree w \<or> tree w' = (tree w)(GetZKPath ns := Some data)) \<and>
    (\<forall>node. r = Inr (Inr node) \<longrightarrow> zn_ns node = ns \<and> zn_stat node \<noteq> None \<and> zn_data node = data \<and>
       tree w' = (tree w)(GetZKPath ns := Some data))"
  using makeNodeWithData_law [OF assms(1) create_law_persistent assms(2)] .

text \<open>Creating missing components leaves every other path alone.\<close>

lemma createIfNotExists_tree:
  assumes "createIfNotExists Z p False w = (r, w')" and "q \<noteq> p"
  shows "tree w' q = tree w q"
proof -
  have try1: "tree v' q = tree w q" if "tree v q = tree w q" "try_create Z p False u v = (t, v')" for u v t v'
  proof -
    obtain b err w1 where x: "zk_Exists Z p v = ((b, err), w1)" by (cases "zk_Exists Z p v") auto
    obtain err1 w2 where c: "zk_Create Z p None False w1 = (err1, w2)" by (cases "zk_Create Z p None False w1") auto
    have "tree w2 q = tree w1 q"
      using create_ok [of p None w1 w2] create_err [of p None w1 _ w2] c assms(2) by (cases err1) auto
    with that x c exists_tree [OF x] show ?thesis by (auto simp: try_create_def split: if_splits)
  qed
  have "case createIfNotExistsWithRetry Z p False 0 10 w of (r, u) \<Rightarrow> tree u q = tree w q"
    by (rule create.op_rule [where J = "\<lambda>u v. tree v q = tree w q"]) (auto simp: no_reconnect_def dest: try1)
  with assms show ?thesis by (simp add: createIfNotExists_def)
qed

end

section \<open>Paths\<close>

text \<open>
  Names of subnodes contain no slash, which \<open>MakeChild\<close> and its kin enforce, so the path of a
  namespace determines it.
\<close>

fun slash_free :: "Namespace \<Rightarrow> bool" where
  "slash_free baseNamespace = True"
| "slash_free (SubNamespace parent component) \<longleftrightarrow> slash_free parent \<and> CHR ''/'' \<notin> set component"

lemma join_strings_snoc: "xs \<noteq> [] \<Longrightarrow> join_strings (xs @ [x]) sep = join_strings xs sep @ sep @ x"
  by (induction xs sep rule: join_strings.induct) auto

lemma GetComponents_not_Nil [simp]: "GetComponents ns \<noteq> []"
  by (cases ns) auto

lemma components_path_inj:
  "slash_free a \<Longrightarrow> slash_free b \<Longrightarrow>
    join_strings (GetComponents a) ''/'' = join_strings (GetComponents b) ''/'' \<longleftrightarrow> a = b"
proof (induction a arbitrary: b)
  case baseNamespace
  then show ?case by (cases b) (auto simp: join_strings_snoc)
next
  case (SubNamespace p c)
  then show ?case
  proof (cases b)
    case baseNamespace
    then show ?thesis by (simp add: join_strings_snoc)
  next
    case (SubNamespace q d)
    with SubNamespace.prems SubNamespace.IH [of q] show ?thesis
      by (simp add: join_strings_snoc append_sep_eq_iff)
  qed
qed

lemma GetZKPath_Sub: "GetZKPath (SubNamespace p c) = join_strings (GetComponents (SubNamespace p c)) ''/''"
  by simp

lemma GetZKPath_inj:
  "slash_free (SubNamespace p c) \<Longrightarrow> slash_free (SubNamespace q d) \<Longrightarrow>
    GetZKPath (SubNamespace p c) = GetZKPath (SubNamespace q d) \<longleftrightarrow> p = q \<and> c = d"
  unfolding GetZKPath_Sub using components_path_inj [of "SubNamespace p c" "SubNamespace q d"] by simp

section \<open>A store in memory\<close>

text \<open>
  A server with its nodes, a connection, and a script of faults: a call that meets a fault fails with a
  closed connection and changes nothing. The laws above can hold.
\<close>

record 'd mem_world =
  mw_nodes :: "(string, 'd option \<times> int) fmap"
  mw_faults :: "bool list"
  mw_conn :: bool

definition mem_call :: "('d mem_world \<Rightarrow> 'r \<times> 'd mem_world) \<Rightarrow> 'r \<Rightarrow> 'd mem_world \<Rightarrow> 'r \<times> 'd mem_world" where
  "mem_call f failed w =
     (case mw_faults w of
        [] \<Rightarrow> f w
      | b # bs \<Rightarrow> if b then (failed, w\<lparr>mw_faults := bs\<rparr>) else f (w\<lparr>mw_faults := bs\<rparr>))"

definition mem_zk :: "('d, 'd mem_world) zk_conn" where
  "mem_zk = \<lparr>
     zk_Get = (\<lambda>p. mem_call (\<lambda>w. (case fmlookup (mw_nodes w) p of
         None \<Rightarrow> (None, Some 0, Some ErrNoNode) | Some (d, v) \<Rightarrow> (d, Some v, None), w))
       (None, Some 0, Some ErrConnectionClosed)),
     zk_Set = (\<lambda>p d v. mem_call (\<lambda>w. (case fmlookup (mw_nodes w) p of
         None \<Rightarrow> ((Some 0, Some ErrNoNode), w)
       | Some (d0, v0) \<Rightarrow>
           if v0 = v then ((Some (v + 1), None), w\<lparr>mw_nodes := fmupd p (d, v + 1) (mw_nodes w)\<rparr>)
           else ((Some 0, Some ErrBadVersion), w)))
       (Some 0, Some ErrConnectionClosed)),
     zk_Create = (\<lambda>p d e. mem_call (\<lambda>w. (case fmlookup (mw_nodes w) p of
         None \<Rightarrow> (None, w\<lparr>mw_nodes := fmupd p (d, 0) (mw_nodes w)\<rparr>)
       | Some _ \<Rightarrow> (Some ErrNodeExists, w)))
       (Some ErrConnectionClosed)),
     zk_Exists = (\<lambda>p. mem_call (\<lambda>w. ((fmlookup (mw_nodes w) p \<noteq> None, None), w)) (False, Some ErrConnectionClosed)),
     zk_Children = (\<lambda>p w. (([], None), w)),
     zk_ChildrenW = (\<lambda>p w. (([], 0, None), w)),
     zk_State = (\<lambda>w. if mw_conn w then Some StateHasSession else None),
     zk_Close = (\<lambda>w. w\<lparr>mw_conn := False\<rparr>),
     zk_Connect = (\<lambda>ss w. (None, w\<lparr>mw_conn := True\<rparr>)),
     zk_Lock = (\<lambda>p w. (None, w))\<rparr>"

definition mem_tree :: "'d mem_world \<Rightarrow> string \<Rightarrow> 'd option option" where
  "mem_tree w p = map_option fst (fmlookup (mw_nodes w) p)"

lemma mem_tree_simps [simp]:
  "mem_tree (w\<lparr>mw_faults := bs\<rparr>) = mem_tree w"
  "mem_tree (w\<lparr>mw_conn := b\<rparr>) = mem_tree w"
  "mem_tree (w\<lparr>mw_nodes := fmupd p (d, v) (mw_nodes w)\<rparr>) = (mem_tree w)(p := Some d)"
  "mem_tree (w\<lparr>mw_nodes := fmupd p (d, v) (mw_nodes w), mw_faults := bs\<rparr>) = (mem_tree w)(p := Some d)"
  "mem_tree (w\<lparr>mw_faults := bs, mw_nodes := fmupd p (d, v) (mw_nodes w)\<rparr>) = (mem_tree w)(p := Some d)"
  by (auto simp: mem_tree_def fun_eq_iff)

lemma mem_tree_Some: "fmlookup (mw_nodes w) p = Some (d, v) \<Longrightarrow> mem_tree w p = Some d"
  by (simp add: mem_tree_def)

interpretation mem: zookeeper mem_zk mem_tree
  by unfold_locales
    (auto simp: mem_zk_def mem_call_def mem_tree_Some split: list.splits option.splits if_splits prod.splits,
     auto simp: mem_tree_def)

section \<open>Properties\<close>

text \<open>
  C18: Persisting is all or nothing. When \<open>SetData\<close> returns, it returns a nil error and the store holds
  exactly the data under the node's path; when it panics instead, the store holds the old data or the
  new. No other path of the store changes in either case.
\<close>

theorem set_data_durable:
  assumes "zookeeper Z tree" and "SetData Z mgr data node w = (r, w')"
  shows "case r of
      Inl q \<Rightarrow> tree w' = tree w \<or> tree w' = (tree w)(GetZKPath (zn_ns node) := Some data)
    | Inr (node', err) \<Rightarrow> err = None \<and> tree w' = (tree w)(GetZKPath (zn_ns node) := Some data) \<and>
        zn_ns node' = zn_ns node \<and> zn_stat node' \<noteq> None"
  using assms by (rule zookeeper.SetData_tree)

definition ex_mgr :: MetadataManager where
  "ex_mgr = \<lparr>mgr_frameworkID = ''riak'', mgr_zookeepers = [''zk1:2181'']\<rparr>"

definition ex_zk_node :: "string ZkNode" where
  "ex_zk_node = \<lparr>zn_stat = Some 0, zn_data = Some ''old'', zn_ns = makeSubSpace (mgr_namespace ex_mgr) ''SchedulerState''\<rparr>"

definition ex_world :: "bool list \<Rightarrow> string mem_world" where
  "ex_world faults = \<lparr>mw_nodes = fmupd ''/riak/frameworks/riak/SchedulerState'' (Some ''old'', 0) fmempty,
     mw_faults = faults, mw_conn = True\<rparr>"

lemma ex_path: "GetZKPath (zn_ns ex_zk_node) = ''/riak/frameworks/riak/SchedulerState''"
  by (simp add: ex_zk_node_def mgr_namespace_def makeSubSpace_def ex_mgr_def)

theorem set_data_durable_witness:
  "zookeeper mem_zk (mem_tree :: string mem_world \<Rightarrow> _) \<and>
   (\<exists>node' w'. SetData mem_zk ex_mgr (Some ''new'') ex_zk_node (ex_world [True, False, True]) = (Inr (node', None), w') \<and>
      mem_tree w' ''/riak/frameworks/riak/SchedulerState'' = Some (Some ''new''))"
proof -
  obtain r w' where s: "SetData mem_zk ex_mgr (Some ''new'') ex_zk_node (ex_world [True, False, True]) = (r, w')"
    by (cases "SetData mem_zk ex_mgr (Some ''new'') ex_zk_node (ex_world [True, False, True])") auto
  have "isl (fst (SetData mem_zk ex_mgr (Some ''new'') ex_zk_node (ex_world [True, False, True]))) = False"
    by code_simp
  with s obtain node' err where r: "r = Inr (node', err)" by (cases r) auto
  from set_data_durable [OF mem.zookeeper_axioms s] s r mem.zookeeper_axioms show ?thesis
    by (auto simp: ex_path)
qed

text \<open>
  \<open>SetData\<close> tolerates ten failures: it makes eleven attempts, and if after fewer than eleven failed
  ones an attempt writes the data, it returns what that attempt returned.
\<close>

theorem set_data_eleven_attempts:
  assumes "fails (zk_attempt (try_set Z data) (reconnect_io Z mgr) Inl) 0 k (node, w, None) t" and "k \<le> 10"
    and "zk_attempt (try_set Z data) (reconnect_io Z mgr) Inl (int k) t = Inl (Inr (node', None), w')"
  shows "SetData Z mgr data node w = (Inr (node', None), w')"
proof -
  have "zk_retrying (SetDataWithRetry Z mgr data) (reconnect_io Z mgr) Inl
      (\<lambda>e. Inl (LogPanic ''Error persisting data'')) 0 10 (node, w, None) = (Inr (node', None), w')"
    using assms(2,3) by (intro set.retries.loop_succeeds [OF assms(1)]) (auto simp: of_nat_less_iff)
  then show ?thesis by (simp add: SetData_def flip: set.op_retrying)
qed

lemma ex_attempt_fails:
  "zk_attempt (try_set mem_zk (Some ''new'')) (reconnect_io mem_zk ex_mgr) Inl c (ex_zk_node, ex_world (True # bs), None) =
    Inr (ex_zk_node\<lparr>zn_data := None\<rparr>, ex_world bs, Some ErrConnectionClosed)"
  by (simp add: zk_attempt_def reconnected_def try_set_def set_data_attempt_def mem_zk_def mem_call_def
      ex_zk_node_def ex_world_def)

theorem set_data_eleven_attempts_witness:
  "\<exists>node' w' t. fails (zk_attempt (try_set mem_zk (Some ''new'')) (reconnect_io mem_zk ex_mgr) Inl) 0 1
       (ex_zk_node, ex_world [True], None) t \<and> (1 :: nat) \<le> 10 \<and>
     SetData mem_zk ex_mgr (Some ''new'') ex_zk_node (ex_world [True]) = (Inr (node', None), w')"
proof -
  let ?a = "zk_attempt (try_set mem_zk (Some ''new'')) (reconnect_io mem_zk ex_mgr) Inl"
  let ?t = "(ex_zk_node\<lparr>zn_data := None\<rparr>, ex_world [], Some ErrConnectionClosed)"
  have f: "fails ?a 0 1 (ex_zk_node, ex_world [True], None) ?t"
    unfolding One_nat_def by (rule fails_Suc, rule ex_attempt_fails, rule fails_0)
  have "\<exists>node' w'. ?a (int 1) ?t = Inl (Inr (node', None), w')"
    by (simp add: zk_attempt_def reconnected_def try_set_def set_data_attempt_def mem_zk_def mem_call_def
        reconnect_io_def CreateConnection_def ex_path ex_zk_node_def [THEN arg_cong, of zn_stat, simplified] ex_world_def)
  then obtain node' w' where "?a (int 1) ?t = Inl (Inr (node', None), w')" by blast
  from set_data_eleven_attempts [OF f _ this] f show ?thesis by auto
qed

text \<open>
  Where the node already exists, \<open>MakeChildWithData\<close> does not notice that writing failed: with a
  store that loses the connection on the write it returns a node and no error, and the store still
  holds the old data.
\<close>

theorem make_child_swallows_error:
  "\<exists>root node w'. zn_ns root = mgr_namespace ex_mgr \<and>
     MakeChildWithData mem_zk ex_mgr root ''SchedulerState'' (Some ''new'') False (ex_world [False, False, True, False]) =
       (Inr (Inr node), w') \<and>
     GetData node = Some ''old'' \<and>
     mem_tree w' ''/riak/frameworks/riak/SchedulerState'' = Some (Some ''old'')"
proof -
  let ?root = "\<lparr>zn_stat = Some 0, zn_data = None, zn_ns = mgr_namespace ex_mgr\<rparr> :: string ZkNode"
  have p: "GetZKPath (makeSubSpace (mgr_namespace ex_mgr) ''SchedulerState'') = ''/riak/frameworks/riak/SchedulerState''"
    using ex_path by (simp add: ex_zk_node_def)
  have "\<exists>node w'. MakeChildWithData mem_zk ex_mgr ?root ''SchedulerState'' (Some ''new'') False
      (ex_world [False, False, True, False]) = (Inr (Inr node), w') \<and> GetData node = Some ''old'' \<and>
      mem_tree w' ''/riak/frameworks/riak/SchedulerState'' = Some (Some ''old'')"
    by (simp add: MakeChildWithData_def makeNodeWithData_def makeNodeWithDataWithRetry.simps make_data_attempt_def
        getNode_def getNodeWithRetry.simps p mem_zk_def mem_call_def ex_world_def GetData_def mem_tree_def)
  moreover have "zn_ns ?root = mgr_namespace ex_mgr" by simp
  ultimately show ?thesis by blast
qed

text \<open>
  C32: Different nodes of the metadata tree have different ZooKeeper paths: two namespaces below the root
  whose component names contain no slash have the same path only if they are the same.
\<close>

theorem zk_path_injective:
  assumes "slash_free (SubNamespace p c)" and "slash_free (SubNamespace q d)"
  shows "GetZKPath (SubNamespace p c) = GetZKPath (SubNamespace q d) \<longleftrightarrow> p = q \<and> c = d"
  using assms by (rule GetZKPath_inj)

theorem zk_path_injective_witness:
  "slash_free (SubNamespace baseNamespace ''riak'') \<and> slash_free (SubNamespace baseNamespace ''lock'') \<and>
   GetZKPath (SubNamespace baseNamespace ''riak'') \<noteq> GetZKPath (SubNamespace baseNamespace ''lock'')"
proof -
  have a: "slash_free (SubNamespace baseNamespace ''riak'')" and b: "slash_free (SubNamespace baseNamespace ''lock'')"
    by simp_all
  from zk_path_injective [OF a b] a b show ?thesis by auto
qed



end
