(* ===== verification/Cepmd_Setup.thy ===== *)
theory Cepmd_Setup
  imports Metadata Structs
begin

text \<open>
  Setting up the port mapper, the first part of \<^verbatim>\<open>cepmd/cepm/cepm.go\<close>: the listener, its port, and the node of the store under
  which the mappers of a framework meet. The scheduler and every executor set one up. The network is an argument.
\<close>

section \<open>Setting up\<close>

record 'd CEPM =
  cp_mgr :: MetadataManager
  cp_cepmdNode :: "'d ZkNode"
  cp_addr :: string
  cp_hostname :: string

text \<open>
  \<^verbatim>\<open>net.SplitHostPort\<close>: the port stands after the last colon; a host that contains a colon stands in brackets.
\<close>

definition last_colon :: "string \<Rightarrow> nat option" where
  "last_colon s =
     (if CHR '':'' \<in> set s then Some (length s - 1 - length (takeWhile (\<lambda>c. c \<noteq> CHR '':'') (rev s))) else None)"

definition SplitHostPort :: "string \<Rightarrow> (string \<times> string) option" where
  "SplitHostPort hostport =
     (case last_colon hostport of
        None \<Rightarrow> None
      | Some i \<Rightarrow>
          let port = drop (i + 1) hostport
          in if take 1 hostport = ''['' then
               let inner = takeWhile (\<lambda>c. c \<noteq> CHR '']'') (tl hostport)
               in if i = length inner + 2 \<and> CHR ''['' \<notin> set inner \<and> CHR ''['' \<notin> set port \<and> CHR '']'' \<notin> set port
                  then Some (inner, port) else None
             else let host = take i hostport
                  in if CHR '':'' \<in> set host \<or> CHR ''['' \<in> set hostport \<or> CHR '']'' \<in> set hostport then None else Some (host, port))"

definition GetPort :: "'d CEPM \<Rightarrow> int64 result" where
  "GetPort c =
     (case SplitHostPort (cp_addr c) of
        None \<Rightarrow> Inl (LogPanic ''SplitHostPort'')
      | Some (_, strPort) \<Rightarrow>
          (case Atoi strPort of None \<Rightarrow> Inl (LogPanic ''Atoi'') | Some port \<Rightarrow> Inr port))"

text \<open>
  The listener's address and the name of the host, \<open>None\<close> when they cannot be had. The result of \<open>setupCPMd\<close> has
  no manager and no node yet, so they are added to it here.
\<close>

definition setupCPMd :: "string option \<Rightarrow> string option \<Rightarrow> (string \<times> string) result" where
  "setupCPMd listen hostname =
     (case listen of
        None \<Rightarrow> Inl (LogPanic ''Failed to bind to port'')
      | Some addr \<Rightarrow>
          (case hostname of
             None \<Rightarrow> Inl (LogPanic ''Failed resolve hostname'')
           | Some name \<Rightarrow> Inr (addr, name)))"

definition NewCPMd :: "('d, 'w) zk_conn \<Rightarrow> string option \<Rightarrow> string option \<Rightarrow> MetadataManager \<Rightarrow> ('d CEPM, 'w) io" where
  "NewCPMd Z listen hostname mgr w =
     (case setupCPMd listen hostname of
        Inl p \<Rightarrow> (Inl p, w)
      | Inr (addr, name) \<Rightarrow>
          bind_io (GetRootNode Z mgr) (\<lambda>root.
          bind_io (CreateChildIfNotExists Z root ''cepmd'') (\<lambda>_.
          bind_io (GetRootNode Z mgr) (\<lambda>root'.
          bind_io (GetChild Z mgr root' ''cepmd'') (\<lambda>r w1.
            case r of
              Inl e \<Rightarrow> (Inl (LogPanic ''Could not get cepmd child''), w1)
            | Inr node \<Rightarrow> (Inr \<lparr>cp_mgr = mgr, cp_cepmdNode = node, cp_addr = addr, cp_hostname = name\<rparr>, w1))))) w)"

section \<open>What it does to the store\<close>

text \<open>Creating the path of a node leaves a sibling of the node alone.\<close>

lemma join_strings_take: "length (join_strings (take k xs) sep) \<le> length (join_strings xs sep)"
proof (induction xs arbitrary: k rule: induct_list012)
  case (3 x y zs)
  from "3.IH"(2) [of "k - 1"] show ?case by (cases k; cases "k - 1") auto
qed (simp_all add: take_Cons')

lemma prefix_paths_shorter:
  assumes "q \<in> set (prefix_paths (GetComponents ns))"
  shows "length q < length (GetZKPath (SubNamespace ns c))"
proof -
  from assms obtain k where "q = join_strings (take k (GetComponents ns)) ''/''" by (auto simp: prefix_paths_def)
  with join_strings_take [of k "GetComponents ns" "''/''"] show ?thesis
    by (simp add: GetZKPath_Sub join_strings_snoc)
qed

lemma prefix_paths_snoc:
  "xs \<noteq> [] \<Longrightarrow> prefix_paths (xs @ [x]) = prefix_paths xs @ [join_strings (xs @ [x]) ''/'']"
  by (cases xs) (auto simp: prefix_paths_def)

lemma sibling_not_prefix:
  assumes "c \<noteq> d"
  shows "GetZKPath (SubNamespace ns d) \<notin> set (prefix_paths (GetComponents (SubNamespace ns c)))"
proof
  assume "GetZKPath (SubNamespace ns d) \<in> set (prefix_paths (GetComponents (SubNamespace ns c)))"
  then have "GetZKPath (SubNamespace ns d) = GetZKPath (SubNamespace ns c) \<or>
      GetZKPath (SubNamespace ns d) \<in> set (prefix_paths (GetComponents ns))"
    by (auto simp: prefix_paths_snoc GetZKPath_Sub)
  then show False
  proof
    assume "GetZKPath (SubNamespace ns d) = GetZKPath (SubNamespace ns c)"
    with assms show False by (simp add: GetZKPath_Sub join_strings_snoc)
  qed (use prefix_paths_shorter [of "GetZKPath (SubNamespace ns d)" ns d] in simp)
qed

context zookeeper
begin

lemma create_each_tree:
  "create_each Z False paths w = (r, w') \<Longrightarrow> q \<notin> set paths \<Longrightarrow> tree w' q = tree w q"
proof (induction paths arbitrary: w)
  case (Cons p paths)
  obtain r1 w1 where c: "createIfNotExists Z p False w = (r1, w1)" by (cases "createIfNotExists Z p False w") auto
  from Cons.prems(2) have "tree w1 q = tree w q" by (intro createIfNotExists_tree [OF c]) auto
  with Cons c show ?case by (auto simp: bind_io_def split: sum.splits)
qed simp

lemma NewCPMd_tree:
  assumes "NewCPMd Z listen hostname mgr w = (r, w')" and "name \<noteq> ''cepmd''"
  shows "tree w' (GetZKPath (SubNamespace (mgr_namespace mgr) name)) = tree w (GetZKPath (SubNamespace (mgr_namespace mgr) name))"
    (is "_ = ?t w")
proof -
  have root: "?t v' = ?t v \<and> (\<forall>n. q = Inr n \<longrightarrow> zn_ns n = mgr_namespace mgr)" if "GetRootNode Z mgr v = (q, v')" for v q v'
    using GetRootNode_tree [OF that] by auto
  have child: "?t v' = ?t v" if "GetChild Z mgr n ''cepmd'' v = (q, v')" for n v q v'
    using that getNode_tree [of mgr "makeSubSpace (zn_ns n) ''cepmd''" v q v'] by (auto simp: GetChild_def split: if_splits)
  have create: "?t v' = ?t v" if "CreateChildIfNotExists Z n ''cepmd'' v = (q, v')" "zn_ns n = mgr_namespace mgr" for n v q v'
    using that create_each_tree [of "prefix_paths (GetComponents (SubNamespace (mgr_namespace mgr) ''cepmd''))" v q v'
        "GetZKPath (SubNamespace (mgr_namespace mgr) name)"] sibling_not_prefix [of "''cepmd''" name "mgr_namespace mgr"] assms(2)
    by (auto simp: CreateChildIfNotExists_def CreateNSIfNotExists_def makeSubSpace_def split: if_splits)
  from assms(1) show ?thesis
    by (auto simp: NewCPMd_def bind_io_def split: sum.splits prod.splits dest!: root child create)
qed

end

end
