(* ===== verification/Scheduler.thy ===== *)
theory Scheduler
  imports Riak_Cluster Cepmd_Setup
begin

text \<open>
  The scheduler and its persistent state, \<^verbatim>\<open>scheduler/state.go\<close> and \<^verbatim>\<open>scheduler/scheduler.go\<close>: loading
  and saving the state, and the callbacks the Mesos driver makes. A callback runs under the scheduler's
  lock from start to end, so it is one function from the scheduler and the world of the metadata store
  to its result and the scheduler and world after it. The orders in which it meets the entries of maps
  and the random draws it makes are arguments.
\<close>

section \<open>The persistent state\<close>

type_synonym ClusterMap = "(string, FrameworkRiakCluster) fmap"

text \<open>
  The exported fields of \<open>SchedulerState\<close>, which are what is written to the store, and the state with
  its unexported node of the store.
\<close>

record SchedulerData =
  ss_MesosMaster :: string
  ss_FrameworkID :: "string option"
  ss_Clusters :: ClusterMap
  ss_Graveyard :: ClusterMap

record SchedulerState = SchedulerData +
  ss_zkNode :: "SchedulerData ZkNode"

text \<open>
  Compressed JSON as the value it encodes: the exported fields, with the unexported fields of every
  node at the zero values they get when the text is read back.
\<close>

definition erase_node :: "FrameworkRiakNode \<Rightarrow> FrameworkRiakNode" where
  "erase_node n = n\<lparr>frn_reconciled := False, frn_lastAskedToReconcile := zero_time\<rparr>"

definition erase_cluster :: "FrameworkRiakCluster \<Rightarrow> FrameworkRiakCluster" where
  "erase_cluster c =
     c\<lparr>frc_Nodes := fmmap erase_node (frc_Nodes c), frc_Graveyard := fmmap erase_node (frc_Graveyard c)\<rparr>"

definition serialize :: "'a SchedulerData_scheme \<Rightarrow> SchedulerData" where
  "serialize ss = \<lparr>ss_MesosMaster = ss_MesosMaster ss, ss_FrameworkID = ss_FrameworkID ss,
     ss_Clusters = fmmap erase_cluster (ss_Clusters ss), ss_Graveyard = fmmap erase_cluster (ss_Graveyard ss)\<rparr>"

definition DeserializeSchedulerState :: "SchedulerData option \<Rightarrow> SchedulerData result" where
  "DeserializeSchedulerState data = (case data of None \<Rightarrow> Inl (LogPanic ''zlib'') | Some d \<Rightarrow> Inr d)"

definition emptySchedulerState :: SchedulerData where
  "emptySchedulerState = \<lparr>ss_MesosMaster = [], ss_FrameworkID = None, ss_Clusters = fmempty, ss_Graveyard = fmempty\<rparr>"

definition with_node :: "SchedulerData ZkNode \<Rightarrow> SchedulerData \<Rightarrow> SchedulerState" where
  "with_node node d = \<lparr>ss_MesosMaster = ss_MesosMaster d, ss_FrameworkID = ss_FrameworkID d,
     ss_Clusters = ss_Clusters d, ss_Graveyard = ss_Graveyard d, ss_zkNode = node\<rparr>"

definition GetSchedulerState ::
  "(SchedulerData, 'w) zk_conn \<Rightarrow> MetadataManager \<Rightarrow> (SchedulerState, 'w) io" where
  "GetSchedulerState Z mm =
     bind_io (GetRootNode Z mm) (\<lambda>root.
     bind_io (GetChild Z mm root ''SchedulerState'') (\<lambda>r w.
       if r = Inl ErrNoNode then
         bind_io (GetRootNode Z mm) (\<lambda>root.
         bind_io (MakeChildWithData Z mm root ''SchedulerState'' (Some (serialize emptySchedulerState)) False) (\<lambda>r1 w1.
           case r1 of
             Inl e \<Rightarrow> (Inl (LogPanic ''SchedulerState''), w1)
           | Inr zkNode \<Rightarrow> (Inr (with_node zkNode emptySchedulerState), w1))) w
       else
         (case r of
            Inl e \<Rightarrow> (Inl NilDereference, w)
          | Inr zkNode \<Rightarrow>
              (case DeserializeSchedulerState (GetData zkNode) of
                 Inl p \<Rightarrow> (Inl p, w)
               | Inr ss \<Rightarrow> (Inr (with_node zkNode ss), w)))))"

section \<open>The scheduler\<close>

record SchedulerCore =
  sc_conf :: SchedulerConf
  sc_mgr :: MetadataManager
  sc_state :: SchedulerState
  sc_cepm :: "SchedulerData CEPM"
  rServer_enabled :: bool

text \<open>A handler: a value or a panic, the scheduler and the world.\<close>

type_synonym ('a, 'w) handler = "SchedulerCore \<Rightarrow> 'w \<Rightarrow> 'a result \<times> SchedulerCore \<times> 'w"

definition bind_h :: "('a, 'w) handler \<Rightarrow> ('a \<Rightarrow> ('b, 'w) handler) \<Rightarrow> ('b, 'w) handler" where
  "bind_h m f sc w = (case m sc w of (Inl p, sc1, w1) \<Rightarrow> (Inl p, sc1, w1) | (Inr x, sc1, w1) \<Rightarrow> f x sc1 w1)"

text \<open>\<open>Persist\<close>: the error it returns, and the store's node with its new stat.\<close>

definition Persist :: "(SchedulerData, 'w) zk_conn \<Rightarrow> (zkerr option, 'w) handler" where
  "Persist Z sc w =
     (case SetData Z (sc_mgr sc) (Some (serialize (sc_state sc))) (ss_zkNode (sc_state sc)) w of
        (Inl p, w1) \<Rightarrow> (Inl p, sc, w1)
      | (Inr (node, err), w1) \<Rightarrow> (Inr err, sc\<lparr>sc_state := (sc_state sc)\<lparr>ss_zkNode := node\<rparr>\<rparr>, w1))"

definition update_cluster :: "string \<Rightarrow> FrameworkRiakCluster \<Rightarrow> SchedulerCore \<Rightarrow> SchedulerCore" where
  "update_cluster k frc sc =
     sc\<lparr>sc_state := (sc_state sc)\<lparr>ss_Clusters := fmupd k frc (ss_Clusters (sc_state sc))\<rparr>\<rparr>"

definition NewSchedulerCore ::
  "(SchedulerData, 'w) zk_conn \<Rightarrow> string option \<Rightarrow> string option \<Rightarrow> SchedulerConf \<Rightarrow> (SchedulerCore, 'w) io" where
  "NewSchedulerCore Z listen hostname conf =
     bind_io (NewMetadataManager Z (sc_frameworkName conf) (sc_zookeepers conf)) (\<lambda>mgr.
     bind_io (GetSchedulerState Z mgr) (\<lambda>ss.
     bind_io (NewCPMd Z listen hostname mgr) (\<lambda>c w.
     (Inr \<lparr>sc_conf = conf, sc_mgr = mgr, sc_state = ss, sc_cepm = c, rServer_enabled = False\<rparr>, w))))"

section \<open>Callbacks\<close>

datatype DriverCall =
    LaunchTasks string "TaskInfo list"
  | AcceptOffers string "Offer_Operation list"
  | SendFrameworkMessage string "string option" string
  | KillTask string
  | ReconcileTasks "TaskStatus list"

definition enable :: "SchedulerCore \<Rightarrow> SchedulerCore" where
  "enable sc = sc\<lparr>rServer_enabled := True\<rparr>"

definition disable :: "SchedulerCore \<Rightarrow> SchedulerCore" where
  "disable sc = sc\<lparr>rServer_enabled := False\<rparr>"

definition Registered :: "(SchedulerData, 'w) zk_conn \<Rightarrow> string option \<Rightarrow> (unit, 'w) handler" where
  "Registered Z frameworkId sc =
     bind_h (Persist Z) (\<lambda>err sc1 w1. (Inr (), enable sc1, w1))
       (sc\<lparr>sc_state := (sc_state sc)\<lparr>ss_FrameworkID := frameworkId\<rparr>\<rparr>)"

definition Reregistered :: "(unit, 'w) handler" where
  "Reregistered sc w = (Inr (), enable sc, w)"

text \<open>
  What one offer meets: the order of the clusters, for each cluster the order of its nodes, and for
  each node the draw of its port slice.
\<close>

record OfferChoice =
  oc_clusters :: "string list"
  oc_nodes :: "string \<Rightarrow> string list"
  oc_rnd :: "string \<Rightarrow> string \<Rightarrow> nat"

text \<open>\<open>ApplyOffer\<close> of a cluster with the save at its end.\<close>

definition ApplyOffer ::
  "(SchedulerData, 'w) zk_conn \<Rightarrow> mesosutil \<Rightarrow> OfferChoice \<Rightarrow> string \<Rightarrow> FrameworkRiakCluster \<Rightarrow> OfferHelper
     \<Rightarrow> (OfferHelper \<times> bool, 'w) handler" where
  "ApplyOffer Z U ch k frc h sc w =
     (case Cluster_ApplyOffer U (oc_rnd ch k) (sc_conf sc) (oc_nodes ch k) h frc of
        Inl p \<Rightarrow> (Inl p, sc, w)
      | Inr (frc', h', stateDirty, needs) \<Rightarrow>
          let sc1 = update_cluster k frc' sc
          in if stateDirty then bind_h (Persist Z) (\<lambda>err sc2 w2. (Inr (h', needs), sc2, w2)) sc1 w
             else (Inr (h', needs), sc1, w))"

fun offer_clusters ::
  "(SchedulerData, 'w) zk_conn \<Rightarrow> mesosutil \<Rightarrow> OfferChoice \<Rightarrow> string list \<Rightarrow> OfferHelper \<Rightarrow> bool
     \<Rightarrow> (OfferHelper \<times> bool, 'w) handler" where
  "offer_clusters Z U ch [] h needs sc w = (Inr (h, needs), sc, w)"
| "offer_clusters Z U ch (k # ks) h needs sc w =
     (case fmlookup (ss_Clusters (sc_state sc)) k of
        None \<Rightarrow> offer_clusters Z U ch ks h needs sc w
      | Some frc \<Rightarrow>
          bind_h (ApplyOffer Z U ch k frc h) (\<lambda>(h', need). offer_clusters Z U ch ks h' (needs \<or> need)) sc w)"

text \<open>One offer: the operations it is answered with.\<close>

definition operations_for_offer ::
  "(SchedulerData, 'w) zk_conn \<Rightarrow> mesosutil \<Rightarrow> OfferChoice \<Rightarrow> Offer \<Rightarrow> (Offer_Operation list, 'w) handler" where
  "operations_for_offer Z U ch offer sc w =
     (case NewOfferHelper U offer of
        Inl p \<Rightarrow> (Inl p, sc, w)
      | Inr offerHelper \<Rightarrow>
          bind_h (offer_clusters Z U ch (oc_clusters ch) offerHelper False) (\<lambda>(h, needsReconciliation) sc1 w1.
            case (if needsReconciliation then Inr h else MaybeUnreserve U h) of
              Inl p \<Rightarrow> (Inl p, sc1, w1)
            | Inr h1 \<Rightarrow> (Inr (Operations U h1), sc1, w1)) sc w)"

fun createOperationsForOffers ::
  "(SchedulerData, 'w) zk_conn \<Rightarrow> mesosutil \<Rightarrow> (nat \<Rightarrow> OfferChoice) \<Rightarrow> nat \<Rightarrow> Offer list
     \<Rightarrow> (string, Offer_Operation list) fmap \<Rightarrow> ((string, Offer_Operation list) fmap, 'w) handler" where
  "createOperationsForOffers Z U ch i [] operations sc w = (Inr operations, sc, w)"
| "createOperationsForOffers Z U ch i (offer # offers) operations sc w =
     bind_h (operations_for_offer Z U (ch i) offer)
       (\<lambda>ops. createOperationsForOffers Z U ch (i + 1) offers (fmupd (of_Id offer) ops operations)) sc w"

text \<open>The driver call that accepts an offer, and what its outcome does to the scheduler's process.\<close>

fun launch_tasks :: "Offer_Operation list \<Rightarrow> TaskInfo list \<Rightarrow> TaskInfo list" where
  "launch_tasks [] tasks = tasks"
| "launch_tasks (LAUNCH ts # ops) tasks = launch_tasks ops ts"
| "launch_tasks (_ # ops) tasks = launch_tasks ops tasks"

definition accept_call :: "SchedulerConf \<Rightarrow> Offer \<Rightarrow> Offer_Operation list \<Rightarrow> DriverCall" where
  "accept_call conf offer operations =
     (if sc_compatibilityMode conf then LaunchTasks (of_Id offer) (launch_tasks operations [])
      else AcceptOffers (of_Id offer) operations)"

datatype DriverStatus = DRIVER_RUNNING | DRIVER_NOT_RUNNING

type_synonym driver = "DriverCall \<Rightarrow> DriverStatus \<times> string option"

definition acceptOffer :: "driver \<Rightarrow> SchedulerConf \<Rightarrow> Offer \<Rightarrow> Offer_Operation list \<Rightarrow> DriverCall result" where
  "acceptOffer drv conf offer operations =
     (let call = accept_call conf offer operations; (status, err) = drv call
      in if status \<noteq> DRIVER_RUNNING then Inl (LogFatal ''Driver not running, while trying to accept offers'')
         else if err \<noteq> None then Inl (LogPanic ''Failed to launch tasks'')
         else Inr call)"

text \<open>The offers with the operations they are accepted with, each by a goroutine of its own.\<close>

definition ResourceOffers ::
  "(SchedulerData, 'w) zk_conn \<Rightarrow> mesosutil \<Rightarrow> (nat \<Rightarrow> OfferChoice) \<Rightarrow> Offer list
     \<Rightarrow> ((Offer \<times> Offer_Operation list) list, 'w) handler" where
  "ResourceOffers Z U ch offers =
     bind_h (createOperationsForOffers Z U ch 0 offers fmempty) (\<lambda>operations sc1 w1.
       (Inr (map (\<lambda>offer. (offer, case fmlookup operations (of_Id offer) of None \<Rightarrow> [] | Some ops \<Rightarrow> ops)) offers),
        sc1, w1))"

text \<open>\<open>StatusUpdate\<close>: the first cluster that knows the task, in the order the map is visited.\<close>

fun find_cluster :: "ClusterMap \<Rightarrow> string \<Rightarrow> string list \<Rightarrow> string option" where
  "find_cluster clusters i [] = None"
| "find_cluster clusters i (k # ks) =
     (case fmlookup clusters k of
        None \<Rightarrow> find_cluster clusters i ks
      | Some cluster \<Rightarrow> if HasNode cluster i then Some k else find_cluster clusters i ks)"

datatype UpdateOutcome = HandledUpdate | KilledClusterUpdate | UnknownUpdate

definition StatusUpdate ::
  "(SchedulerData, 'w) zk_conn \<Rightarrow> (string \<Rightarrow> int \<Rightarrow> transport) \<Rightarrow> string list \<Rightarrow> string list \<Rightarrow> string list
     \<Rightarrow> TaskStatus \<Rightarrow> (UpdateOutcome, 'w) handler" where
  "StatusUpdate Z net cks nks gks status sc w =
     (case find_cluster (ss_Clusters (sc_state sc)) (ts_TaskId status) cks of
        Some k \<Rightarrow>
          (case fmlookup (ss_Clusters (sc_state sc)) k of
             None \<Rightarrow> (Inr UnknownUpdate, sc, w)
           | Some cluster \<Rightarrow>
               (case HandleNodeStatusUpdate net nks status cluster of
                  Inl p \<Rightarrow> (Inl p, sc, w)
                | Inr (cluster', sent) \<Rightarrow>
                    bind_h (Persist Z) (\<lambda>err sc1 w1. (Inr HandledUpdate, sc1, w1)) (update_cluster k cluster' sc) w))
      | None \<Rightarrow>
          (case find_cluster (ss_Graveyard (sc_state sc)) (ts_TaskId status) gks of
             Some _ \<Rightarrow> (Inr KilledClusterUpdate, sc, w)
           | None \<Rightarrow> (Inr UnknownUpdate, sc, w)))"

text \<open>The callbacks that only log.\<close>

definition Disconnected :: "(unit, 'w) handler" where
  "Disconnected sc w = (Inr (), sc, w)"

definition OfferRescinded :: "string \<Rightarrow> (unit, 'w) handler" where
  "OfferRescinded offerID sc w = (Inr (), sc, w)"

definition FrameworkMessage :: "string \<Rightarrow> string \<Rightarrow> string \<Rightarrow> (unit, 'w) handler" where
  "FrameworkMessage executorID slaveID message sc w = (Inr (), sc, w)"

definition SlaveLost :: "string \<Rightarrow> (unit, 'w) handler" where
  "SlaveLost slaveID sc w = (Inr (), sc, w)"

definition ExecutorLost :: "string \<Rightarrow> string \<Rightarrow> int \<Rightarrow> (unit, 'w) handler" where
  "ExecutorLost executorID slaveID status sc w = (Inr (), sc, w)"

definition Scheduler_Error :: "string \<Rightarrow> (unit, 'w) handler" where
  "Scheduler_Error err sc w = (Inr (), sc, w)"

section \<open>Well-formed state\<close>

text \<open>
  Clusters sit under their own names and satisfy the invariant of a cluster; the scheduler's node of the
  store is the one below the framework's namespace.
\<close>

definition clusters_ok :: "string \<Rightarrow> ClusterMap \<Rightarrow> bool" where
  "clusters_ok fw m \<longleftrightarrow> fmpred (\<lambda>k c. frc_Name c = k \<and> cluster_ok fw c) m"

definition data_ok :: "string \<Rightarrow> 'a SchedulerData_scheme \<Rightarrow> bool" where
  "data_ok fw d \<longleftrightarrow> clusters_ok fw (ss_Clusters d) \<and> clusters_ok fw (ss_Graveyard d)"

definition state_ns :: "MetadataManager \<Rightarrow> Namespace" where
  "state_ns mgr = makeSubSpace (mgr_namespace mgr) ''SchedulerState''"

definition state_path :: "MetadataManager \<Rightarrow> string" where
  "state_path mgr = GetZKPath (state_ns mgr)"

definition core_ok :: "SchedulerCore \<Rightarrow> bool" where
  "core_ok sc \<longleftrightarrow> data_ok (sc_frameworkName (sc_conf sc)) (sc_state sc) \<and>
     zn_ns (ss_zkNode (sc_state sc)) = state_ns (sc_mgr sc) \<and> zn_stat (ss_zkNode (sc_state sc)) \<noteq> None"

lemma clusters_ok_upd:
  "clusters_ok fw m \<Longrightarrow> frc_Name c = k \<Longrightarrow> cluster_ok fw c \<Longrightarrow> clusters_ok fw (fmupd k c m)"
  by (auto simp: clusters_ok_def)

lemma clusters_ok_drop: "clusters_ok fw m \<Longrightarrow> clusters_ok fw (fmdrop k m)"
  by (simp add: clusters_ok_def fmpred_drop)

lemma clusters_okD: "clusters_ok fw m \<Longrightarrow> fmlookup m k = Some c \<Longrightarrow> frc_Name c = k \<and> cluster_ok fw c"
  by (auto simp: clusters_ok_def fmpred_iff)

lemma clusters_ok_empty [simp]: "clusters_ok fw fmempty"
  by (simp add: clusters_ok_def)

lemma core_ok_update_cluster:
  assumes "core_ok sc" and "frc_Name c = k" and "cluster_ok (sc_frameworkName (sc_conf sc)) c"
  shows "core_ok (update_cluster k c sc)"
  using assms by (simp add: core_ok_def data_ok_def update_cluster_def clusters_ok_upd)

lemma update_cluster_simps [simp]:
  "sc_conf (update_cluster k c sc) = sc_conf sc" "sc_mgr (update_cluster k c sc) = sc_mgr sc"
  "ss_Clusters (sc_state (update_cluster k c sc)) = fmupd k c (ss_Clusters (sc_state sc))"
  "ss_Graveyard (sc_state (update_cluster k c sc)) = ss_Graveyard (sc_state sc)"
  "rServer_enabled (update_cluster k c sc) = rServer_enabled sc"
  "ss_zkNode (sc_state (update_cluster k c sc)) = ss_zkNode (sc_state sc)"
  by (simp_all add: update_cluster_def)

section \<open>What is saved\<close>

text \<open>Erasing keeps everything the invariant speaks about.\<close>

lemma erase_node_simps [simp]:
  "CurrentID (erase_node n) = CurrentID n" "frn_CurrentState (erase_node n) = frn_CurrentState n"
  "frn_DestinationState (erase_node n) = frn_DestinationState n" "frn_TaskData (erase_node n) = frn_TaskData n"
  "frn_reconciled (erase_node n) = False"
  by (simp_all add: erase_node_def CurrentID_def)

lemma erase_node_ok [simp]: "node_ok fw cl b (erase_node n) \<longleftrightarrow> node_ok fw cl b n"
  by (auto simp: node_ok_def status_ok_def legal_def erase_node_def CurrentID_def split: option.splits)

lemma erase_node_idem [simp]: "erase_node (erase_node n) = erase_node n"
  by (simp add: erase_node_def)

lemma nodes_ok_erase [simp]: "nodes_ok fw cl b (fmmap erase_node m) \<longleftrightarrow> nodes_ok fw cl b m"
  by (simp add: nodes_ok_def)

lemma erase_cluster_simps [simp]:
  "frc_Name (erase_cluster c) = frc_Name c" "frc_Nodes (erase_cluster c) = fmmap erase_node (frc_Nodes c)"
  "frc_Graveyard (erase_cluster c) = fmmap erase_node (frc_Graveyard c)"
  by (simp_all add: erase_cluster_def)

lemma erase_cluster_ok [simp]: "cluster_ok fw (erase_cluster c) \<longleftrightarrow> cluster_ok fw c"
  by (simp add: cluster_ok_def cluster_size_def)

lemma clusters_ok_erase [simp]: "clusters_ok fw (fmmap erase_cluster m) \<longleftrightarrow> clusters_ok fw m"
  by (simp add: clusters_ok_def)

lemma data_ok_serialize [simp]: "data_ok fw (serialize ss) \<longleftrightarrow> data_ok fw ss"
  by (simp add: data_ok_def serialize_def)

lemma data_ok_with_node [simp]: "data_ok fw (with_node n d) \<longleftrightarrow> data_ok fw d"
  by (simp add: data_ok_def with_node_def)

text \<open>
  \<open>saved\<close>: the store holds the scheduler's state. The name of the master, which \<open>Run\<close> sets without
  saving, may differ until the next save.
\<close>

definition saved :: "('w \<Rightarrow> string \<Rightarrow> SchedulerData option option) \<Rightarrow> SchedulerCore \<Rightarrow> 'w \<Rightarrow> bool" where
  "saved tree sc w \<longleftrightarrow>
     (\<exists>mm. tree w (state_path (sc_mgr sc)) = Some (Some (serialize ((sc_state sc)\<lparr>ss_MesosMaster := mm\<rparr>))))"

definition stored_ok :: "('w \<Rightarrow> string \<Rightarrow> SchedulerData option option) \<Rightarrow> SchedulerCore \<Rightarrow> 'w \<Rightarrow> bool" where
  "stored_ok tree sc w \<longleftrightarrow>
     (\<forall>d. tree w (state_path (sc_mgr sc)) = Some (Some d) \<longrightarrow>
        data_ok (sc_frameworkName (sc_conf sc)) d \<and> serialize d = d)"

lemma erase_cluster_idem [simp]: "erase_cluster (erase_cluster c) = erase_cluster c"
  by (simp add: erase_cluster_def fmap.map_comp o_def)

lemma serialize_idem [simp]: "serialize (serialize ss) = serialize ss"
  by (simp add: serialize_def fmap.map_comp o_def)

lemma serialize_with_node [simp]: "serialize (with_node n d) = serialize d"
  by (simp add: serialize_def with_node_def)

lemma serialize_master: "serialize (ss\<lparr>ss_MesosMaster := m\<rparr>) = (serialize ss)\<lparr>ss_MesosMaster := m\<rparr>"
  by (simp add: serialize_def)

lemma serialize_node [simp]: "serialize (ss\<lparr>ss_zkNode := n\<rparr>) = serialize ss"
  by (simp add: serialize_def)

text \<open>What a handler may change of the scheduler: its state and whether reconciliation is enabled.\<close>

definition same_setup :: "SchedulerCore \<Rightarrow> SchedulerCore \<Rightarrow> bool" where
  "same_setup sc sc' \<longleftrightarrow> sc_conf sc' = sc_conf sc \<and> sc_mgr sc' = sc_mgr sc"

lemma same_setup_refl [simp]: "same_setup sc sc"
  by (simp add: same_setup_def)

lemma same_setup_trans [trans]: "same_setup a b \<Longrightarrow> same_setup b c \<Longrightarrow> same_setup a c"
  by (simp add: same_setup_def)

text \<open>The store answers and the scheduler's node exists.\<close>

definition ready ::
  "('w \<Rightarrow> string \<Rightarrow> SchedulerData option option) \<Rightarrow> ('w \<Rightarrow> bool) \<Rightarrow> SchedulerCore \<Rightarrow> 'w \<Rightarrow> bool" where
  "ready tree up sc w \<longleftrightarrow> up w \<and> tree w (state_path (sc_mgr sc)) \<noteq> None"

definition unchanged ::
  "('w \<Rightarrow> string \<Rightarrow> SchedulerData option option) \<Rightarrow> SchedulerCore \<Rightarrow> 'w \<Rightarrow> SchedulerCore \<Rightarrow> 'w \<Rightarrow> bool" where
  "unchanged tree sc w sc' w' \<longleftrightarrow> serialize (sc_state sc') = serialize (sc_state sc) \<and>
     tree w' (state_path (sc_mgr sc)) = tree w (state_path (sc_mgr sc))"

lemma unchanged_refl [simp]: "unchanged tree sc w sc w"
  by (simp add: unchanged_def)

lemma unchanged_saved:
  "unchanged tree sc w sc' w' \<Longrightarrow> same_setup sc sc' \<Longrightarrow> saved tree sc' w' = saved tree sc w"
  by (simp add: unchanged_def saved_def serialize_master same_setup_def)

text \<open>
  What a handler does, as one relation, so that handlers compose. It keeps the state well-formed and
  what is stored well-formed, also when it panics; when it returns, the state is saved, or nothing of it
  that is ever saved has changed; and when the store answers it returns.
\<close>

definition handled ::
  "('w \<Rightarrow> string \<Rightarrow> SchedulerData option option) \<Rightarrow> ('w \<Rightarrow> bool) \<Rightarrow> SchedulerCore \<Rightarrow> 'w
     \<Rightarrow> 'a result \<Rightarrow> SchedulerCore \<Rightarrow> 'w \<Rightarrow> bool" where
  "handled tree up sc w r sc' w' \<longleftrightarrow> core_ok sc' \<and> same_setup sc sc' \<and>
     (stored_ok tree sc w \<longrightarrow> stored_ok tree sc' w') \<and>
     (\<not> isl r \<longrightarrow> saved tree sc' w' \<or> unchanged tree sc w sc' w') \<and>
     (ready tree up sc w \<longrightarrow> \<not> isl r \<and> ready tree up sc' w')"

lemma handled_refl [simp]: "core_ok sc \<Longrightarrow> handled tree up sc w (Inr x) sc w"
  by (simp add: handled_def)

lemma handled_trans:
  "handled tree up sc w (Inr x) sc1 w1 \<Longrightarrow> handled tree up sc1 w1 r sc2 w2 \<Longrightarrow> handled tree up sc w r sc2 w2"
  by (simp add: handled_def same_setup_def) (auto simp: unchanged_def saved_def serialize_master)

lemma handled_saved:
  "handled tree up sc w (Inr x) sc' w' \<Longrightarrow> saved tree sc w \<Longrightarrow> saved tree sc' w'"
  by (auto simp: handled_def unchanged_saved)

lemma handled_result: "handled tree up sc w r sc' w' \<Longrightarrow> isl r = isl q \<Longrightarrow> handled tree up sc w q sc' w'"
  by (simp add: handled_def)

lemma bind_h_cases:
  assumes "bind_h m f sc w = (r, sc', w')"
  obtains (panicked) p where "m sc w = (Inl p, sc', w')" "r = Inl p"
  | (returned) x sc1 w1 where "m sc w = (Inr x, sc1, w1)" "f x sc1 w1 = (r, sc', w')"
  using assms by (auto simp: bind_h_def split: prod.splits sum.splits)

text \<open>
  The store of the scheduler. While it is \<open>up\<close>, a node that exists can be read, and written with the
  version just read: the connection holds and the scheduler is the only writer.
\<close>

locale scheduler_store = zookeeper Z tree
  for Z :: "(SchedulerData, 'w) zk_conn" and tree :: "'w \<Rightarrow> string \<Rightarrow> SchedulerData option option" +
  fixes up :: "'w \<Rightarrow> bool"
  assumes read_then_write: "up w \<Longrightarrow> tree w p \<noteq> None \<Longrightarrow>
    \<exists>d v w1 v' w2. zk_Get Z p w = ((d, Some v, None), w1) \<and> zk_Set Z p d' v w1 = ((Some v', None), w2) \<and> up w2"
begin

lemma set_data_up:
  assumes "zn_ns node = state_ns mgr" and "zn_stat node \<noteq> None" and "up w" and "tree w (state_path mgr) \<noteq> None"
    and "SetData Z mgr d node w = (r, w')"
  shows "\<not> isl r \<and> up w'"
proof -
  from read_then_write [OF assms(3,4), of d] obtain d0 v w1 v' w2 where
    "zk_Get Z (state_path mgr) w = ((d0, Some v, None), w1)"
    "zk_Set Z (state_path mgr) d v w1 = ((Some v', None), w2)" "up w2" by blast
  with assms show ?thesis
    by (auto simp: SetData_def SetDataWithRetry.simps set_data_attempt_def state_path_def)
qed

lemma Persist_cases:
  assumes "core_ok sc"
  obtains (stored) n w' where "Persist Z sc w = (Inr None, sc\<lparr>sc_state := (sc_state sc)\<lparr>ss_zkNode := n\<rparr>\<rparr>, w')"
      "zn_ns n = state_ns (sc_mgr sc)" "zn_stat n \<noteq> None" "ready tree up sc w \<Longrightarrow> up w'"
      "tree w' = (tree w)(state_path (sc_mgr sc) := Some (Some (serialize (sc_state sc))))"
  | (lost) p w' where "Persist Z sc w = (Inl p, sc, w')" "\<not> ready tree up sc w"
      "tree w' = tree w \<or> tree w' = (tree w)(state_path (sc_mgr sc) := Some (Some (serialize (sc_state sc))))"
proof -
  obtain r w' where r: "SetData Z (sc_mgr sc) (Some (serialize (sc_state sc))) (ss_zkNode (sc_state sc)) w = (r, w')"
    by (cases "SetData Z (sc_mgr sc) (Some (serialize (sc_state sc))) (ss_zkNode (sc_state sc)) w") auto
  have p: "zn_ns (ss_zkNode (sc_state sc)) = state_ns (sc_mgr sc)" "zn_stat (ss_zkNode (sc_state sc)) \<noteq> None"
    using assms by (simp_all add: core_ok_def)
  note t = SetData_tree [OF r, unfolded p(1), folded state_path_def]
  have u: "ready tree up sc w \<Longrightarrow> \<not> isl r \<and> up w'"
    using set_data_up [OF p _ _ r] by (simp add: ready_def)
  show thesis
  proof (cases r)
    case (Inl q)
    with t u r show thesis by (intro lost) (auto simp: Persist_def)
  next
    case (Inr ne)
    then obtain n err where "r = Inr (n, err)" by (cases ne) auto
    with t u r show thesis by (intro stored [of n w']) (simp_all add: Persist_def)
  qed
qed

lemma core_ok_zkNode:
  "core_ok sc \<Longrightarrow> zn_ns n = state_ns (sc_mgr sc) \<Longrightarrow> zn_stat n \<noteq> None \<Longrightarrow>
    core_ok (sc\<lparr>sc_state := (sc_state sc)\<lparr>ss_zkNode := n\<rparr>\<rparr>)"
  by (simp add: core_ok_def data_ok_def)

lemma Persist_ok:
  assumes "core_ok sc" and "Persist Z sc w = (r, sc', w')"
  shows "handled tree up sc w r sc' w'" and "r = Inr x \<Longrightarrow> x = None \<and> saved tree sc' w'"
    and "\<exists>n. sc' = sc\<lparr>sc_state := (sc_state sc)\<lparr>ss_zkNode := n\<rparr>\<rparr>"
proof -
  have "handled tree up sc w r sc' w' \<and> (r = Inr x \<longrightarrow> x = None \<and> saved tree sc' w') \<and>
      (\<exists>n. sc' = sc\<lparr>sc_state := (sc_state sc)\<lparr>ss_zkNode := n\<rparr>\<rparr>)"
    using assms(1)
  proof (cases rule: Persist_cases [of sc w])
    case (stored n w1)
    have "saved tree sc' w1"
      using assms stored(1,5) by (auto simp: saved_def intro!: exI [of _ "ss_MesosMaster (sc_state sc)"])
    then show ?thesis
      using assms stored core_ok_zkNode [OF assms(1) stored(2,3)]
      by (auto simp: handled_def ready_def same_setup_def stored_ok_def core_ok_def)
  next
    case (lost p w1)
    have "\<exists>n. sc = sc\<lparr>sc_state := (sc_state sc)\<lparr>ss_zkNode := n\<rparr>\<rparr>"
      by (rule exI [of _ "ss_zkNode (sc_state sc)"]) simp
    moreover have "handled tree up sc w (Inl p) sc w1"
      using assms(1) lost(2,3) by (auto simp: handled_def stored_ok_def core_ok_def)
    ultimately show ?thesis using assms(2) lost(1) by auto
  qed
  then show "handled tree up sc w r sc' w'" "r = Inr x \<Longrightarrow> x = None \<and> saved tree sc' w'"
    "\<exists>n. sc' = sc\<lparr>sc_state := (sc_state sc)\<lparr>ss_zkNode := n\<rparr>\<rparr>"
    by simp_all
qed

text \<open>A change of the memory followed by a save and a last change that is not saved.\<close>

lemma change_and_persist:
  assumes "core_ok sc1" and "same_setup sc sc1"
    and g: "\<And>sc. core_ok (g sc) = core_ok sc" "\<And>sc. same_setup sc (g sc)" "\<And>sc. sc_state (g sc) = sc_state sc"
    and "bind_h (Persist Z) (\<lambda>err sc2 w2. (Inr y, g sc2, w2)) sc1 w = (r, sc', w')"
  shows "handled tree up sc w r sc' w'" and "r = Inr x \<Longrightarrow> x = y \<and> saved tree sc' w'"
    and "ss_Clusters (sc_state sc') = ss_Clusters (sc_state sc1)"
    and "ss_Graveyard (sc_state sc') = ss_Graveyard (sc_state sc1)"
proof -
  obtain r1 sc2 w2 where p: "Persist Z sc1 w = (r1, sc2, w2)" by (cases "Persist Z sc1 w") auto
  note ok = Persist_ok [OF assms(1) p]
  have sm: "stored_ok tree sc w = stored_ok tree sc1 w" "ready tree up sc w = ready tree up sc1 w"
    using assms(2) by (simp_all add: stored_ok_def same_setup_def ready_def)
  have gs: "stored_ok tree (g sc2) w2 = stored_ok tree sc2 w2" "saved tree (g sc2) w2 = saved tree sc2 w2"
    "ready tree up (g sc2) w2 = ready tree up sc2 w2"
    using g(2,3) [of sc2] by (simp_all add: stored_ok_def saved_def ready_def same_setup_def)
  have "r = map_sum id (\<lambda>_. y) r1 \<and> sc' = (if isl r1 then sc2 else g sc2) \<and> w' = w2"
    using p assms(6) by (cases r1) (auto simp: bind_h_def)
  then show "handled tree up sc w r sc' w'" "r = Inr x \<Longrightarrow> x = y \<and> saved tree sc' w'"
    "ss_Clusters (sc_state sc') = ss_Clusters (sc_state sc1)"
    "ss_Graveyard (sc_state sc') = ss_Graveyard (sc_state sc1)"
    using ok sm gs g assms(2) by (cases r1; auto simp: handled_def intro: same_setup_trans)+
qed

lemmas persist_then = change_and_persist [where g = "\<lambda>sc. sc", OF _ _ refl same_setup_refl refl]

lemma core_ok_enable [simp]: "core_ok (enable sc) = core_ok sc"
  by (simp add: enable_def core_ok_def)

lemma Registered_ok:
  assumes "core_ok sc" and "Registered Z fid sc w = (r, sc', w')"
  shows "handled tree up sc w r sc' w'" and "r = Inr x \<Longrightarrow> saved tree sc' w'"
proof -
  have r: "bind_h (Persist Z) (\<lambda>err sc1 w1. (Inr (), enable sc1, w1))
      (sc\<lparr>sc_state := (sc_state sc)\<lparr>ss_FrameworkID := fid\<rparr>\<rparr>) w = (r, sc', w')"
    using assms(2) by (simp add: Registered_def)
  have "core_ok (sc\<lparr>sc_state := (sc_state sc)\<lparr>ss_FrameworkID := fid\<rparr>\<rparr>)"
    using assms(1) by (simp add: core_ok_def data_ok_def)
  from change_and_persist [OF this _ _ _ _ r] show "handled tree up sc w r sc' w'" "r = Inr x \<Longrightarrow> saved tree sc' w'"
    by (simp_all add: same_setup_def enable_def core_ok_def)
qed

end

interpretation memory: scheduler_store mem_zk mem_tree "\<lambda>w. mw_faults w = []"
  by unfold_locales (auto simp: mem_zk_def mem_call_def mem_tree_def)

section \<open>Living nodes\<close>

text \<open>The living node under a key of a cluster.\<close>

definition live_node :: "SchedulerCore \<Rightarrow> string \<Rightarrow> string \<Rightarrow> FrameworkRiakNode option" where
  "live_node sc k i = (case fmlookup (ss_Clusters (sc_state sc)) k of None \<Rightarrow> None | Some c \<Rightarrow> fmlookup (frc_Nodes c) i)"

text \<open>Within a well-formed scheduler an id belongs to one cluster only.\<close>

lemma live_node_ok:
  assumes "core_ok sc" and "live_node sc k i = Some n"
  shows "i = CurrentID n" and "\<exists>b. node_ok (sc_frameworkName (sc_conf sc)) k b n"
proof -
  obtain c where c: "fmlookup (ss_Clusters (sc_state sc)) k = Some c" "fmlookup (frc_Nodes c) i = Some n"
    using assms(2) by (auto simp: live_node_def split: option.splits)
  with assms(1) have "frc_Name c = k" "nodes_ok (sc_frameworkName (sc_conf sc)) (frc_Name c) (cluster_size c) (frc_Nodes c)"
    by (auto simp: core_ok_def data_ok_def cluster_ok_def dest: clusters_okD)
  with nodes_okD [OF this(2) c(2)] show "i = CurrentID n" "\<exists>b. node_ok (sc_frameworkName (sc_conf sc)) k b n" by auto
qed

lemma live_node_unique:
  assumes "core_ok sc" and "live_node sc k i = Some n" and "live_node sc j i = Some m"
  shows "j = k"
  using live_node_ok [OF assms(1,2)] live_node_ok [OF assms(1,3)]
  by (auto simp: node_ok_def CurrentID_eq_iff)

text \<open>Two schedulers with the same clusters and the same ids in each.\<close>

definition same_shape :: "SchedulerCore \<Rightarrow> SchedulerCore \<Rightarrow> bool" where
  "same_shape sc sc' \<longleftrightarrow>
     fmdom (ss_Clusters (sc_state sc')) = fmdom (ss_Clusters (sc_state sc)) \<and>
     (\<forall>k i. live_node sc' k i = None \<longleftrightarrow> live_node sc k i = None)"

lemma same_shape_refl [simp]: "same_shape sc sc"
  by (simp add: same_shape_def)

lemma same_shape_trans [trans]: "same_shape a b \<Longrightarrow> same_shape b c \<Longrightarrow> same_shape a c"
  by (simp add: same_shape_def)

text \<open>The orders of a choice enumerate the maps of the scheduler.\<close>

definition choice_ok :: "OfferChoice \<Rightarrow> SchedulerCore \<Rightarrow> bool" where
  "choice_ok ch sc \<longleftrightarrow> enumerates (oc_clusters ch) (ss_Clusters (sc_state sc)) \<and>
     (\<forall>k c. fmlookup (ss_Clusters (sc_state sc)) k = Some c \<longrightarrow> enumerates (oc_nodes ch k) (frc_Nodes c))"

lemma choice_ok_shape:
  assumes "choice_ok ch sc" and "same_shape sc sc'"
  shows "choice_ok ch sc'"
proof -
  have "enumerates (oc_nodes ch k) (frc_Nodes c')" if c': "fmlookup (ss_Clusters (sc_state sc')) k = Some c'" for k c'
  proof -
    from assms(2) c' obtain c where c: "fmlookup (ss_Clusters (sc_state sc)) k = Some c"
      by (metis fmdomI fmlookup_dom_iff same_shape_def)
    with assms(1) have e: "enumerates (oc_nodes ch k) (frc_Nodes c)" by (simp add: choice_ok_def)
    have "fmlookup (frc_Nodes c') i = None \<longleftrightarrow> fmlookup (frc_Nodes c) i = None" for i
      using assms(2) c c' unfolding same_shape_def live_node_def by (metis option.simps(5))
    then have "fmdom (frc_Nodes c') = fmdom (frc_Nodes c)"
      by (metis fmdom_notD fmdom_notI fset_eqI)
    with e show ?thesis by (simp add: enumerates_def)
  qed
  with assms show ?thesis by (auto simp: choice_ok_def same_shape_def enumerates_def)
qed

section \<open>Offers\<close>

text \<open>
  What holds while one offer is offered to the clusters, \<open>vis\<close> of which it has visited: as for the
  nodes of a cluster, for all of them.
\<close>

definition answering ::
  "mesosutil \<Rightarrow> int64 list \<Rightarrow> SchedulerCore \<Rightarrow> OfferHelper \<Rightarrow> string set \<Rightarrow> SchedulerCore \<Rightarrow> OfferHelper \<Rightarrow> bool \<Rightarrow> bool" where
  "answering U P sc0 h0 vis sc h needs \<longleftrightarrow>
     ports_inv U P h \<and> offer_frame h0 h \<and> same_shape sc0 sc \<and>
     (\<forall>k i n. live_node sc0 k i = Some n \<longrightarrow> k \<notin> vis \<or> \<not> CanBeScheduled n \<longrightarrow> live_node sc k i = Some n) \<and>
     (\<forall>k i n. k \<in> vis \<longrightarrow> live_node sc0 k i = Some n \<longrightarrow> NeedsToBeReconciled n \<longrightarrow> needs)"

text \<open>The tasks added so far, each for a node of its own that could be scheduled and is starting now.\<close>

definition task_of :: "SchedulerCore \<Rightarrow> SchedulerCore \<Rightarrow> string \<Rightarrow> TaskInfo \<Rightarrow> bool" where
  "task_of sc0 sc k t \<longleftrightarrow>
     (\<exists>n n'. live_node sc0 k (ti_TaskId t) = Some n \<and> CanBeScheduled n \<and> live_node sc k (ti_TaskId t) = Some n' \<and>
        frn_CurrentState n' = Starting \<and> ti_Data t = TaskData_Serialize (frn_TaskData n'))"

definition tasks_for :: "SchedulerCore \<Rightarrow> OfferHelper \<Rightarrow> string set \<Rightarrow> SchedulerCore \<Rightarrow> OfferHelper \<Rightarrow> bool" where
  "tasks_for sc0 h0 vis sc h \<longleftrightarrow>
     (\<exists>ts. TasksToLaunch h = TasksToLaunch h0 @ ts \<and> distinct (map ti_TaskId ts) \<and>
        (\<forall>t \<in> set ts. \<exists>k \<in> vis. task_of sc0 sc k t))"

lemma answering_start: "ports_inv U P h \<Longrightarrow> answering U P sc h {} sc h False"
  by (simp add: answering_def)

lemma tasks_for_start: "tasks_for sc h {} sc h"
  by (simp add: tasks_for_def)

lemma live_node_fmupd:
  "ss_Clusters (sc_state sc') = fmupd k c (ss_Clusters (sc_state sc)) \<Longrightarrow>
    live_node sc' j i = (if j = k then fmlookup (frc_Nodes c) i else live_node sc j i)"
  by (simp add: live_node_def)

lemma answering_step:
  assumes "answering U P sc0 h0 vis sc h needs" and "k \<notin> vis"
    and "fmlookup (ss_Clusters (sc_state sc)) k = Some c"
    and "offering U P (frc_Nodes c) h (fset (fmdom (frc_Nodes c))) (frc_Nodes c') h' d need"
    and "ss_Clusters (sc_state sc') = fmupd k c' (ss_Clusters (sc_state sc))"
  shows "answering U P sc0 h0 (insert k vis) sc' h' (needs \<or> need)"
proof -
  note l = live_node_fmupd [OF assms(5)]
  have sk: "live_node sc k i = fmlookup (frc_Nodes c) i" for i using assms(3) by (simp add: live_node_def)
  have dom: "fmdom (frc_Nodes c') = fmdom (frc_Nodes c)" and "offer_frame h0 h'" and "ports_inv U P h'"
    using assms(1,4) by (auto simp: offering_def answering_def intro: offer_frame_trans)
  moreover have "same_shape sc sc'"
  proof -
    have "fmlookup (frc_Nodes c') i = None \<longleftrightarrow> fmlookup (frc_Nodes c) i = None" for i
      using dom by (metis fmdom_notD fmdom_notI)
    with assms(3,5) sk l show ?thesis by (auto simp: same_shape_def dest: fmdomI)
  qed
  moreover have n0: "fmlookup (frc_Nodes c) i = Some n" if "live_node sc0 k i = Some n" for i n
    using assms(1,2) that by (simp add: answering_def flip: sk)
  moreover have "live_node sc' j i = Some n"
    if n: "live_node sc0 j i = Some n" and j: "j \<notin> insert k vis \<or> \<not> CanBeScheduled n" for j i n
  proof (cases "j = k")
    case True
    with n j n0 assms(4) show ?thesis by (simp add: l offering_def)
  next
    case False
    with n j assms(1) show ?thesis by (auto simp: l answering_def)
  qed
  moreover have "needs \<or> need"
    if j: "j \<in> insert k vis" and n: "live_node sc0 j i = Some n" "NeedsToBeReconciled n" for j i n
  proof (cases "j = k")
    case True
    with n(1) n0 have c: "fmlookup (frc_Nodes c) i = Some n" by simp
    then have "i \<in> fset (fmdom (frc_Nodes c))" by (rule fmdomI)
    with c n(2) assms(4) show ?thesis unfolding offering_def by blast
  next
    case False
    with j n assms(1) show ?thesis unfolding answering_def by blast
  qed
  ultimately show ?thesis
    using assms(1) unfolding answering_def by (blast intro: same_shape_trans)
qed

lemma answering_skip:
  assumes "answering U P sc0 h0 vis sc h needs" and "\<forall>i. live_node sc0 k i = None"
  shows "answering U P sc0 h0 (insert k vis) sc h needs"
  using assms unfolding answering_def by (metis insert_iff option.distinct(1))

lemma task_of_mono:
  assumes "task_of sc0 sc k t" and "\<And>i. live_node sc' k i = live_node sc k i"
  shows "task_of sc0 sc' k t"
  using assms by (simp add: task_of_def)

lemma tasks_for_step:
  assumes "tasks_for sc0 h0 vis sc h" and "k \<notin> vis" and "core_ok sc0"
    and "fmlookup (ss_Clusters (sc_state sc)) k = Some c"
    and "\<And>i. live_node sc k i = live_node sc0 k i"
    and "launching (frc_Nodes c) h (fset (fmdom (frc_Nodes c))) (frc_Nodes c') h'"
    and "ss_Clusters (sc_state sc') = fmupd k c' (ss_Clusters (sc_state sc))"
  shows "tasks_for sc0 h0 (insert k vis) sc' h'"
proof -
  note l = live_node_fmupd [OF assms(7)]
  have sk: "live_node sc0 k i = fmlookup (frc_Nodes c) i" for i
    using assms(4) unfolding assms(5) [symmetric] by (simp add: live_node_def)
  from assms(1) obtain ts where ts: "TasksToLaunch h = TasksToLaunch h0 @ ts" "distinct (map ti_TaskId ts)"
    "\<forall>t \<in> set ts. \<exists>j \<in> vis. task_of sc0 sc j t" by (auto simp: tasks_for_def)
  from assms(6) obtain us where us: "TasksToLaunch h' = TasksToLaunch h @ us" "distinct (map ti_TaskId us)"
    "\<forall>t \<in> set us. task_of sc0 sc' k t"
    by (auto simp: launching_def task_of_def sk l)
  have "ti_TaskId t \<noteq> ti_TaskId u" if t: "t \<in> set ts" and u: "u \<in> set us" for t u
  proof
    assume eq: "ti_TaskId t = ti_TaskId u"
    from t ts(3) obtain j n where "j \<in> vis" "live_node sc0 j (ti_TaskId t) = Some n" by (auto simp: task_of_def)
    moreover from u us(3) obtain m where "live_node sc0 k (ti_TaskId u) = Some m" by (auto simp: task_of_def)
    ultimately have "k = j" using live_node_unique [OF assms(3)] eq by auto
    with \<open>j \<in> vis\<close> assms(2) show False by simp
  qed
  with ts(2) us(2) have "distinct (map ti_TaskId (ts @ us))" by auto
  moreover have "task_of sc0 sc' j t" if "j \<in> vis" "task_of sc0 sc j t" for j t
  proof (rule task_of_mono [OF that(2)])
    show "live_node sc' j i = live_node sc j i" for i using that(1) assms(2) l by auto
  qed
  with ts(3) us(3) have "\<forall>t \<in> set (ts @ us). \<exists>j \<in> insert k vis. task_of sc0 sc' j t"
    unfolding set_append by blast
  ultimately show ?thesis using ts(1) us(1) unfolding tasks_for_def by (metis append.assoc)
qed

text \<open>An offer the scheduler can rely on: sound ranges that do not overlap.\<close>

definition fresh_offer :: "Offer \<Rightarrow> bool" where
  "fresh_offer o1 \<longleftrightarrow> sound_offer o1 \<and> distinct (offer_ports o1)"

text \<open>The store, the helper package and the scheduler together.\<close>

locale scheduling = scheduler_store Z tree up + mesosutil_laws U
  for Z :: "(SchedulerData, 'w) zk_conn" and tree :: "'w \<Rightarrow> string \<Rightarrow> SchedulerData option option"
    and up :: "'w \<Rightarrow> bool" and U :: mesosutil
begin

lemma ApplyOffer_cases:
  assumes "core_ok sc" and "fmlookup (ss_Clusters (sc_state sc)) k = Some c"
    and "enumerates (oc_nodes ch k) (frc_Nodes c)" and "ports_inv U P h"
    and "ApplyOffer Z U ch k c h sc w = (r, sc', w')"
  obtains c' h' d need where "handled tree up sc w r sc' w'" "r = Inr (h', need) \<or> (\<exists>p. r = Inl p)"
    "ss_Clusters (sc_state sc') = fmupd k c' (ss_Clusters (sc_state sc))"
    "offering U P (frc_Nodes c) h (fset (fmdom (frc_Nodes c))) (frc_Nodes c') h' d need"
    "launching (frc_Nodes c) h (fset (fmdom (frc_Nodes c))) (frc_Nodes c') h'"
proof -
  let ?fw = "sc_frameworkName (sc_conf sc)"
  from assms(1,2) have c: "frc_Name c = k" "cluster_ok ?fw c"
    by (auto simp: core_ok_def data_ok_def dest: clusters_okD)
  obtain c' h' d need where a: "Cluster_ApplyOffer U (oc_rnd ch k) (sc_conf sc) (oc_nodes ch k) h c = Inr (c', h', d, need)"
    "cluster_ok ?fw c'" "c' = c\<lparr>frc_Nodes := frc_Nodes c'\<rparr>"
    "offering U P (frc_Nodes c) h (fset (fmdom (frc_Nodes c))) (frc_Nodes c') h' d need"
    "launching (frc_Nodes c) h (fset (fmdom (frc_Nodes c))) (frc_Nodes c') h'"
    using assms(4) c(2) assms(3) by (rule Cluster_ApplyOffer_ok)
  from arg_cong [OF a(3), of frc_Name] c(1) have "frc_Name c' = k" by simp
  with assms(1) a(2) have ok: "core_ok (update_cluster k c' sc)" by (intro core_ok_update_cluster)
  show thesis
  proof (cases d)
    case True
    with a(1) assms(5) have b: "bind_h (Persist Z) (\<lambda>err sc2 w2. (Inr (h', need), sc2, w2)) (update_cluster k c' sc) w = (r, sc', w')"
      by (simp add: ApplyOffer_def)
    have "same_setup sc (update_cluster k c' sc)" by (simp add: same_setup_def)
    from persist_then [OF ok this b] a(4,5) show thesis by (cases r; intro that) auto
  next
    case False
    with a(4) have "frc_Nodes c' = frc_Nodes c" by (simp add: offering_def)
    with a(3) have "c' = c" by simp
    with False a(1) assms(2,5) have "sc' = update_cluster k c sc" "w' = w" "r = Inr (h', need)"
      by (simp_all add: ApplyOffer_def)
    moreover have "update_cluster k c sc = sc"
    proof -
      have "fmupd k c (ss_Clusters (sc_state sc)) = ss_Clusters (sc_state sc)"
        using assms(2) by (intro fmap_ext) auto
      then show ?thesis by (simp add: update_cluster_def)
    qed
    moreover have "ss_Clusters (sc_state (update_cluster k c sc)) = fmupd k c' (ss_Clusters (sc_state sc))"
      using \<open>c' = c\<close> by simp
    ultimately show thesis
      using a(4,5) assms(1) by (intro that) auto
  qed
qed

end

context scheduling
begin

lemma offer_clusters_spec:
  assumes "core_ok sc0" and "choice_ok ch sc0"
    and "core_ok sc" and "answering U P sc0 h0 vis sc h needs" and "tasks_for sc0 h0 vis sc h"
    and "distinct ks" and "set ks \<inter> vis = {}"
    and "offer_clusters Z U ch ks h needs sc w = (r, sc', w')"
  shows "handled tree up sc w r sc' w' \<and>
    (\<forall>h' needs'. r = Inr (h', needs') \<longrightarrow>
      answering U P sc0 h0 (vis \<union> set ks) sc' h' needs' \<and> tasks_for sc0 h0 (vis \<union> set ks) sc' h')"
  using assms(3-8)
proof (induction ks arbitrary: vis sc h needs w)
  case Nil
  then show ?case by auto
next
  case (Cons k ks)
  have shape: "same_shape sc0 sc" using Cons.prems(2) by (simp add: answering_def)
  show ?case
  proof (cases "fmlookup (ss_Clusters (sc_state sc)) k")
    case None
    then have "k |\<notin>| fmdom (ss_Clusters (sc_state sc))" by (rule fmdom_notI)
    with shape have "fmlookup (ss_Clusters (sc_state sc0)) k = None"
      by (simp add: same_shape_def fmdom_notD)
    then have "\<forall>i. live_node sc0 k i = None" by (simp add: live_node_def)
    with Cons.prems(2) have "answering U P sc0 h0 (insert k vis) sc h needs" by (rule answering_skip)
    moreover have "tasks_for sc0 h0 (insert k vis) sc h"
      using Cons.prems(3) unfolding tasks_for_def by blast
    moreover have "offer_clusters Z U ch ks h needs sc w = (r, sc', w')"
      using Cons.prems(6) None by simp
    moreover have "distinct ks" "set ks \<inter> insert k vis = {}"
      using Cons.prems(4,5) by auto
    ultimately have "handled tree up sc w r sc' w' \<and> (\<forall>h' needs'. r = Inr (h', needs') \<longrightarrow>
        answering U P sc0 h0 (insert k vis \<union> set ks) sc' h' needs' \<and>
        tasks_for sc0 h0 (insert k vis \<union> set ks) sc' h')"
      using Cons.prems(1) by (intro Cons.IH)
    then show ?thesis by simp
  next
    case (Some c)
    have e: "enumerates (oc_nodes ch k) (frc_Nodes c)"
      using choice_ok_shape [OF assms(2) shape] Some by (simp add: choice_ok_def)
    have inv: "ports_inv U P h" using Cons.prems(2) by (simp add: answering_def)
    have k: "k \<notin> vis" using Cons.prems(5) by simp
    obtain r1 sc1 w1 where a: "ApplyOffer Z U ch k c h sc w = (r1, sc1, w1)"
      by (cases "ApplyOffer Z U ch k c h sc w") auto
    obtain c' h1 d need where o: "handled tree up sc w r1 sc1 w1" "r1 = Inr (h1, need) \<or> (\<exists>p. r1 = Inl p)"
      "ss_Clusters (sc_state sc1) = fmupd k c' (ss_Clusters (sc_state sc))"
      "offering U P (frc_Nodes c) h (fset (fmdom (frc_Nodes c))) (frc_Nodes c') h1 d need"
      "launching (frc_Nodes c) h (fset (fmdom (frc_Nodes c))) (frc_Nodes c') h1"
      using Cons.prems(1) Some e inv a by (rule ApplyOffer_cases)
    show ?thesis
    proof (cases r1)
      case (Inl p)
      with Cons.prems(6) Some a o(1) show ?thesis by (auto simp: bind_h_def intro: handled_result)
    next
      case (Inr x)
      with o(2) have r1: "r1 = Inr (h1, need)" by auto
      have same: "live_node sc k i = live_node sc0 k i" for i
      proof (cases "live_node sc0 k i")
        case None
        with shape show ?thesis by (simp add: same_shape_def)
      next
        case (Some n)
        with Cons.prems(2) k show ?thesis by (simp add: answering_def)
      qed
      note step = answering_step [OF Cons.prems(2) k Some o(4,3)]
        tasks_for_step [OF Cons.prems(3) k assms(1) Some same o(5,3)]
      have "core_ok sc1" using o(1) by (simp add: handled_def)
      moreover have "offer_clusters Z U ch ks h1 (needs \<or> need) sc1 w1 = (r, sc', w')"
        using Cons.prems(6) Some a r1 by (simp add: bind_h_def)
      moreover have "set ks \<inter> insert k vis = {}" "distinct ks" using Cons.prems(4,5) by auto
      ultimately have "handled tree up sc1 w1 r sc' w' \<and> (\<forall>h' needs'. r = Inr (h', needs') \<longrightarrow>
          answering U P sc0 h0 (insert k vis \<union> set ks) sc' h' needs' \<and>
          tasks_for sc0 h0 (insert k vis \<union> set ks) sc' h')"
        using step by (intro Cons.IH [where h = h1 and needs = "needs \<or> need"])
      note ih = this
      have "handled tree up sc w r sc' w'"
        by (rule handled_trans [OF o(1) [unfolded r1] conjunct1 [OF ih]])
      with ih show ?thesis by simp
    qed
  qed
qed

end

end
