(* ===== verification/Callbacks.thy ===== *)
theory Callbacks
  imports Scheduler
begin

text \<open>
  What the callbacks of \<^verbatim>\<open>scheduler/scheduler.go\<close> do: the answers to offers, status updates, and what a
  scheduler knows after it has been started again.
\<close>

section \<open>One offer\<close>

definition launched_tasks :: "Offer_Operation list \<Rightarrow> TaskInfo list" where
  "launched_tasks ops = concat (map (\<lambda>op. case op of LAUNCH ts \<Rightarrow> ts | _ \<Rightarrow> []) ops)"

definition gives_back :: "Offer_Operation list \<Rightarrow> bool" where
  "gives_back ops \<longleftrightarrow> list_ex (\<lambda>op. case op of DESTROY _ \<Rightarrow> True | UNRESERVE _ \<Rightarrow> True | _ \<Rightarrow> False) ops"

text \<open>
  The answer to one offer: its tasks have distinct ids, no port in common and only ports of the offer,
  their data names their first three ports, and an answer that launches a task gives nothing back.
\<close>

definition good_answer :: "mesosutil \<Rightarrow> Offer \<Rightarrow> Offer_Operation list \<Rightarrow> bool" where
  "good_answer U offer ops \<longleftrightarrow>
     distinct (map ti_TaskId (launched_tasks ops)) \<and>
     distinct (concat (map (task_ports U) (launched_tasks ops))) \<and>
     set (concat (map (task_ports U) (launched_tasks ops))) \<subseteq> set (offer_ports offer) \<and>
     list_all (task_ports_ok U) (launched_tasks ops) \<and>
     (gives_back ops \<longrightarrow> launched_tasks ops = [])"

text \<open>
  The answers to several offers, with \<open>sc\<close> the scheduler before and \<open>sc'\<close> after them: all tasks of all
  answers have distinct ids, each belongs to a living node that could be scheduled and is starting now
  with the data of the task, a node that could not be scheduled is as it was, and nothing is given back
  while some node waits to be reconciled.
\<close>

definition all_tasks :: "(Offer \<times> Offer_Operation list) list \<Rightarrow> TaskInfo list" where
  "all_tasks ps = concat (map (\<lambda>(offer, ops). launched_tasks ops) ps)"

definition good_answers ::
  "mesosutil \<Rightarrow> SchedulerCore \<Rightarrow> SchedulerCore \<Rightarrow> (Offer \<times> Offer_Operation list) list \<Rightarrow> bool" where
  "good_answers U sc sc' ps \<longleftrightarrow>
     same_shape sc sc' \<and>
     (\<forall>k i n. live_node sc k i = Some n \<longrightarrow> \<not> CanBeScheduled n \<longrightarrow> live_node sc' k i = Some n) \<and>
     list_all (\<lambda>(offer, ops). good_answer U offer ops) ps \<and>
     distinct (map ti_TaskId (all_tasks ps)) \<and>
     (\<forall>t \<in> set (all_tasks ps). \<exists>k. task_of sc sc' k t) \<and>
     (list_ex (\<lambda>(offer, ops). gives_back ops) ps \<longrightarrow>
        (\<forall>k i n. live_node sc k i = Some n \<longrightarrow> \<not> NeedsToBeReconciled n))"

lemma good_answers_Nil [simp]: "good_answers U sc sc []"
  by (simp add: good_answers_def all_tasks_def)

lemma starting_settled: "frn_CurrentState n = Starting \<Longrightarrow> \<not> CanBeScheduled n"
  by (simp add: CanBeScheduled_iff)

lemma unreconciled_settled: "NeedsToBeReconciled n \<Longrightarrow> \<not> CanBeScheduled n"
  by (simp add: CanBeScheduled_def)

lemma good_answers_append:
  assumes p: "good_answers U sc sc1 ps" and q: "good_answers U sc1 sc2 qs" and ok: "core_ok sc1"
  shows "good_answers U sc sc2 (ps @ qs)"
proof -
  have settled: "live_node sc2 k i = Some n" if "live_node sc k i = Some n" "\<not> CanBeScheduled n" for k i n
    using that p q unfolding good_answers_def by blast
  have shape: "same_shape sc sc2"
    using p q unfolding good_answers_def by (blast intro: same_shape_trans)
  have pt: "task_of sc sc2 k t \<and> (\<exists>n. live_node sc1 k (ti_TaskId t) = Some n \<and> \<not> CanBeScheduled n)"
    if t: "task_of sc sc1 k t" for k t
  proof -
    from t obtain n n' where "live_node sc k (ti_TaskId t) = Some n" "CanBeScheduled n" and
      n': "live_node sc1 k (ti_TaskId t) = Some n'" "frn_CurrentState n' = Starting" "ti_Data t = TaskData_Serialize (frn_TaskData n')"
      by (auto simp: task_of_def)
    moreover from n'(2) have "\<not> CanBeScheduled n'" by (rule starting_settled)
    moreover from q n'(1) this have "live_node sc2 k (ti_TaskId t) = Some n'" unfolding good_answers_def by blast
    ultimately show ?thesis by (auto simp: task_of_def)
  qed
  have qt: "task_of sc sc2 k t" if t: "task_of sc1 sc2 k t" for k t
  proof -
    from t obtain n n' where n: "live_node sc1 k (ti_TaskId t) = Some n" "CanBeScheduled n" and
      n': "live_node sc2 k (ti_TaskId t) = Some n'" "frn_CurrentState n' = Starting" "ti_Data t = TaskData_Serialize (frn_TaskData n')"
      by (auto simp: task_of_def)
    have "same_shape sc sc1" using p by (simp add: good_answers_def)
    with n(1) obtain m where m: "live_node sc k (ti_TaskId t) = Some m"
      by (metis option.exhaust option.simps(3) same_shape_def)
    have "CanBeScheduled m"
    proof (rule ccontr)
      assume "\<not> CanBeScheduled m"
      with m p have "live_node sc1 k (ti_TaskId t) = Some m" unfolding good_answers_def by blast
      with n \<open>\<not> CanBeScheduled m\<close> show False by simp
    qed
    with m n' show ?thesis by (auto simp: task_of_def)
  qed
  have pq: "ti_TaskId t \<noteq> ti_TaskId u" if t: "t \<in> set (all_tasks ps)" and u: "u \<in> set (all_tasks qs)" for t u
  proof
    assume eq: "ti_TaskId t = ti_TaskId u"
    from t p pt obtain k n where n: "live_node sc1 k (ti_TaskId t) = Some n" "\<not> CanBeScheduled n"
      unfolding good_answers_def by blast
    from u q obtain j m where "live_node sc1 j (ti_TaskId u) = Some m" "CanBeScheduled m"
      unfolding good_answers_def task_of_def by blast
    with n eq live_node_unique [OF ok, of k "ti_TaskId t" n j m] show False by auto
  qed
  have tasks: "all_tasks (ps @ qs) = all_tasks ps @ all_tasks qs" by (simp add: all_tasks_def)
  have "distinct (map ti_TaskId (all_tasks (ps @ qs)))"
    using p q pq unfolding tasks good_answers_def by auto
  moreover have "\<forall>t \<in> set (all_tasks (ps @ qs)). \<exists>k. task_of sc sc2 k t"
    using p q pt qt unfolding tasks good_answers_def set_append by blast
  moreover have "\<not> NeedsToBeReconciled n"
    if b: "list_ex (\<lambda>(offer, ops). gives_back ops) (ps @ qs)" and n: "live_node sc k i = Some n" for k i n
  proof
    assume u: "NeedsToBeReconciled n"
    with n p have "live_node sc1 k i = Some n" unfolding good_answers_def by (blast dest: unreconciled_settled)
    with b n u p q show False unfolding good_answers_def list_ex_append by blast
  qed
  ultimately show ?thesis
    using p q settled shape unfolding good_answers_def list_all_append by blast
qed

context scheduling
begin

lemma Operations_launched [simp]: "launched_tasks (Operations U h) = TasksToLaunch h"
  by (simp add: launched_tasks_def Operations_eq)

lemma Operations_gives_back [simp]:
  "gives_back (Operations U h) \<longleftrightarrow> VolumesToDestroy h \<noteq> [] \<or> ResourcesToUneserve h \<noteq> []"
  by (simp add: gives_back_def Operations_eq)

lemma fresh_offer_start:
  assumes "fresh_offer offer"
  obtains h where "NewOfferHelper U offer = Inr h" "ports_inv U (offer_ports offer) h" "TasksToLaunch h = []"
    "ResourcesToUneserve h = []" "VolumesToDestroy h = []"
proof -
  from assms have s: "sound_offer offer" and d: "distinct (offer_ports offer)" by (simp_all add: fresh_offer_def)
  from s obtain h where h: "NewOfferHelper U offer = Inr h"
    "mset (rg_Ports (UnreservedResources h)) + mset (rg_Ports (ReservedResources h)) = mset (offer_ports offer)"
    "\<forall>p \<in> set (rg_Ports (UnreservedResources h)). valid_port p"
    "TasksToLaunch h = []" "ResourcesToUneserve h = []" "VolumesToDestroy h = []"
    by (rule NewOfferHelper_ok)
  from h(2) have m: "mset (rg_Ports (UnreservedResources h) @ rg_Ports (ReservedResources h)) = mset (offer_ports offer)"
    by simp
  from mset_eq_imp_distinct_iff [OF m] mset_eq_setD [OF m] d h(3,4)
  have "ports_inv U (offer_ports offer) h" by (auto simp: ports_inv_def good_ports_def)
  with h show thesis by (intro that)
qed

lemma MaybeUnreserve_total: "\<exists>h'. MaybeUnreserve U h = Inr h'"
  by (cases "TasksToLaunch h = []") (auto simp: MaybeUnreserve_launching elim: MaybeUnreserve_volumes)

lemma operations_for_offer_spec:
  assumes "core_ok sc" and "choice_ok ch sc" and "fresh_offer offer"
    and "operations_for_offer Z U ch offer sc w = (r, sc', w')"
  shows "handled tree up sc w r sc' w' \<and> (\<forall>ops. r = Inr ops \<longrightarrow> good_answers U sc sc' [(offer, ops)])"
proof -
  from assms(3) obtain h where h: "NewOfferHelper U offer = Inr h" "ports_inv U (offer_ports offer) h"
    "TasksToLaunch h = []" "ResourcesToUneserve h = []" "VolumesToDestroy h = []"
    by (rule fresh_offer_start)
  obtain r1 sc1 w1 where o: "offer_clusters Z U ch (oc_clusters ch) h False sc w = (r1, sc1, w1)"
    by (cases "offer_clusters Z U ch (oc_clusters ch) h False sc w") auto
  have e: "distinct (oc_clusters ch)" "set (oc_clusters ch) = fset (fmdom (ss_Clusters (sc_state sc)))"
    using assms(2) by (auto simp: choice_ok_def enumerates_def simp flip: fset_of_list.rep_eq)
  let ?vis = "set (oc_clusters ch)"
  have spec: "handled tree up sc w r1 sc1 w1 \<and> (\<forall>h' needs'. r1 = Inr (h', needs') \<longrightarrow>
      answering U (offer_ports offer) sc h ({} \<union> ?vis) sc1 h' needs' \<and> tasks_for sc h ({} \<union> ?vis) sc1 h')"
    using assms(1,2) assms(1) answering_start [OF h(2)] tasks_for_start e(1) _ o
    by (rule offer_clusters_spec) simp
  show ?thesis
  proof (cases r1)
    case (Inl p)
    with assms(4) h(1) o spec show ?thesis
      by (auto simp: operations_for_offer_def bind_h_def intro: handled_result)
  next
    case (Inr x)
    then obtain h1 needs where r1: "r1 = Inr (h1, needs)" by (cases x) auto
    obtain h2 where h2: "(if needs then Inr h1 else MaybeUnreserve U h1) = Inr h2"
      using MaybeUnreserve_total [of h1] by (cases needs) auto
    with assms(4) h(1) o r1 have res: "r = Inr (Operations U h2)" "sc' = sc1" "w' = w1"
      by (simp_all add: operations_for_offer_def bind_h_def)
    from spec r1 have a: "answering U (offer_ports offer) sc h ?vis sc1 h1 needs" and t: "tasks_for sc h ?vis sc1 h1"
      by simp_all
    have ts: "TasksToLaunch h2 = TasksToLaunch h1"
      using h2 MaybeUnreserve_frame(1) by (cases needs) auto
    have tasks: "distinct (map ti_TaskId (TasksToLaunch h1))" "\<forall>t \<in> set (TasksToLaunch h1). \<exists>k. task_of sc sc1 k t"
      using t h(3) by (auto simp: tasks_for_def)
    have f: "VolumesToDestroy h1 = []" "ResourcesToUneserve h1 = []"
      using a h(4,5) by (simp_all add: answering_def offer_frame_def)
    have gb: "TasksToLaunch h1 = [] \<and> \<not> needs" if b: "VolumesToDestroy h2 \<noteq> [] \<or> ResourcesToUneserve h2 \<noteq> []"
    proof -
      from b f h2 have n: "\<not> needs" by (cases needs) auto
      moreover have "TasksToLaunch h1 = []"
        using b f h2 n MaybeUnreserve_launching [of h1 U] by (cases "TasksToLaunch h1 = []") auto
      ultimately show ?thesis by simp
    qed
    have "ports_inv U (offer_ports offer) h1" using a by (simp add: answering_def)
    then have "good_answer U offer (Operations U h2)"
      using tasks(1) gb unfolding good_answer_def Operations_launched Operations_gives_back ts
      by (simp add: ports_inv_def good_ports_def)
    moreover have "\<not> NeedsToBeReconciled m" if n: "\<not> needs" and m: "live_node sc k i = Some m" for k i m
    proof -
      have "k \<in> ?vis" using m e(2) by (auto simp: live_node_def intro: fmdomI split: option.splits)
      with a m n show ?thesis unfolding answering_def by blast
    qed
    moreover have "live_node sc1 k i = Some n"
      if "live_node sc k i = Some n" "\<not> CanBeScheduled n" for k i n
      using a that unfolding answering_def by blast
    moreover have "same_shape sc sc1" using a by (simp add: answering_def)
    ultimately have "good_answers U sc sc1 [(offer, Operations U h2)]"
      using tasks gb unfolding good_answers_def all_tasks_def by (simp add: ts)
    moreover have "handled tree up sc w r sc' w'"
      using spec r1 res by (auto simp: handled_def)
    ultimately show ?thesis using res by simp
  qed
qed

end


section \<open>Several offers\<close>

definition choices_ok :: "(nat \<Rightarrow> OfferChoice) \<Rightarrow> SchedulerCore \<Rightarrow> bool" where
  "choices_ok ch sc \<longleftrightarrow> (\<forall>i. choice_ok (ch i) sc)"

lemma choices_ok_shape: "choices_ok ch sc \<Longrightarrow> same_shape sc sc' \<Longrightarrow> choices_ok ch sc'"
  by (auto simp: choices_ok_def intro: choice_ok_shape)

lemma answers_lookup:
  assumes "distinct (map of_Id offers)" and "length opss = length offers"
  shows "map (\<lambda>offer. (offer, case fmlookup (fold (\<lambda>(offer, ops). fmupd (of_Id offer) ops) (zip offers opss) m) (of_Id offer)
      of None \<Rightarrow> [] | Some ops \<Rightarrow> ops)) offers = zip offers opss"
  using assms
proof (induction offers arbitrary: opss m)
  case Nil
  then show ?case by simp
next
  case (Cons offer offers)
  then obtain ops opss' where o: "opss = ops # opss'" "length opss' = length offers"
    by (cases opss) auto
  have "fmlookup (fold (\<lambda>(offer, ops). fmupd (of_Id offer) ops) (zip offers opss') m') (of_Id offer) =
      fmlookup m' (of_Id offer)" if "of_Id offer \<notin> of_Id ` set offers" for m'
    using o(2) that by (induction offers opss' arbitrary: m' rule: list_induct2') auto
  with Cons o show ?case by simp
qed

context scheduling
begin

lemma createOperationsForOffers_spec:
  assumes "core_ok sc" and "choices_ok ch sc" and "list_all fresh_offer offers"
    and "createOperationsForOffers Z U ch i offers m sc w = (r, sc', w')"
  shows "handled tree up sc w r sc' w' \<and> (\<forall>m'. r = Inr m' \<longrightarrow>
    (\<exists>opss. length opss = length offers \<and> good_answers U sc sc' (zip offers opss) \<and>
       m' = fold (\<lambda>(offer, ops). fmupd (of_Id offer) ops) (zip offers opss) m))"
  using assms
proof (induction offers arbitrary: i m sc w)
  case Nil
  then show ?case by auto
next
  case (Cons offer offers)
  from Cons.prems(4) have "bind_h (operations_for_offer Z U (ch i) offer)
      (\<lambda>ops. createOperationsForOffers Z U ch (i + 1) offers (fmupd (of_Id offer) ops m)) sc w = (r, sc', w')"
    by simp
  then show ?case
  proof (cases rule: bind_h_cases)
    case (panicked p)
    with operations_for_offer_spec [of sc "ch i" offer w] Cons.prems(1-3) show ?thesis
      by (auto simp: choices_ok_def intro: handled_result)
  next
    case (returned ops sc1 w1)
    with operations_for_offer_spec [OF _ _ _ returned(1)] Cons.prems(1-3)
    have h: "handled tree up sc w (Inr ops) sc1 w1" "good_answers U sc sc1 [(offer, ops)]"
      by (auto simp: choices_ok_def)
    then have ok: "core_ok sc1" "choices_ok ch sc1"
      using Cons.prems(2) by (auto simp: handled_def good_answers_def intro: choices_ok_shape)
    note ih = Cons.IH [OF ok _ returned(2)]
    from ih Cons.prems(3) have h1: "handled tree up sc1 w1 r sc' w'" by simp
    have "\<exists>opss. length opss = length (offer # offers) \<and> good_answers U sc sc' (zip (offer # offers) opss) \<and>
       m' = fold (\<lambda>(offer, ops). fmupd (of_Id offer) ops) (zip (offer # offers) opss) m" if m': "r = Inr m'" for m'
    proof -
      from ih Cons.prems(3) m' obtain opss where o: "length opss = length offers"
        "good_answers U sc1 sc' (zip offers opss)"
        "m' = fold (\<lambda>(offer, ops). fmupd (of_Id offer) ops) (zip offers opss) (fmupd (of_Id offer) ops m)"
        by auto
      with good_answers_append [OF h(2) o(2) ok(1)] show ?thesis
        by (intro exI [of _ "ops # opss"]) simp
    qed
    with handled_trans [OF h(1) h1] show ?thesis by blast
  qed
qed

lemma ResourceOffers_spec:
  assumes "core_ok sc" and "choices_ok ch sc" and "list_all fresh_offer offers" and "distinct (map of_Id offers)"
    and "ResourceOffers Z U ch offers sc w = (r, sc', w')"
  shows "handled tree up sc w r sc' w'" and "r = Inr ps \<Longrightarrow> map fst ps = offers \<and> good_answers U sc sc' ps"
proof -
  note spec = createOperationsForOffers_spec [OF assms(1-3)]
  from assms(5) have "handled tree up sc w r sc' w' \<and> (r = Inr ps \<longrightarrow> map fst ps = offers \<and> good_answers U sc sc' ps)"
    unfolding ResourceOffers_def
  proof (cases rule: bind_h_cases)
    case (panicked p)
    with spec [OF panicked(1)] show ?thesis by (auto intro: handled_result)
  next
    case (returned m' sc1 w1)
    with spec [OF returned(1)] obtain opss where o: "length opss = length offers"
      "good_answers U sc sc1 (zip offers opss)"
      "m' = fold (\<lambda>(offer, ops). fmupd (of_Id offer) ops) (zip offers opss) fmempty"
      and h: "handled tree up sc w (Inr m') sc1 w1" by auto
    from returned(2) answers_lookup [OF assms(4) o(1), of fmempty] o(3)
    have "r = Inr (zip offers opss)" "sc' = sc1" "w' = w1" by simp_all
    with o h show ?thesis by (auto simp: handled_def)
  qed
  then show "handled tree up sc w r sc' w'" "r = Inr ps \<Longrightarrow> map fst ps = offers \<and> good_answers U sc sc' ps"
    by simp_all
qed

end


section \<open>Status updates\<close>

lemma find_cluster_Some:
  "find_cluster m i ks = Some k \<Longrightarrow> k \<in> set ks \<and> (\<exists>c. fmlookup m k = Some c \<and> HasNode c i)"
  by (induction ks) (auto split: option.splits if_splits)

lemma find_cluster_None:
  "find_cluster m i ks = None \<longleftrightarrow> (\<forall>k \<in> set ks. \<forall>c. fmlookup m k = Some c \<longrightarrow> \<not> HasNode c i)"
  by (induction ks) (auto split: option.splits)

lemma HasNode_ok:
  assumes "clusters_ok fw m" and "fmlookup m k = Some c" and "HasNode c i"
  obtains n b where "i = CurrentID n" "node_ok fw k b n"
proof -
  from clusters_okD [OF assms(1,2)] have "nodes_ok fw k (cluster_size c) (frc_Nodes c)"
    "nodes_ok fw k (cluster_size c) (frc_Graveyard c)" by (auto simp: cluster_ok_def)
  with assms(3) that show thesis by (auto simp: HasNode_def dest: nodes_okD)
qed

text \<open>An id is known to one cluster only, so the order in which the map is visited does not matter.\<close>

lemma find_cluster_eq:
  assumes "clusters_ok fw m" and "enumerates ks m" and "fmlookup m k = Some c" and "HasNode c i"
  shows "find_cluster m i ks = Some k"
proof (cases "find_cluster m i ks")
  case None
  moreover have "k \<in> set ks" using assms(2,3) by (auto simp: enumerates_lookup)
  ultimately show ?thesis using assms(3,4) by (auto simp: find_cluster_None)
next
  case (Some j)
  then obtain d where d: "fmlookup m j = Some d" "HasNode d i" by (auto dest: find_cluster_Some)
  from HasNode_ok [OF assms(1) d] HasNode_ok [OF assms(1,3,4)] have "j = k"
    by (metis CurrentID_eq_iff node_ok_def order_trans zero_le_one)
  with Some show ?thesis by simp
qed

context scheduler_store
begin

lemma StatusUpdate_ok:
  assumes "core_ok sc" and "StatusUpdate Z net cks nks gks status sc w = (r, sc', w')"
  shows "handled tree up sc w r sc' w'"
proof (cases "find_cluster (ss_Clusters (sc_state sc)) (ts_TaskId status) cks")
  case None
  with assms show ?thesis by (auto simp: StatusUpdate_def split: option.splits)
next
  case (Some k)
  then obtain c where c: "fmlookup (ss_Clusters (sc_state sc)) k = Some c" "HasNode c (ts_TaskId status)"
    by (auto dest: find_cluster_Some)
  let ?fw = "sc_frameworkName (sc_conf sc)"
  from assms(1) c(1) have k: "frc_Name c = k" "cluster_ok ?fw c"
    by (auto simp: core_ok_def data_ok_def dest: clusters_okD)
  obtain c' sent where u: "HandleNodeStatusUpdate net nks status c = Inr (c', sent)" "cluster_ok ?fw c'"
    "frc_Name c' = frc_Name c"
    by (rule HandleNodeStatusUpdate_ok [OF k(2) c(2)])
  have b: "bind_h (Persist Z) (\<lambda>err sc1 w1. (Inr HandledUpdate, sc1, w1)) (update_cluster k c' sc) w = (r, sc', w')"
    using assms(2) Some c(1) u(1) by (simp add: StatusUpdate_def)
  have "core_ok (update_cluster k c' sc)"
    using assms(1) u(2,3) k(1) by (intro core_ok_update_cluster) simp_all
  then show ?thesis by (rule persist_then [OF _ _ b]) (simp add: same_setup_def)
qed

lemma StatusUpdate_alive:
  assumes "core_ok sc" and "enumerates cks (ss_Clusters (sc_state sc))"
    and "live_node sc k (ts_TaskId status) = Some n"
    and "StatusUpdate Z net cks nks gks status sc w = (Inr out, sc', w')"
  shows "out = HandledUpdate \<and> saved tree sc' w' \<and>
    (\<forall>j i. live_node sc' j i =
       (if j = k \<and> i = ts_TaskId status then Some (status_effect status n) else live_node sc j i))"
proof -
  from assms(3) obtain c where c: "fmlookup (ss_Clusters (sc_state sc)) k = Some c"
    "fmlookup (frc_Nodes c) (ts_TaskId status) = Some n" by (auto simp: live_node_def split: option.splits)
  let ?fw = "sc_frameworkName (sc_conf sc)"
  from assms(1) have m: "clusters_ok ?fw (ss_Clusters (sc_state sc))" by (simp add: core_ok_def data_ok_def)
  from clusters_okD [OF m c(1)] have k: "frc_Name c = k" "cluster_ok ?fw c" by simp_all
  have "ts_TaskId status |\<in>| fmdom (frc_Nodes c)" using c(2) by (rule fmdomI)
  with k(2) have "ts_TaskId status |\<notin>| fmdom (frc_Graveyard c)" by (auto simp: cluster_ok_def)
  then have g: "fmlookup (frc_Graveyard c) (ts_TaskId status) = None" by (rule fmdom_notD)
  have f: "find_cluster (ss_Clusters (sc_state sc)) (ts_TaskId status) cks = Some k"
    using m assms(2) c(1) by (rule find_cluster_eq) (simp add: HasNode_def c(2))
  obtain sent where u: "HandleNodeStatusUpdate net nks status c =
      Inr (c\<lparr>frc_Nodes := fmupd (ts_TaskId status) (status_effect status n) (frc_Nodes c)\<rparr>, sent)"
    by (rule HandleNodeStatusUpdate_alive [OF g c(2)])
  let ?c' = "c\<lparr>frc_Nodes := fmupd (ts_TaskId status) (status_effect status n) (frc_Nodes c)\<rparr>"
  have b: "bind_h (Persist Z) (\<lambda>err sc1 w1. (Inr HandledUpdate, sc1, w1)) (update_cluster k ?c' sc) w = (Inr out, sc', w')"
    using assms(4) f c(1) u by (simp add: StatusUpdate_def)
  have i: "ts_TaskId status = CurrentID n"
    using k(2) c(2) by (auto simp: cluster_ok_def dest: nodes_okD)
  have "cluster_ok ?fw ?c'"
    using i cluster_ok_upd [OF k(2) c(2), of "status_effect status n"] status_effect_ok by simp
  with assms(1) k(1) have "core_ok (update_cluster k ?c' sc)" by (intro core_ok_update_cluster) simp_all
  moreover have "same_setup sc (update_cluster k ?c' sc)" by (simp add: same_setup_def)
  ultimately have p: "out = HandledUpdate \<and> saved tree sc' w'"
    "ss_Clusters (sc_state sc') = fmupd k ?c' (ss_Clusters (sc_state sc))"
    using persist_then [OF _ _ b] by simp_all
  have l: "live_node sc k j = fmlookup (frc_Nodes c) j" for j using c(1) by (simp add: live_node_def)
  show ?thesis using p(1) live_node_fmupd [OF p(2)] by (auto simp: l)
qed

end


section \<open>Handlers\<close>

text \<open>
  The contract every handler of the scheduler meets, as the interface the rest of the system relies on.
  \<open>ok\<close> says for which schedulers the arguments of the handler are meant: that an order enumerates the map
  it stands for, say.
\<close>

locale scheduler_handler =
  fixes tree :: "'w \<Rightarrow> string \<Rightarrow> SchedulerData option option"
    and up :: "'w \<Rightarrow> bool"
    and handle :: "('a, 'w) handler"
    and ok :: "SchedulerCore \<Rightarrow> bool"
  assumes handles: "core_ok sc \<Longrightarrow> ok sc \<Longrightarrow> handle sc w = (r, sc', w') \<Longrightarrow> handled tree up sc w r sc' w'"
begin

text \<open>Well-formedness in memory and in the store, whatever the outcome.\<close>

lemma keeps_well_formed:
  assumes "core_ok sc" and "stored_ok tree sc w" and "ok sc" and "handle sc w = (r, sc', w')"
  shows "core_ok sc' \<and> stored_ok tree sc' w' \<and> same_setup sc sc'"
  using handles [OF assms(1,3,4)] assms(2) by (simp add: handled_def)

text \<open>A handler that returns has saved what it changed.\<close>

lemma keeps_saved:
  assumes "core_ok sc" and "saved tree sc w" and "ok sc" and "handle sc w = (Inr x, sc', w')"
  shows "saved tree sc' w'"
  using handles [OF assms(1,3,4)] assms(2) by (rule handled_saved)

text \<open>Only the store makes a handler panic.\<close>

lemma returns:
  assumes "core_ok sc" and "ready tree up sc w" and "ok sc"
  obtains x sc' w' where "handle sc w = (Inr x, sc', w')" "core_ok sc'" "ready tree up sc' w'"
proof -
  obtain r sc' w' where h: "handle sc w = (r, sc', w')" by (cases "handle sc w") auto
  from handles [OF assms(1,3) h] assms(2) have "core_ok sc'" "ready tree up sc' w'" "\<not> isl r"
    by (simp_all add: handled_def)
  with h that show thesis by (cases r) auto
qed

end

sublocale scheduler_store \<subseteq> registered: scheduler_handler tree up "Registered Z fid" "\<lambda>_. True" for fid
  by unfold_locales (rule Registered_ok(1))

sublocale scheduler_store \<subseteq> reregistered: scheduler_handler tree up Reregistered "\<lambda>_. True"
  by unfold_locales
    (auto simp: Reregistered_def handled_def enable_def core_ok_def same_setup_def stored_ok_def saved_def ready_def unchanged_def)

sublocale scheduler_store \<subseteq> updates: scheduler_handler tree up "StatusUpdate Z net cks nks gks status" "\<lambda>_. True"
  for net cks nks gks status
  by unfold_locales (rule StatusUpdate_ok)

definition offers_ok :: "(nat \<Rightarrow> OfferChoice) \<Rightarrow> Offer list \<Rightarrow> SchedulerCore \<Rightarrow> bool" where
  "offers_ok ch offers sc \<longleftrightarrow> choices_ok ch sc \<and> list_all fresh_offer offers \<and> distinct (map of_Id offers)"

sublocale scheduling \<subseteq> offers: scheduler_handler tree up "ResourceOffers Z U ch offers" "offers_ok ch offers" for ch offers
  by unfold_locales (auto simp: offers_ok_def intro: ResourceOffers_spec(1))

text \<open>The store in memory with the concrete helper package.\<close>

interpretation sim: scheduling mem_zk mem_tree "\<lambda>w. mw_faults w = []" std_util
  by unfold_locales

end
