(* ===== verification/Failover.thy ===== *)
theory Failover
  imports Callbacks
begin

text \<open>
  Starting again, \<^verbatim>\<open>scheduler/state.go\<close> and \<^verbatim>\<open>NewSchedulerCore\<close>: a scheduler that starts finds the state its
  predecessor saved last, and until it has heard about a task it neither relaunches its node nor gives
  resources back.
\<close>

section \<open>Loading the state\<close>

context zookeeper
begin

lemma NewMetadataManager_store:
  fixes fw zks
  defines "m \<equiv> \<lparr>mgr_frameworkID = fw, mgr_zookeepers = zks\<rparr>"
  assumes "NewMetadataManager Z fw zks w = (r, w')"
  shows "tree w' (state_path m) = tree w (state_path m) \<and> (\<forall>mgr. r = Inr mgr \<longrightarrow> mgr = m)"
proof -
  obtain r1 w1 where c: "CreateConnection Z m w = (r1, w1)" by (cases "CreateConnection Z m w") auto
  obtain r2 w2 where e: "create_each Z False (prefix_paths (GetComponents (mgr_namespace m))) w1 = (r2, w2)"
    by (cases "create_each Z False (prefix_paths (GetComponents (mgr_namespace m))) w1") auto
  have "state_path m \<notin> set (prefix_paths (GetComponents (mgr_namespace m)))"
    using prefix_paths_shorter by (fastforce simp: state_path_def state_ns_def makeSubSpace_def)
  with create_each_tree [OF e] CreateConnection_tree [OF c]
  have "tree w1 (state_path m) = tree w (state_path m)" "tree w2 (state_path m) = tree w (state_path m)" by simp_all
  with assms(2) c e show ?thesis
    by (auto simp: NewMetadataManager_def CreateNSIfNotExists_def bind_io_def Let_def m_def [symmetric] split: sum.splits)
qed

end

context scheduler_store
begin

text \<open>The state that is loaded is the one that is stored, or a new one where there is none.\<close>

lemma GetSchedulerState_tree:
  assumes "GetSchedulerState Z mgr w = (Inr ss, w')"
  obtains (found) n d where "tree w (state_path mgr) = Some (Some d)" "tree w' = tree w" "ss = with_node n d"
      "zn_ns n = state_ns mgr" "zn_stat n \<noteq> None"
  | (fresh) n where "tree w (state_path mgr) = None" "ss = with_node n emptySchedulerState"
      "tree w' = (tree w)(state_path mgr := Some (Some (serialize emptySchedulerState)))"
      "zn_ns n = state_ns mgr" "zn_stat n \<noteq> None"
proof -
  obtain r1 w1 where root: "GetRootNode Z mgr w = (r1, w1)" by (cases "GetRootNode Z mgr w") auto
  note t1 = GetRootNode_tree [OF root]
  from assms root obtain rt where rt: "r1 = Inr rt" by (cases r1) (auto simp: GetSchedulerState_def bind_io_def)
  with t1 have ns: "makeSubSpace (zn_ns rt) ''SchedulerState'' = state_ns mgr" by (simp add: state_ns_def)
  obtain r2 w2 where child: "getNode Z mgr (state_ns mgr) w1 = (r2, w2)" by (cases "getNode Z mgr (state_ns mgr) w1") auto
  note t2 = getNode_tree [OF child]
  have sl: "\<not> contains_char ''SchedulerState'' CHR ''/''" by (simp add: contains_char_def)
  from assms root rt child ns sl have a: "\<exists>c. r2 = Inr c"
    by (cases r2) (auto simp: GetSchedulerState_def bind_io_def GetChild_def)
  then obtain c where c: "r2 = Inr c" by blast
  show thesis
  proof (cases "c = Inl ErrNoNode")
    case True
    obtain r3 w3 where root': "GetRootNode Z mgr w2 = (r3, w3)" by (cases "GetRootNode Z mgr w2") auto
    note t3 = GetRootNode_tree [OF root']
    from assms root rt child ns sl c True root' obtain rt' where rt': "r3 = Inr rt'"
      by (cases r3) (auto simp: GetSchedulerState_def bind_io_def GetChild_def)
    with t3 have ns': "makeSubSpace (zn_ns rt') ''SchedulerState'' = state_ns mgr" by (simp add: state_ns_def)
    obtain r4 w4 where mk: "makeNodeWithData Z mgr (state_ns mgr) (Some (serialize emptySchedulerState)) False w3 = (r4, w4)"
      by (cases "makeNodeWithData Z mgr (state_ns mgr) (Some (serialize emptySchedulerState)) False w3") auto
    from assms root rt child ns sl c True root' rt' ns' mk obtain n where n: "r4 = Inr (Inr n)"
      "ss = with_node n emptySchedulerState" "w' = w4"
      by (auto simp: GetSchedulerState_def bind_io_def GetChild_def MakeChildWithData_def split: sum.splits)
    from t2 c True t1 have "tree w (state_path mgr) = None" by (simp add: state_path_def)
    moreover from this makeNodeWithData_tree [OF mk] n t1 t2 t3
    have "zn_ns n = state_ns mgr" "zn_stat n \<noteq> None"
      "tree w' = (tree w)(state_path mgr := Some (Some (serialize emptySchedulerState)))"
      by (auto simp: state_path_def)
    ultimately show thesis using n(2) by (intro fresh)
  next
    case False
    from assms root rt child ns sl c False obtain n d where n: "c = Inr n" "GetData n = Some d"
      "ss = with_node n d" "w' = w2"
      by (auto simp: GetSchedulerState_def bind_io_def GetChild_def DeserializeSchedulerState_def
          split: sum.splits option.splits)
    with t1 t2 c show thesis by (intro found [of d n]) (simp_all add: state_path_def GetData_def)
  qed
qed

text \<open>Whatever becomes of loading the state, the store has what it had or, where it had none, the new state.\<close>

lemma GetSchedulerState_store:
  assumes "GetSchedulerState Z mgr w = (r, w')"
  shows "tree w' = tree w \<or> tree w' = (tree w)(state_path mgr := Some (Some (serialize emptySchedulerState)))"
proof -
  obtain r1 w1 where root: "GetRootNode Z mgr w = (r1, w1)" by (cases "GetRootNode Z mgr w") auto
  note t1 = GetRootNode_tree [OF root]
  obtain r2 w2 where child: "getNode Z mgr (state_ns mgr) w1 = (r2, w2)" by (cases "getNode Z mgr (state_ns mgr) w1") auto
  note t2 = getNode_tree [OF child]
  obtain r3 w3 where root': "GetRootNode Z mgr w2 = (r3, w3)" by (cases "GetRootNode Z mgr w2") auto
  note t3 = GetRootNode_tree [OF root']
  obtain r4 w4 where mk: "makeNodeWithData Z mgr (state_ns mgr) (Some (serialize emptySchedulerState)) False w3 = (r4, w4)"
    by (cases "makeNodeWithData Z mgr (state_ns mgr) (Some (serialize emptySchedulerState)) False w3") auto
  have sl: "\<not> contains_char ''SchedulerState'' CHR ''/''" by (simp add: contains_char_def)
  have "w' \<in> {w1, w2, w3} \<or> w' = w4 \<and> r2 = Inr (Inl ErrNoNode)"
    using assms root child root' mk sl t1 t3
    by (auto simp: GetSchedulerState_def bind_io_def GetChild_def MakeChildWithData_def state_ns_def [symmetric]
        split: sum.splits if_splits)
  then show ?thesis
  proof
    assume "w' \<in> {w1, w2, w3}"
    with t1 t2 t3 show ?thesis by auto
  next
    assume w4: "w' = w4 \<and> r2 = Inr (Inl ErrNoNode)"
    with t1 t2 t3 have "tree w3 (GetZKPath (state_ns mgr)) = None" by simp
    with makeNodeWithData_tree [OF mk] w4 t1 t2 t3 show ?thesis by (auto simp: state_path_def)
  qed
qed

end


section \<open>A new scheduler\<close>

text \<open>The manager a scheduler is created with.\<close>

definition conf_mgr :: "SchedulerConf \<Rightarrow> MetadataManager" where
  "conf_mgr conf = \<lparr>mgr_frameworkID = sc_frameworkName conf, mgr_zookeepers = sc_zookeepers conf\<rparr>"

text \<open>No living node of a scheduler has been heard of yet.\<close>

definition unreconciled :: "SchedulerCore \<Rightarrow> bool" where
  "unreconciled sc \<longleftrightarrow> (\<forall>k i n. live_node sc k i = Some n \<longrightarrow> \<not> frn_reconciled n)"

lemma live_node_with_node:
  "live_node (sc\<lparr>sc_state := with_node n d\<rparr>) k i =
    (case fmlookup (ss_Clusters d) k of None \<Rightarrow> None | Some c \<Rightarrow> fmlookup (frc_Nodes c) i)"
  by (simp add: live_node_def with_node_def)

lemma live_node_serialize:
  assumes "sc_state sc' = with_node n (serialize ss)" and "ss_Clusters ss = ss_Clusters (sc_state sc)"
  shows "live_node sc' k i = map_option erase_node (live_node sc k i)"
  using assms by (simp add: live_node_def with_node_def serialize_def split: option.splits)

lemma erased_unreconciled:
  assumes "sc_state sc = with_node n d" and "serialize d = d"
  shows "unreconciled sc"
  unfolding unreconciled_def
proof (intro allI impI)
  fix k i m
  assume m: "live_node sc k i = Some m"
  have "live_node sc k i = map_option erase_node (live_node sc k i)"
    using assms by (intro live_node_serialize [of _ n d]) (simp_all add: with_node_def)
  with m show "\<not> frn_reconciled m" by (auto simp: erase_node_def dest: arg_cong [where f = frn_reconciled])
qed

context scheduler_store
begin

lemma NewCPMd_state:
  "NewCPMd Z listen hostname mgr w = (r, w') \<Longrightarrow> tree w' (state_path mgr) = tree w (state_path mgr)"
  using NewCPMd_tree [of listen hostname mgr w r w' "''SchedulerState''"] by (simp add: state_path_def state_ns_def makeSubSpace_def)

lemma NewSchedulerCore_cases:
  assumes "NewSchedulerCore Z listen hostname conf w = (Inr sc, w')"
  obtains (found) n d where "tree w (state_path (conf_mgr conf)) = Some (Some d)" "sc_state sc = with_node n d"
      "tree w' (state_path (conf_mgr conf)) = Some (Some d)" "zn_ns n = state_ns (conf_mgr conf)" "zn_stat n \<noteq> None"
      "sc_conf sc = conf" "sc_mgr sc = conf_mgr conf" "\<not> rServer_enabled sc"
  | (fresh) n where "tree w (state_path (conf_mgr conf)) = None" "sc_state sc = with_node n emptySchedulerState"
      "tree w' (state_path (conf_mgr conf)) = Some (Some (serialize emptySchedulerState))"
      "zn_ns n = state_ns (conf_mgr conf)" "zn_stat n \<noteq> None"
      "sc_conf sc = conf" "sc_mgr sc = conf_mgr conf" "\<not> rServer_enabled sc"
proof -
  obtain r1 w1 where m: "NewMetadataManager Z (sc_frameworkName conf) (sc_zookeepers conf) w = (r1, w1)"
    by (cases "NewMetadataManager Z (sc_frameworkName conf) (sc_zookeepers conf) w") auto
  with assms obtain mgr where mgr: "r1 = Inr mgr" by (cases r1) (auto simp: NewSchedulerCore_def bind_io_def)
  with NewMetadataManager_store [OF m, folded conf_mgr_def] have t: "mgr = conf_mgr conf"
    "tree w1 (state_path (conf_mgr conf)) = tree w (state_path (conf_mgr conf))" by simp_all
  obtain r2 w2 where g: "GetSchedulerState Z mgr w1 = (r2, w2)" by (cases "GetSchedulerState Z mgr w1") auto
  with assms m mgr obtain ss where ss: "r2 = Inr ss" by (cases r2) (auto simp: NewSchedulerCore_def bind_io_def)
  obtain r3 w3 where c: "NewCPMd Z listen hostname mgr w2 = (r3, w3)" by (cases "NewCPMd Z listen hostname mgr w2") auto
  from NewCPMd_state [OF c] t(1) have t3: "tree w3 (state_path (conf_mgr conf)) = tree w2 (state_path (conf_mgr conf))" by simp
  from assms m mgr g ss t(1) c have sc: "sc_state sc = ss" "sc_conf sc = conf" "sc_mgr sc = conf_mgr conf"
    "\<not> rServer_enabled sc" "w' = w3"
    by (auto simp: NewSchedulerCore_def bind_io_def split: sum.splits)
  show thesis
  proof (cases rule: GetSchedulerState_tree [OF g [unfolded ss t(1)]])
    case (1 n d)
    with sc t t3 show thesis by (intro found [of d n]) simp_all
  next
    case (2 n)
    with sc t t3 show thesis by (intro fresh [of n]) simp_all
  qed
qed

lemma NewSchedulerCore_ok:
  assumes "NewSchedulerCore Z listen hostname conf w = (Inr sc, w')"
    and "\<And>d. tree w (state_path (conf_mgr conf)) = Some (Some d) \<Longrightarrow> data_ok (sc_frameworkName conf) d \<and> serialize d = d"
  shows "core_ok sc \<and> stored_ok tree sc w' \<and> saved tree sc w' \<and> unreconciled sc"
proof -
  have "\<exists>n d. sc_state sc = with_node n d \<and> data_ok (sc_frameworkName conf) d \<and> serialize d = d \<and>
      tree w' (state_path (sc_mgr sc)) = Some (Some d) \<and> zn_ns n = state_ns (sc_mgr sc) \<and> zn_stat n \<noteq> None \<and>
      sc_conf sc = conf"
  proof (cases rule: NewSchedulerCore_cases [OF assms(1)])
    case (1 n d)
    with assms(2) show ?thesis by auto
  next
    case (2 n)
    moreover have "serialize emptySchedulerState = emptySchedulerState"
      by (simp add: serialize_def emptySchedulerState_def)
    moreover have "data_ok (sc_frameworkName conf) emptySchedulerState"
      by (simp add: data_ok_def emptySchedulerState_def)
    ultimately show ?thesis by auto
  qed
  then obtain n d where d: "sc_state sc = with_node n d" "data_ok (sc_frameworkName conf) d" "serialize d = d"
    "tree w' (state_path (sc_mgr sc)) = Some (Some d)" "zn_ns n = state_ns (sc_mgr sc)" "zn_stat n \<noteq> None"
    "sc_conf sc = conf" by blast
  have "core_ok sc" using d by (simp add: core_ok_def) (simp add: with_node_def)
  moreover have "stored_ok tree sc w'" using d by (simp add: stored_ok_def)
  moreover have "saved tree sc w'"
    unfolding saved_def using d(1,3,4) by (intro exI [of _ "ss_MesosMaster d"]) (simp add: with_node_def serialize_def)
  moreover have "unreconciled sc" using d(1,3) by (rule erased_unreconciled)
  ultimately show ?thesis by blast
qed

end

end
