(* ===== verification/Reconcilation.thy ===== *)
theory Reconcilation
  imports Failover
begin

text \<open>
  The reconciliation server, \<^verbatim>\<open>scheduler/reconcilation.go\<close>: every five seconds a pass asks the master about the
  tasks that have not been heard of or, when there is none to ask about, finishes the tasks that are to
  go, buries the nodes and clusters that are gone and goes on with rolling restarts. A pass runs under the
  scheduler's lock. The driver is a function from calls to what they return, and a pass returns the calls
  it made in their order.
\<close>

section \<open>Stopping nodes\<close>

definition finishRiakNode :: "mesosutil \<Rightarrow> driver \<Rightarrow> FrameworkRiakNode \<Rightarrow> (bool \<times> DriverCall list) result" where
  "finishRiakNode U drv riakNode =
     (let call = SendFrameworkMessage (CreateExecutorID U riakNode) (frn_SlaveID riakNode) ''finish'';
          (status, err) = drv call
      in if status \<noteq> DRIVER_RUNNING then Inl (LogFatal ''Driver not running, while trying to send framework message'')
         else Inr (err = None, [call]))"

definition killRiakNode :: "driver \<Rightarrow> FrameworkRiakNode \<Rightarrow> (bool \<times> DriverCall list) result" where
  "killRiakNode drv riakNode =
     (let call = KillTask (CreateTaskID riakNode); (status, err) = drv call
      in if status \<noteq> DRIVER_RUNNING then Inl (LogFatal ''Driver not running, while trying to kill tasks'')
         else Inr (err = None, [call]))"

text \<open>The loops over the nodes to stop: finish the task, and kill it when that fails.\<close>

definition stop_node :: "mesosutil \<Rightarrow> driver \<Rightarrow> FrameworkRiakNode \<Rightarrow> DriverCall list result" where
  "stop_node U drv riakNode =
     bind_result (finishRiakNode U drv riakNode) (\<lambda>(finished, calls).
       if finished then Inr calls
       else bind_result (killRiakNode drv riakNode) (\<lambda>(_, calls'). Inr (calls @ calls')))"

fun stop_nodes :: "mesosutil \<Rightarrow> driver \<Rightarrow> NodeMap \<Rightarrow> string list \<Rightarrow> DriverCall list result" where
  "stop_nodes U drv nodes [] = Inr []"
| "stop_nodes U drv nodes (k # ks) =
     (case fmlookup nodes k of
        None \<Rightarrow> stop_nodes U drv nodes ks
      | Some riakNode \<Rightarrow>
          bind_result (stop_node U drv riakNode) (\<lambda>calls.
          bind_result (stop_nodes U drv nodes ks) (\<lambda>calls'. Inr (calls @ calls'))))"

fun remove_nodes :: "NodeMap \<Rightarrow> string list \<Rightarrow> FrameworkRiakCluster \<Rightarrow> FrameworkRiakCluster" where
  "remove_nodes nodes [] cluster = cluster"
| "remove_nodes nodes (k # ks) cluster =
     (case fmlookup nodes k of
        None \<Rightarrow> remove_nodes nodes ks cluster
      | Some riakNode \<Rightarrow> remove_nodes nodes ks (RemoveNode riakNode cluster))"

section \<open>A pass\<close>

text \<open>
  The orders in which a pass meets the entries of the maps it goes over: the clusters, the nodes of a
  cluster when it collects them, the nodes it collected to kill and to remove, the remaining nodes when
  it looks for one to restart, and what it found; and the readings of the clock.
\<close>

record PassChoice =
  pc_clusters :: "string list"
  pc_nodes :: "string \<Rightarrow> string list"
  pc_kill :: "string \<Rightarrow> string list"
  pc_remove :: "string \<Rightarrow> string list"
  pc_restart :: "string \<Rightarrow> string list"
  pc_again :: "string \<Rightarrow> string list"
  pc_clock :: "string \<Rightarrow> string \<Rightarrow> time \<times> time"

text \<open>
  One cluster: the cluster after the pass, whether it goes to the graveyard, whether the state is dirty,
  and the calls.
\<close>

definition kill_cluster ::
  "mesosutil \<Rightarrow> driver \<Rightarrow> PassChoice \<Rightarrow> string \<Rightarrow> FrameworkRiakCluster
     \<Rightarrow> (FrameworkRiakCluster \<times> bool \<times> bool \<times> DriverCall list) result" where
  "kill_cluster U drv ch k cluster =
     (let (nodesToKill, nodesToRemove) = GetNodesToKillOrRemove (pc_nodes ch k) cluster
      in bind_result (stop_nodes U drv nodesToKill (pc_kill ch k)) (\<lambda>calls.
         let cluster1 = remove_nodes nodesToRemove (pc_remove ch k) cluster;
             removed = Cluster_CanBeRemoved cluster1;
             (cluster2, nodesToRestart, stateModified) = GetNodesToRestart (pc_restart ch k) cluster1
         in bind_result (stop_nodes U drv nodesToRestart (pc_again ch k)) (\<lambda>calls'.
            Inr (cluster2, removed, len_map nodesToRemove > 0 \<or> removed \<or> stateModified, calls @ calls'))))"

text \<open>
  Where the cluster goes. The source deletes it from one map and enters it in the other before it looks
  for nodes to restart, and changes it through the pointer afterwards.
\<close>

definition put_cluster :: "string \<Rightarrow> bool \<Rightarrow> FrameworkRiakCluster \<Rightarrow> SchedulerCore \<Rightarrow> SchedulerCore" where
  "put_cluster k removed cluster sc =
     (if removed then
        (update_cluster k cluster sc)\<lparr>sc_state := (sc_state (update_cluster k cluster sc))\<lparr>
          ss_Graveyard := fmupd (frc_Name cluster) cluster (ss_Graveyard (sc_state sc)),
          ss_Clusters := fmdrop (frc_Name cluster) (fmupd k cluster (ss_Clusters (sc_state sc)))\<rparr>\<rparr>
      else update_cluster k cluster sc)"

fun kill_loop ::
  "mesosutil \<Rightarrow> driver \<Rightarrow> PassChoice \<Rightarrow> string list \<Rightarrow> bool \<Rightarrow> DriverCall list \<Rightarrow> (bool \<times> DriverCall list, 'w) handler" where
  "kill_loop U drv ch [] dirty calls sc w = (Inr (dirty, calls), sc, w)"
| "kill_loop U drv ch (k # ks) dirty calls sc w =
     (case fmlookup (ss_Clusters (sc_state sc)) k of
        None \<Rightarrow> kill_loop U drv ch ks dirty calls sc w
      | Some cluster \<Rightarrow>
          (case kill_cluster U drv ch k cluster of
             Inl p \<Rightarrow> (Inl p, sc, w)
           | Inr (cluster', removed, stateDirty, calls') \<Rightarrow>
               kill_loop U drv ch ks (dirty \<or> stateDirty) (calls @ calls') (put_cluster k removed cluster' sc) w))"

definition killTasks ::
  "(SchedulerData, 'w) zk_conn \<Rightarrow> mesosutil \<Rightarrow> driver \<Rightarrow> PassChoice \<Rightarrow> (DriverCall list, 'w) handler" where
  "killTasks Z U drv ch =
     bind_h (kill_loop U drv ch (pc_clusters ch) False []) (\<lambda>(stateDirty, calls) sc w.
       if stateDirty then bind_h (Persist Z) (\<lambda>err sc1 w1. (Inr calls, sc1, w1)) sc w
       else (Inr calls, sc, w))"

fun reconcile_loop ::
  "PassChoice \<Rightarrow> string list \<Rightarrow> bool \<Rightarrow> DriverCall list \<Rightarrow> SchedulerCore \<Rightarrow> bool \<times> DriverCall list \<times> SchedulerCore" where
  "reconcile_loop ch [] reconcilable calls sc = (reconcilable, calls, sc)"
| "reconcile_loop ch (k # ks) reconcilable calls sc =
     (case fmlookup (ss_Clusters (sc_state sc)) k of
        None \<Rightarrow> reconcile_loop ch ks reconcilable calls sc
      | Some cluster \<Rightarrow>
          let (cluster', tasksToReconcile) = GetNodeTasksToReconcile (pc_clock ch k) (pc_nodes ch k) cluster;
              sc' = update_cluster k cluster' sc
          in if length tasksToReconcile \<noteq> 0
             then reconcile_loop ch ks True (calls @ [ReconcileTasks tasksToReconcile]) sc'
             else reconcile_loop ch ks reconcilable calls sc')"

definition reconcileTasks :: "PassChoice \<Rightarrow> (bool \<times> DriverCall list, 'w) handler" where
  "reconcileTasks ch sc w =
     (let (tasksReconcilable, calls, sc') = reconcile_loop ch (pc_clusters ch) False [] sc
      in (Inr (tasksReconcilable, calls), sc', w))"

definition reconcile ::
  "(SchedulerData, 'w) zk_conn \<Rightarrow> mesosutil \<Rightarrow> driver \<Rightarrow> PassChoice \<Rightarrow> (DriverCall list, 'w) handler" where
  "reconcile Z U drv ch sc w =
     (if rServer_enabled sc then
        bind_h (reconcileTasks ch) (\<lambda>(reconcilable, calls) sc1 w1.
          if \<not> reconcilable then
            bind_h (killTasks Z U drv ch) (\<lambda>calls' sc2 w2. (Inr (calls @ calls'), sc2, w2)) sc1 w1
          else (Inr calls, sc1, w1)) sc w
      else (Inr [], sc, w))"


section \<open>What the loops do\<close>

text \<open>A driver that runs; otherwise the process ends.\<close>

definition driver_running :: "driver \<Rightarrow> bool" where
  "driver_running drv \<longleftrightarrow> (\<forall>call. fst (drv call) = DRIVER_RUNNING)"

definition finish_call :: "mesosutil \<Rightarrow> FrameworkRiakNode \<Rightarrow> DriverCall" where
  "finish_call U n = SendFrameworkMessage (CreateExecutorID U n) (frn_SlaveID n) ''finish''"

definition stop_calls :: "mesosutil \<Rightarrow> driver \<Rightarrow> FrameworkRiakNode \<Rightarrow> DriverCall list" where
  "stop_calls U drv n =
     (if snd (drv (finish_call U n)) = None then [finish_call U n] else [finish_call U n, KillTask (CreateTaskID n)])"

lemma stop_node_running: "driver_running drv \<Longrightarrow> stop_node U drv n = Inr (stop_calls U drv n)"
  by (simp add: stop_node_def finishRiakNode_def killRiakNode_def stop_calls_def finish_call_def
      driver_running_def Let_def case_prod_unfold)

lemma stop_nodes_running:
  assumes "driver_running drv"
  shows "stop_nodes U drv nodes ks =
    Inr (concat (map (\<lambda>k. case fmlookup nodes k of None \<Rightarrow> [] | Some n \<Rightarrow> stop_calls U drv n) ks))"
  by (induction ks) (simp_all add: stop_node_running [OF assms] split: option.splits)

lemma empty_iff_lookup: "m = fmempty \<longleftrightarrow> (\<forall>k. fmlookup m k = None)"
  by (metis fmap_ext fmempty_lookup)

lemma in_option_list: "x \<in> set (case y of None \<Rightarrow> [] | Some n \<Rightarrow> f n) \<longleftrightarrow> (\<exists>n. y = Some n \<and> x \<in> set (f n))"
  by (cases y) auto

lemma in_concat_map: "x \<in> set (concat (map f ks)) \<longleftrightarrow> (\<exists>k \<in> set ks. x \<in> set (f k))"
  by simp

lemma stop_nodes_calls:
  assumes "driver_running drv" and "enumerates ks nodes" and "stop_nodes U drv nodes ks = Inr calls"
  shows "call \<in> set calls \<longleftrightarrow> (\<exists>k n. fmlookup nodes k = Some n \<and> call \<in> set (stop_calls U drv n))"
proof -
  have "call \<in> set calls \<longleftrightarrow> (\<exists>k \<in> set ks. \<exists>n. fmlookup nodes k = Some n \<and> call \<in> set (stop_calls U drv n))"
    using assms(3) unfolding stop_nodes_running [OF assms(1)] sum.inject
    by (elim subst) (simp only: in_concat_map in_option_list)
  also have "\<dots> \<longleftrightarrow> (\<exists>k n. fmlookup nodes k = Some n \<and> call \<in> set (stop_calls U drv n))"
    using enumerates_lookup [OF assms(2)] by blast
  finally show ?thesis .
qed

lemma remove_nodes_empty: "remove_nodes fmempty ks c = c"
  by (induction ks) simp_all

lemma remove_nodes_spec:
  assumes "cluster_ok fw c" and "distinct ks"
    and "\<And>k n. k \<in> set ks \<Longrightarrow> fmlookup nodes k = Some n \<Longrightarrow> fmlookup (frc_Nodes c) k = Some n"
  defines "c' \<equiv> remove_nodes nodes ks c"
  shows "cluster_ok fw c' \<and> c' = c\<lparr>frc_Nodes := frc_Nodes c', frc_Graveyard := frc_Graveyard c'\<rparr> \<and>
    (\<forall>k. fmlookup (frc_Nodes c') k = (if k \<in> set ks \<and> fmlookup nodes k \<noteq> None then None else fmlookup (frc_Nodes c) k) \<and>
       fmlookup (frc_Graveyard c') k =
         (if k \<in> set ks \<and> fmlookup nodes k \<noteq> None then fmlookup nodes k else fmlookup (frc_Graveyard c) k))"
  using assms(1-3) unfolding c'_def
proof (induction ks arbitrary: c)
  case Nil
  then show ?case by simp
next
  case (Cons k ks)
  show ?case
  proof (cases "fmlookup nodes k")
    case None
    have "remove_nodes nodes (k # ks) c = remove_nodes nodes ks c" using None by simp
    with Cons.IH [of c] Cons.prems None show ?thesis by (auto simp del: remove_nodes.simps)
  next
    case (Some n)
    with Cons.prems have l: "fmlookup (frc_Nodes c) k = Some n" by simp
    with Cons.prems(1) have id: "k = CurrentID n" by (auto simp: cluster_ok_def dest: nodes_okD)
    let ?c = "RemoveNode n c"
    have ih: "cluster_ok fw (remove_nodes nodes ks ?c) \<and>
      remove_nodes nodes ks ?c = ?c\<lparr>frc_Nodes := frc_Nodes (remove_nodes nodes ks ?c),
        frc_Graveyard := frc_Graveyard (remove_nodes nodes ks ?c)\<rparr> \<and>
      (\<forall>j. fmlookup (frc_Nodes (remove_nodes nodes ks ?c)) j =
          (if j \<in> set ks \<and> fmlookup nodes j \<noteq> None then None else fmlookup (frc_Nodes ?c) j) \<and>
        fmlookup (frc_Graveyard (remove_nodes nodes ks ?c)) j =
          (if j \<in> set ks \<and> fmlookup nodes j \<noteq> None then fmlookup nodes j else fmlookup (frc_Graveyard ?c) j))"
      using Cons.prems RemoveNode_ok(1) [OF Cons.prems(1) l] id by (intro Cons.IH) (auto simp: RemoveNode_def)
    have c: "?c\<lparr>frc_Nodes := x, frc_Graveyard := y\<rparr> = c\<lparr>frc_Nodes := x, frc_Graveyard := y\<rparr>" for x y
      by (simp add: RemoveNode_def)
    have r: "remove_nodes nodes (k # ks) c = remove_nodes nodes ks ?c" using Some by simp
    have n: "fmlookup (frc_Nodes ?c) j = (if j = k then None else fmlookup (frc_Nodes c) j)"
      "fmlookup (frc_Graveyard ?c) j = (if j = k then Some n else fmlookup (frc_Graveyard c) j)" for j
      using id by (auto simp: RemoveNode_def)
    show ?thesis unfolding r using ih Some Cons.prems(2) unfolding c n by auto
  qed
qed


section \<open>One cluster\<close>

text \<open>The orders for one cluster enumerate the maps they stand for.\<close>

definition kept_cluster :: "PassChoice \<Rightarrow> string \<Rightarrow> FrameworkRiakCluster \<Rightarrow> FrameworkRiakCluster" where
  "kept_cluster ch k c = remove_nodes (snd (GetNodesToKillOrRemove (pc_nodes ch k) c)) (pc_remove ch k) c"

definition pass_cluster_ok :: "PassChoice \<Rightarrow> string \<Rightarrow> FrameworkRiakCluster \<Rightarrow> bool" where
  "pass_cluster_ok ch k c \<longleftrightarrow>
     enumerates (pc_nodes ch k) (frc_Nodes c) \<and>
     enumerates (pc_kill ch k) (fst (GetNodesToKillOrRemove (pc_nodes ch k) c)) \<and>
     enumerates (pc_remove ch k) (snd (GetNodesToKillOrRemove (pc_nodes ch k) c)) \<and>
     enumerates (pc_restart ch k) (frc_Nodes (kept_cluster ch k c)) \<and>
     enumerates (pc_again ch k) (fst (snd (GetNodesToRestart (pc_restart ch k) (kept_cluster ch k c))))"

text \<open>A node a pass may restart.\<close>

definition restartable :: "FrameworkRiakCluster \<Rightarrow> FrameworkRiakNode \<Rightarrow> bool" where
  "restartable c n \<longleftrightarrow> frc_IsRestarting c \<and> \<not> HasRestarted n (frc_Generation c) \<and> \<not> IsRestarting n (frc_Generation c)"

text \<open>
  What a pass makes of a cluster. A node that can be removed is dead afterwards; any other node is as it
  was or, at most one of them, marked for a restart. The cluster goes when it was killed and nothing is
  left of it. Each call stops a node that can be killed or is restarted, and each node that can be killed
  gets one.
\<close>

definition pass_cluster ::
  "mesosutil \<Rightarrow> FrameworkRiakCluster \<Rightarrow> FrameworkRiakCluster \<Rightarrow> bool \<Rightarrow> bool \<Rightarrow> DriverCall list \<Rightarrow> bool" where
  "pass_cluster U c c' removed dirty calls \<longleftrightarrow>
     frc_Name c' = frc_Name c \<and> frc_IsKilled c' = frc_IsKilled c \<and>
     (\<not> dirty \<longrightarrow> c' = c \<and> \<not> removed) \<and>
     (removed \<longleftrightarrow> frc_IsKilled c \<and> (\<forall>i n. fmlookup (frc_Nodes c) i = Some n \<longrightarrow> CanBeRemoved n)) \<and>
     (\<forall>i. fmlookup (frc_Nodes c) i = None \<longrightarrow> fmlookup (frc_Nodes c') i = None) \<and>
     (\<forall>i n. fmlookup (frc_Nodes c) i = Some n \<longrightarrow>
        (if CanBeRemoved n then fmlookup (frc_Nodes c') i = None \<and> fmlookup (frc_Graveyard c') i = Some n
         else fmlookup (frc_Nodes c') i = Some n \<or>
              restartable c n \<and> fmlookup (frc_Nodes c') i = Some (Restart (frc_Generation c) n))) \<and>
     (\<forall>i n. fmlookup (frc_Graveyard c) i = Some n \<longrightarrow> fmlookup (frc_Graveyard c') i = Some n) \<and>
     (\<forall>i n. fmlookup (frc_Nodes c) i = Some n \<longrightarrow> CanBeKilled n \<longrightarrow> finish_call U n \<in> set calls) \<and>
     (\<forall>call \<in> set calls. \<exists>i n. fmlookup (frc_Nodes c) i = Some n \<and> (CanBeKilled n \<or> restartable c n) \<and>
        (call = finish_call U n \<or> call = KillTask (CreateTaskID n)))"

lemma stop_calls_Restart: "stop_calls U drv (Restart g n) = stop_calls U drv n"
  by (simp add: stop_calls_def finish_call_def Restart_def CreateExecutorID_def CreateTaskID_def CurrentID_def ExecutorID_def)

lemma set_stop_calls: "call \<in> set (stop_calls U drv n) \<Longrightarrow> call = finish_call U n \<or> call = KillTask (CreateTaskID n)"
  by (auto simp: stop_calls_def split: if_splits)

lemma finish_in_stop_calls: "finish_call U n \<in> set (stop_calls U drv n)"
  by (simp add: stop_calls_def)

text \<open>The second half of a pass: looking for a node to restart.\<close>

lemma restart_spec:
  assumes "cluster_ok fw c" and "enumerates ks (frc_Nodes c)" and "GetNodesToRestart ks c = (c', m, d)"
  shows "(\<forall>i. fmlookup (frc_Nodes c') i = fmlookup (frc_Nodes c) i \<or>
      (\<exists>n. fmlookup (frc_Nodes c) i = Some n \<and> restartable c n \<and>
         fmlookup (frc_Nodes c') i = Some (Restart (frc_Generation c) n))) \<and>
    (\<forall>j n'. fmlookup m j = Some n' \<longrightarrow> (\<exists>i n. fmlookup (frc_Nodes c) i = Some n \<and> restartable c n \<and> n' = Restart (frc_Generation c) n)) \<and>
    frc_IsKilled c' = frc_IsKilled c"
proof (cases "frc_IsRestarting c")
  case False
  with assms(3) show ?thesis by (auto simp: GetNodesToRestart_idle)
next
  case True
  then show ?thesis
  proof (cases rule: GetNodesToRestart_cases [OF True assms(2)])
    case 1
    with assms(3) show ?thesis by (auto split: if_splits)
  next
    case (2 k n)
    then have "restartable c n" using True by (simp add: restartable_def)
    with 2(1,5) assms(3) show ?thesis by (auto split: if_splits)
  qed
qed

lemma kill_cluster_spec:
  assumes "cluster_ok fw c" and "pass_cluster_ok ch k c" and "driver_running drv"
  obtains c' removed dirty calls where "kill_cluster U drv ch k c = Inr (c', removed, dirty, calls)"
    "cluster_ok fw c'" "pass_cluster U c c' removed dirty calls"
proof -
  obtain toKill toRemove where g: "GetNodesToKillOrRemove (pc_nodes ch k) c = (toKill, toRemove)"
    by (cases "GetNodesToKillOrRemove (pc_nodes ch k) c") auto
  let ?c1 = "remove_nodes toRemove (pc_remove ch k) c"
  obtain c2 toRestart modified where rs: "GetNodesToRestart (pc_restart ch k) ?c1 = (c2, toRestart, modified)"
    by (cases "GetNodesToRestart (pc_restart ch k) ?c1") auto
  have e: "enumerates (pc_nodes ch k) (frc_Nodes c)" "enumerates (pc_kill ch k) toKill"
    "enumerates (pc_remove ch k) toRemove" "enumerates (pc_restart ch k) (frc_Nodes ?c1)"
    "enumerates (pc_again ch k) toRestart"
    using assms(2) g rs by (simp_all add: pass_cluster_ok_def kept_cluster_def)
  have ok: "nodes_ok fw (frc_Name c) (cluster_size c) (frc_Nodes c)" using assms(1) by (simp add: cluster_ok_def)
  have look: "fmlookup toKill i = (case fmlookup (frc_Nodes c) i of Some n \<Rightarrow> if CanBeKilled n then Some n else None | None \<Rightarrow> None)"
    "fmlookup toRemove i = (case fmlookup (frc_Nodes c) i of Some n \<Rightarrow> if CanBeRemoved n then Some n else None | None \<Rightarrow> None)" for i
    using g enumerates_lookup [OF e(1)] collect_nodes_lookup [OF ok]
    by (auto simp: GetNodesToKillOrRemove_def split: option.splits)
  have "fmlookup toRemove i = Some n \<Longrightarrow> fmlookup (frc_Nodes c) i = Some n" for i n
    by (simp add: look split: option.splits if_splits)
  from remove_nodes_spec [OF assms(1) enumeratesD(1) [OF e(3)] this] enumerates_lookup [OF e(3)]
  have c1: "cluster_ok fw ?c1" "?c1 = c\<lparr>frc_Nodes := frc_Nodes ?c1, frc_Graveyard := frc_Graveyard ?c1\<rparr>"
    "fmlookup (frc_Nodes ?c1) i = (if fmlookup toRemove i \<noteq> None then None else fmlookup (frc_Nodes c) i)"
    "fmlookup (frc_Graveyard ?c1) i = (if fmlookup toRemove i \<noteq> None then fmlookup toRemove i else fmlookup (frc_Graveyard c) i)" for i
    by simp_all
  note eq = arg_cong [OF c1(2), of frc_Name, simplified] arg_cong [OF c1(2), of frc_IsKilled, simplified]
    arg_cong [OF c1(2), of frc_IsRestarting, simplified] arg_cong [OF c1(2), of frc_Generation, simplified]
  note c2 = GetNodesToRestart_ok [OF c1(1) e(4) rs] restart_spec [OF c1(1) e(4) rs]
  obtain calls where s1: "stop_nodes U drv toKill (pc_kill ch k) = Inr calls"
    by (simp add: stop_nodes_running [OF assms(3)])
  obtain calls' where s2: "stop_nodes U drv toRestart (pc_again ch k) = Inr calls'"
    by (simp add: stop_nodes_running [OF assms(3)])
  let ?rm = "Cluster_CanBeRemoved ?c1" let ?d = "len_map toRemove > 0 \<or> ?rm \<or> modified"
  have "kill_cluster U drv ch k c = Inr (c2, ?rm, ?d, calls @ calls')"
    by (simp add: kill_cluster_def g s1 rs s2 Let_def)
  moreover have "pass_cluster U c c2 ?rm ?d (calls @ calls')"
    unfolding pass_cluster_def
  proof (intro conjI)
    from c2(2) eq show "frc_Name c2 = frc_Name c" by simp
    from c2(6) eq show killed: "frc_IsKilled c2 = frc_IsKilled c" by simp
    have kept: "fmlookup (frc_Nodes ?c1) i =
        (case fmlookup (frc_Nodes c) i of Some n \<Rightarrow> if CanBeRemoved n then None else Some n | None \<Rightarrow> None)" for i
      by (simp add: c1(3) look(2) split: option.splits)
    show "?rm \<longleftrightarrow> frc_IsKilled c \<and> (\<forall>i n. fmlookup (frc_Nodes c) i = Some n \<longrightarrow> CanBeRemoved n)"
      using kept by (auto simp: Cluster_CanBeRemoved_def eq len_map_eq_0_iff empty_iff_lookup split: option.splits if_splits)
    show "\<not> ?d \<longrightarrow> c2 = c \<and> \<not> ?rm"
    proof
      assume d: "\<not> ?d"
      then have "toRemove = fmempty" by (simp add: len_map_eq_0_iff)
      then have "?c1 = c" by (simp add: remove_nodes_empty)
      with d c2(5) show "c2 = c \<and> \<not> ?rm" by simp
    qed
    show "\<forall>i. fmlookup (frc_Nodes c) i = None \<longrightarrow> fmlookup (frc_Nodes c2) i = None"
      using c2(3) kept by (metis fmdom_notD fmdom_notI option.simps(4))
    show "\<forall>i n. fmlookup (frc_Nodes c) i = Some n \<longrightarrow>
        (if CanBeRemoved n then fmlookup (frc_Nodes c2) i = None \<and> fmlookup (frc_Graveyard c2) i = Some n
         else fmlookup (frc_Nodes c2) i = Some n \<or>
              restartable c n \<and> fmlookup (frc_Nodes c2) i = Some (Restart (frc_Generation c) n))"
    proof (intro allI impI)
      fix i n
      assume n: "fmlookup (frc_Nodes c) i = Some n"
      show "if CanBeRemoved n then fmlookup (frc_Nodes c2) i = None \<and> fmlookup (frc_Graveyard c2) i = Some n
         else fmlookup (frc_Nodes c2) i = Some n \<or>
              restartable c n \<and> fmlookup (frc_Nodes c2) i = Some (Restart (frc_Generation c) n)"
        using c2(6) kept [of i] n c1(4) [of i] c2(4) look(2) [of i] eq
        by (auto simp: restartable_def dest: spec [of _ i])
    qed
    show "\<forall>i n. fmlookup (frc_Graveyard c) i = Some n \<longrightarrow> fmlookup (frc_Graveyard c2) i = Some n"
    proof (intro allI impI)
      fix i n
      assume n: "fmlookup (frc_Graveyard c) i = Some n"
      with assms(1) have "fmlookup (frc_Nodes c) i = None"
        by (metis cluster_ok_def fempty_iff finterI fmdomI fmdom_notD)
      with n show "fmlookup (frc_Graveyard c2) i = Some n" using c2(4) c1(4) [of i] look(2) [of i] by simp
    qed
    note calls = stop_nodes_calls [OF assms(3) e(2) s1] stop_nodes_calls [OF assms(3) e(5) s2]
    show "\<forall>i n. fmlookup (frc_Nodes c) i = Some n \<longrightarrow> CanBeKilled n \<longrightarrow> finish_call U n \<in> set (calls @ calls')"
    proof (intro allI impI)
      fix i n
      assume "fmlookup (frc_Nodes c) i = Some n" "CanBeKilled n"
      then have "fmlookup toKill i = Some n" by (simp add: look)
      with finish_in_stop_calls have "finish_call U n \<in> set calls" using calls(1) by blast
      then show "finish_call U n \<in> set (calls @ calls')" by simp
    qed
    show "\<forall>call \<in> set (calls @ calls'). \<exists>i n. fmlookup (frc_Nodes c) i = Some n \<and> (CanBeKilled n \<or> restartable c n) \<and>
        (call = finish_call U n \<or> call = KillTask (CreateTaskID n))"
    proof
      fix call
      assume "call \<in> set (calls @ calls')"
      then consider "call \<in> set calls" | "call \<in> set calls'" by auto
      then show "\<exists>i n. fmlookup (frc_Nodes c) i = Some n \<and> (CanBeKilled n \<or> restartable c n) \<and>
          (call = finish_call U n \<or> call = KillTask (CreateTaskID n))"
      proof cases
        case 1
        with calls(1) obtain i n where "fmlookup toKill i = Some n" "call \<in> set (stop_calls U drv n)" by blast
        then show ?thesis by (auto simp: look(1) dest: set_stop_calls split: option.splits if_splits)
      next
        case 2
        with calls(2) obtain j m where m: "fmlookup toRestart j = Some m" "call \<in> set (stop_calls U drv m)" by blast
        with c2(6) obtain i n where n: "fmlookup (frc_Nodes ?c1) i = Some n" "restartable ?c1 n"
          "m = Restart (frc_Generation ?c1) n" by blast
        from n(1) kept [of i] have "fmlookup (frc_Nodes c) i = Some n" by (auto split: option.splits if_splits)
        moreover from n(2) eq have "restartable c n" by (simp add: restartable_def)
        ultimately show ?thesis using m(2) n(3) by (auto simp: stop_calls_Restart dest: set_stop_calls)
      qed
    qed
  qed
  ultimately show thesis using c2(1) by (intro that)
qed


section \<open>All clusters\<close>

definition pass_ok :: "PassChoice \<Rightarrow> SchedulerCore \<Rightarrow> bool" where
  "pass_ok ch sc \<longleftrightarrow> enumerates (pc_clusters ch) (ss_Clusters (sc_state sc)) \<and>
     (\<forall>k c. fmlookup (ss_Clusters (sc_state sc)) k = Some c \<longrightarrow> pass_cluster_ok ch k c)"

text \<open>What became of the cluster under a key.\<close>

definition passed ::
  "mesosutil \<Rightarrow> SchedulerCore \<Rightarrow> SchedulerCore \<Rightarrow> DriverCall list \<Rightarrow> string \<Rightarrow> bool" where
  "passed U sc sc' calls k \<longleftrightarrow>
     (case fmlookup (ss_Clusters (sc_state sc)) k of
        None \<Rightarrow> fmlookup (ss_Clusters (sc_state sc')) k = None \<and>
          fmlookup (ss_Graveyard (sc_state sc')) k = fmlookup (ss_Graveyard (sc_state sc)) k
      | Some c \<Rightarrow> \<exists>c' removed dirty cs. pass_cluster U c c' removed dirty cs \<and> set cs \<subseteq> set calls \<and>
          fmlookup (ss_Clusters (sc_state sc')) k = (if removed then None else Some c') \<and>
          fmlookup (ss_Graveyard (sc_state sc')) k =
            (if removed then Some c' else fmlookup (ss_Graveyard (sc_state sc)) k))"

lemma passedI:
  assumes "fmlookup (ss_Clusters (sc_state sc)) k = Some c" and "pass_cluster U c c' removed dirty cs"
    and "set cs \<subseteq> set calls" and "fmlookup (ss_Clusters (sc_state sc')) k = (if removed then None else Some c')"
    and "fmlookup (ss_Graveyard (sc_state sc')) k = (if removed then Some c' else fmlookup (ss_Graveyard (sc_state sc)) k)"
  shows "passed U sc sc' calls k"
  unfolding passed_def assms(1) option.case using assms(2-5) by blast

definition untouched :: "SchedulerCore \<Rightarrow> SchedulerCore \<Rightarrow> string \<Rightarrow> bool" where
  "untouched sc sc' k \<longleftrightarrow>
     fmlookup (ss_Clusters (sc_state sc')) k = fmlookup (ss_Clusters (sc_state sc)) k \<and>
     fmlookup (ss_Graveyard (sc_state sc')) k = fmlookup (ss_Graveyard (sc_state sc)) k"

text \<open>Each call stops a living node that can be killed or is restarted.\<close>

definition sound_call :: "mesosutil \<Rightarrow> SchedulerCore \<Rightarrow> string \<Rightarrow> DriverCall \<Rightarrow> bool" where
  "sound_call U sc k call \<longleftrightarrow>
     (\<exists>c i n. fmlookup (ss_Clusters (sc_state sc)) k = Some c \<and> fmlookup (frc_Nodes c) i = Some n \<and>
        (CanBeKilled n \<or> restartable c n) \<and> (call = finish_call U n \<or> call = KillTask (CreateTaskID n)))"

lemma passed_cong:
  assumes "passed U sc1 sc' calls k" and "untouched sc sc1 k" and "set calls \<subseteq> set calls'"
  shows "passed U sc sc' calls' k"
proof (cases "fmlookup (ss_Clusters (sc_state sc)) k")
  case None
  with assms show ?thesis by (simp add: passed_def untouched_def)
next
  case (Some c)
  with assms(1,2) obtain c' removed dirty cs where p: "pass_cluster U c c' removed dirty cs" "set cs \<subseteq> set calls"
    "fmlookup (ss_Clusters (sc_state sc')) k = (if removed then None else Some c')"
    "fmlookup (ss_Graveyard (sc_state sc')) k = (if removed then Some c' else fmlookup (ss_Graveyard (sc_state sc)) k)"
    unfolding passed_def untouched_def by auto
  with assms(3) show ?thesis by (intro passedI [OF Some p(1)]) auto
qed

lemma put_cluster_lookup:
  assumes "frc_Name c = k"
  shows "fmlookup (ss_Clusters (sc_state (put_cluster k removed c sc))) j =
      (if j = k then if removed then None else Some c else fmlookup (ss_Clusters (sc_state sc)) j)"
    and "fmlookup (ss_Graveyard (sc_state (put_cluster k removed c sc))) j =
      (if j = k \<and> removed then Some c else fmlookup (ss_Graveyard (sc_state sc)) j)"
  using assms by (auto simp: put_cluster_def update_cluster_def)

lemma put_cluster_ok:
  assumes "core_ok sc" and "frc_Name c = k" and "cluster_ok (sc_frameworkName (sc_conf sc)) c"
  shows "core_ok (put_cluster k removed c sc)" and "same_setup sc (put_cluster k removed c sc)"
    and "rServer_enabled (put_cluster k removed c sc) = rServer_enabled sc"
  using assms
  by (auto simp: put_cluster_def core_ok_def data_ok_def update_cluster_def same_setup_def
      intro: clusters_ok_upd clusters_ok_drop)

lemma put_cluster_same:
  assumes "fmlookup (ss_Clusters (sc_state sc)) k = Some c"
  shows "put_cluster k False c sc = sc"
proof -
  have "fmupd k c (ss_Clusters (sc_state sc)) = ss_Clusters (sc_state sc)"
    using assms by (intro fmap_ext) auto
  then show ?thesis by (simp add: put_cluster_def update_cluster_def)
qed

lemma kill_loop_spec:
  assumes "driver_running drv" and "core_ok sc" and "distinct ks"
    and "\<And>k c. k \<in> set ks \<Longrightarrow> fmlookup (ss_Clusters (sc_state sc)) k = Some c \<Longrightarrow> pass_cluster_ok ch k c"
  shows "\<exists>dirty' calls' sc'. kill_loop U drv ch ks dirty calls sc w = (Inr (dirty', calls @ calls'), sc', w) \<and>
    core_ok sc' \<and> same_setup sc sc' \<and> (\<not> dirty' \<longrightarrow> \<not> dirty \<and> sc' = sc) \<and>
    (\<forall>k. if k \<in> set ks then passed U sc sc' calls' k else untouched sc sc' k) \<and>
    (\<forall>call \<in> set calls'. \<exists>k \<in> set ks. sound_call U sc k call)"
  using assms(2-4)
proof (induction ks arbitrary: dirty calls sc)
  case Nil
  then show ?case by (auto simp: untouched_def)
next
  case (Cons k ks)
  show ?case
  proof (cases "fmlookup (ss_Clusters (sc_state sc)) k")
    case None
    from Cons.IH [of sc dirty calls] Cons.prems obtain dirty' calls' sc' where
      r: "kill_loop U drv ch ks dirty calls sc w = (Inr (dirty', calls @ calls'), sc', w)"
      "core_ok sc'" "same_setup sc sc'" "\<not> dirty' \<longrightarrow> \<not> dirty \<and> sc' = sc"
      "\<forall>k. if k \<in> set ks then passed U sc sc' calls' k else untouched sc sc' k"
      "\<forall>call \<in> set calls'. \<exists>k \<in> set ks. sound_call U sc k call" by auto
    from r(5) Cons.prems(2) have "untouched sc sc' k" by auto
    with None have "passed U sc sc' calls' k" by (simp add: untouched_def passed_def)
    with r None show ?thesis by (intro exI [of _ dirty'] exI [of _ calls'] exI [of _ sc']) auto
  next
    case (Some c)
    let ?fw = "sc_frameworkName (sc_conf sc)"
    from Cons.prems(1) Some have c: "frc_Name c = k" "cluster_ok ?fw c"
      by (auto simp: core_ok_def data_ok_def dest: clusters_okD)
    from Cons.prems(3) Some have "pass_cluster_ok ch k c" by simp
    from kill_cluster_spec [OF c(2) this assms(1)] obtain c' removed d cs where
      kc: "kill_cluster U drv ch k c = Inr (c', removed, d, cs)" "cluster_ok ?fw c'" "pass_cluster U c c' removed d cs" .
    let ?sc = "put_cluster k removed c' sc"
    have n: "frc_Name c' = k" using kc(3) c(1) by (simp add: pass_cluster_def)
    note put = put_cluster_ok [OF Cons.prems(1) n kc(2), of removed] put_cluster_lookup [OF n, of removed sc]
    have same: "fmlookup (ss_Clusters (sc_state ?sc)) j = fmlookup (ss_Clusters (sc_state sc)) j" if "j \<in> set ks" for j
      using that Cons.prems(2) put(4) by auto
    have "pass_cluster_ok ch j b" if "j \<in> set ks" "fmlookup (ss_Clusters (sc_state ?sc)) j = Some b" for j b
      using that Cons.prems(3) same by simp
    from Cons.IH [OF put(1) _ this, of "dirty \<or> d" "calls @ cs"] Cons.prems(2) obtain dirty' calls' sc' where
      r: "kill_loop U drv ch ks (dirty \<or> d) (calls @ cs) ?sc w = (Inr (dirty', (calls @ cs) @ calls'), sc', w)"
      "core_ok sc'" "same_setup ?sc sc'" "\<not> dirty' \<longrightarrow> \<not> (dirty \<or> d) \<and> sc' = ?sc"
      "\<forall>k. if k \<in> set ks then passed U ?sc sc' calls' k else untouched ?sc sc' k"
      "\<forall>call \<in> set calls'. \<exists>k \<in> set ks. sound_call U ?sc k call" by auto
    have "kill_loop U drv ch (k # ks) dirty calls sc w = (Inr (dirty', calls @ (cs @ calls')), sc', w)"
      using Some kc(1) r(1) by simp
    moreover have "same_setup sc sc'" using put(2) r(3) by (rule same_setup_trans)
    moreover have "\<not> dirty' \<longrightarrow> \<not> dirty \<and> sc' = sc"
    proof
      assume "\<not> dirty'"
      with r(4) have "\<not> dirty" "\<not> d" "sc' = ?sc" by auto
      moreover from this(2) kc(3) have "c' = c" "\<not> removed" by (auto simp: pass_cluster_def)
      ultimately show "\<not> dirty \<and> sc' = sc" using put_cluster_same [OF Some] by simp
    qed
    moreover have "if j \<in> set (k # ks) then passed U sc sc' (cs @ calls') j else untouched sc sc' j" for j
    proof (cases "j = k")
      case True
      with r(5) Cons.prems(2) have "untouched ?sc sc' k" by auto
      then have "passed U sc sc' (cs @ calls') k"
        using put(4,5) by (intro passedI [OF Some kc(3)]) (auto simp: untouched_def)
      with True show ?thesis by simp
    next
      case False
      then have u: "untouched sc ?sc j" using put(4,5) by (simp add: untouched_def)
      show ?thesis
      proof (cases "j \<in> set ks")
        case True
        with r(5) have "passed U ?sc sc' calls' j" by auto
        from passed_cong [OF this u, of "cs @ calls'"] True show ?thesis by simp
      next
        case j: False
        with r(5) have "untouched ?sc sc' j" by auto
        with u j False show ?thesis by (simp add: untouched_def)
      qed
    qed
    moreover have "\<exists>j \<in> set (k # ks). sound_call U sc j call" if call: "call \<in> set (cs @ calls')" for call
    proof (cases "call \<in> set cs")
      case True
      with kc(3) have "sound_call U sc k call" using Some unfolding sound_call_def pass_cluster_def by blast
      then show ?thesis by simp
    next
      case False
      with call r(6) obtain j where j: "j \<in> set ks" "sound_call U ?sc j call" by auto
      then have "sound_call U sc j call" by (simp add: sound_call_def same)
      with j(1) show ?thesis by auto
    qed
    ultimately show ?thesis using r(2) by blast
  qed
qed


context scheduler_store
begin

lemma killTasks_spec:
  assumes "core_ok sc" and "pass_ok ch sc" and "driver_running drv"
    and "killTasks Z U drv ch sc w = (r, sc', w')"
  shows "handled tree up sc w r sc' w'"
    and "r = Inr calls \<Longrightarrow> (\<forall>k. passed U sc sc' calls k) \<and> (\<forall>call \<in> set calls. \<exists>k. sound_call U sc k call)"
proof -
  have en: "enumerates (pc_clusters ch) (ss_Clusters (sc_state sc))" using assms(2) by (simp add: pass_ok_def)
  note e = enumeratesD(1) [OF en] enumerates_lookup [OF en]
  have "pass_cluster_ok ch k c" if "fmlookup (ss_Clusters (sc_state sc)) k = Some c" for k c
    using that assms(2) by (simp add: pass_ok_def)
  from kill_loop_spec [OF assms(3,1) e(1) this, of U False "[]" w] obtain dirty calls' sc1 where
    l: "kill_loop U drv ch (pc_clusters ch) False [] sc w = (Inr (dirty, calls'), sc1, w)"
    "core_ok sc1" "same_setup sc sc1" "\<not> dirty \<longrightarrow> sc1 = sc"
    "\<forall>k. if k \<in> set (pc_clusters ch) then passed U sc sc1 calls' k else untouched sc sc1 k"
    "\<forall>call \<in> set calls'. \<exists>k \<in> set (pc_clusters ch). sound_call U sc k call" by auto
  have p: "passed U sc sc1 calls' k" for k
  proof (cases "k \<in> set (pc_clusters ch)")
    case False
    with l(5) have "untouched sc sc1 k" by auto
    with False e(2) [of k] show ?thesis
      by (cases "fmlookup (ss_Clusters (sc_state sc)) k") (auto simp: untouched_def passed_def)
  qed (use l(5) in auto)
  have "handled tree up sc w r sc' w' \<and> (r = Inr calls \<longrightarrow> calls = calls' \<and>
      ss_Clusters (sc_state sc') = ss_Clusters (sc_state sc1) \<and> ss_Graveyard (sc_state sc') = ss_Graveyard (sc_state sc1))"
  proof (cases dirty)
    case True
    with assms(4) l(1) have b: "bind_h (Persist Z) (\<lambda>err sc1 w1. (Inr calls', sc1, w1)) sc1 w = (r, sc', w')"
      by (simp add: killTasks_def bind_h_def [of "kill_loop U drv ch (pc_clusters ch) False []"])
    from persist_then [OF l(2,3) b] show ?thesis by auto
  next
    case False
    with assms(4) l(1,4) have "r = Inr calls'" "sc' = sc" "w' = w" "sc1 = sc" by (simp_all add: killTasks_def bind_h_def)
    with assms(1) show ?thesis by auto
  qed
  note res = this
  from res show "handled tree up sc w r sc' w'" ..
  assume "r = Inr calls"
  with res have eq: "ss_Clusters (sc_state sc1) = ss_Clusters (sc_state sc')" "calls' = calls"
    "ss_Graveyard (sc_state sc1) = ss_Graveyard (sc_state sc')" by simp_all
  from p l(6) show "(\<forall>k. passed U sc sc' calls k) \<and> (\<forall>call \<in> set calls. \<exists>k. sound_call U sc k call)"
    unfolding passed_def eq by blast
qed

end

section \<open>Asking about tasks\<close>

lemma reconcile_scan_spec:
  assumes "reconcile_scan clock ks nodes = (nodes', sts)"
  shows "fmmap erase_node nodes' = fmmap erase_node nodes \<and> fmdom nodes' = fmdom nodes \<and>
    (nodes_ok fw cl b nodes \<longrightarrow> nodes_ok fw cl b nodes') \<and> (sts = [] \<longrightarrow> nodes' = nodes)"
  using assms
proof (induction clock ks nodes arbitrary: nodes' sts rule: reconcile_scan.induct)
  case (2 clock k ks nodes)
  show ?case
  proof (cases "fmlookup nodes k")
    case (Some n)
    let ?n = "n\<lparr>frn_lastAskedToReconcile := snd (clock k)\<rparr>"
    have "fmmap erase_node (fmupd k ?n nodes) = fmmap erase_node nodes"
      using Some by (intro fmap_ext) (auto simp: erase_node_def)
    moreover have "fmdom (fmupd k ?n nodes) = fmdom nodes" using Some by (auto dest: fmdomI)
    moreover have "nodes_ok fw cl b (fmupd k ?n nodes)" if "nodes_ok fw cl b nodes"
      using nodes_okD [OF that Some] asked.same_id [of "\<lambda>_. snd (clock k)" n] asked.keeps_ok [of fw cl b n "\<lambda>_. snd (clock k)"]
      by (intro nodes_ok_upd [OF that]) simp_all
    ultimately show ?thesis
      using 2 Some by (auto simp: Let_def split: option.splits if_splits prod.splits)
  qed (use 2 in auto)
qed simp


lemma GetNodeTasksToReconcile_spec:
  assumes "GetNodeTasksToReconcile clock ks c = (c', sts)"
  shows "erase_cluster c' = erase_cluster c \<and> (cluster_ok fw c \<longrightarrow> cluster_ok fw c') \<and> (sts = [] \<longrightarrow> c' = c)"
proof -
  obtain nodes where s: "reconcile_scan clock ks (frc_Nodes c) = (nodes, sts)" "c' = c\<lparr>frc_Nodes := nodes\<rparr>"
    using assms by (auto simp: GetNodeTasksToReconcile_def split: prod.splits)
  note r = reconcile_scan_spec [OF s(1)]
  have "cluster_ok fw c'" if "cluster_ok fw c"
    unfolding s(2) using that r by (intro cluster_ok_nodes) (auto simp: cluster_ok_def)
  with r s(2) show ?thesis by (simp add: erase_cluster_def)
qed

text \<open>The tasks asked about: those of living nodes that have not been heard of.\<close>

definition asks_about :: "SchedulerCore \<Rightarrow> TaskStatus \<Rightarrow> bool" where
  "asks_about sc st \<longleftrightarrow> (\<exists>k i n. live_node sc k i = Some n \<and> \<not> frn_reconciled n \<and> GetTaskStatus n = Some st)"

lemma reconcile_scan_asks:
  assumes "reconcile_scan clock ks nodes = (nodes', sts)" and "distinct ks" and "st \<in> set sts"
  shows "\<exists>k n. fmlookup nodes k = Some n \<and> \<not> frn_reconciled n \<and> GetTaskStatus n = Some st"
proof -
  have "\<exists>k \<in> set ks. \<exists>n. fmlookup nodes k = Some n \<and> \<not> frn_reconciled n \<and> GetTaskStatus n = Some st"
    using assms
  proof (induction clock ks nodes arbitrary: nodes' sts rule: reconcile_scan.induct)
    case (2 clock k ks nodes)
    then show ?case
      by (fastforce simp: reconcile_due_def Let_def split: option.splits if_splits prod.splits)
  qed simp
  then show ?thesis by blast
qed


lemma update_cluster_erased:
  assumes "fmlookup (ss_Clusters (sc_state sc)) k = Some c" and "erase_cluster c' = erase_cluster c"
  shows "serialize (sc_state (update_cluster k c' sc)) = serialize (sc_state sc)"
proof -
  have "fmmap erase_cluster (fmupd k c' (ss_Clusters (sc_state sc))) = fmmap erase_cluster (ss_Clusters (sc_state sc))"
    using assms by (intro fmap_ext) auto
  then show ?thesis by (simp add: update_cluster_def serialize_def)
qed

lemma reconcile_loop_spec:
  assumes "core_ok sc" and "distinct ks"
    and "\<And>k. k \<in> set ks \<Longrightarrow> fmlookup (ss_Clusters (sc_state sc)) k = fmlookup (ss_Clusters (sc_state orig)) k"
    and "\<forall>k c. k \<in> set ks \<longrightarrow> fmlookup (ss_Clusters (sc_state orig)) k = Some c \<longrightarrow> distinct (pc_nodes ch k)"
  shows "\<exists>b calls' sc'. reconcile_loop ch ks start calls sc = (b, calls @ calls', sc') \<and>
    core_ok sc' \<and> same_setup sc sc' \<and> serialize (sc_state sc') = serialize (sc_state sc) \<and>
    (b \<longleftrightarrow> start \<or> calls' \<noteq> []) \<and> (calls' = [] \<longrightarrow> sc' = sc) \<and>
    (\<forall>call \<in> set calls'. \<exists>sts. call = ReconcileTasks sts \<and> sts \<noteq> [] \<and> (\<forall>st \<in> set sts. asks_about orig st))"
  using assms
proof (induction ks arbitrary: start calls sc)
  case Nil
  then show ?case by auto
next
  case (Cons k ks)
  show ?case
  proof (cases "fmlookup (ss_Clusters (sc_state sc)) k")
    case None
    with Cons show ?thesis by simp
  next
    case (Some c)
    obtain c' sts where g: "GetNodeTasksToReconcile (pc_clock ch k) (pc_nodes ch k) c = (c', sts)"
      by (cases "GetNodeTasksToReconcile (pc_clock ch k) (pc_nodes ch k) c") auto
    let ?fw = "sc_frameworkName (sc_conf sc)" and ?sc = "update_cluster k c' sc"
    from Cons.prems(1) Some have c: "frc_Name c = k" "cluster_ok ?fw c"
      by (auto simp: core_ok_def data_ok_def dest: clusters_okD)
    note gs = GetNodeTasksToReconcile_spec [OF g, of ?fw]
    have name: "frc_Name c' = k" using c(1) gs by (metis erase_cluster_simps(1))
    have ok: "core_ok ?sc" using Cons.prems(1) name c(2) gs by (intro core_ok_update_cluster) auto
    have ser: "serialize (sc_state ?sc) = serialize (sc_state sc)"
      using gs by (intro update_cluster_erased [OF Some]) simp
    have setp: "same_setup sc ?sc" by (simp add: same_setup_def)
    have rest: "fmlookup (ss_Clusters (sc_state ?sc)) j = fmlookup (ss_Clusters (sc_state orig)) j" if "j \<in> set ks" for j
      using that Cons.prems(2,3) by auto
    have same: "?sc = sc" if "sts = []"
    proof -
      from that gs have "c' = c" by simp
      with put_cluster_same [OF Some] show ?thesis by (simp add: put_cluster_def)
    qed
    have asks: "asks_about orig st" if "st \<in> set sts" for st
    proof -
      from Some Cons.prems(3) have k: "fmlookup (ss_Clusters (sc_state orig)) k = Some c" by simp
      obtain nodes where "reconcile_scan (pc_clock ch k) (pc_nodes ch k) (frc_Nodes c) = (nodes, sts)"
        using g by (auto simp: GetNodeTasksToReconcile_def split: prod.splits)
      from reconcile_scan_asks [OF this Cons.prems(4) [rule_format, OF _ k] that] obtain i n where
        "fmlookup (frc_Nodes c) i = Some n" "\<not> frn_reconciled n" "GetTaskStatus n = Some st" by auto
      with k show ?thesis unfolding asks_about_def by (intro exI [of _ k] exI [of _ i] exI [of _ n]) (simp add: live_node_def)
    qed
    let ?cs = "if sts = [] then [] else [ReconcileTasks sts]"
    have "reconcile_loop ch (k # ks) start calls sc = reconcile_loop ch ks (start \<or> sts \<noteq> []) (calls @ ?cs) ?sc"
      using Some g by (auto simp: Let_def)
    moreover from Cons.IH [OF ok _ rest, of "start \<or> sts \<noteq> []" "calls @ ?cs"] Cons.prems(2,4) obtain b calls' sc' where
      "reconcile_loop ch ks (start \<or> sts \<noteq> []) (calls @ ?cs) ?sc = (b, (calls @ ?cs) @ calls', sc')"
      "core_ok sc'" "same_setup ?sc sc'" "serialize (sc_state sc') = serialize (sc_state ?sc)"
      "b \<longleftrightarrow> (start \<or> sts \<noteq> []) \<or> calls' \<noteq> []" "calls' = [] \<longrightarrow> sc' = ?sc"
      "\<forall>call \<in> set calls'. \<exists>sts. call = ReconcileTasks sts \<and> sts \<noteq> [] \<and> (\<forall>st \<in> set sts. asks_about orig st)" by auto
    moreover from this(3) setp have "same_setup sc sc'" by (blast intro: same_setup_trans)
    ultimately show ?thesis
      using ser same asks by (intro exI [of _ b] exI [of _ "?cs @ calls'"] exI [of _ sc']) (auto split: if_splits)
  qed
qed

lemma pass_ok_asked:
  "pass_ok ch sc \<Longrightarrow> fmlookup (ss_Clusters (sc_state sc)) k = Some c \<Longrightarrow> distinct (pc_nodes ch k)"
  by (auto simp: pass_ok_def pass_cluster_ok_def dest: enumeratesD)

context scheduler_store
begin

text \<open>
  A whole pass. It asks about tasks and changes nothing that is saved, or it has none to ask about and
  does the rest.
\<close>

lemma reconcile_cases:
  assumes "core_ok sc" and "pass_ok ch sc" and "driver_running drv" and "reconcile Z U drv ch sc w = (r, sc', w')"
  obtains (disabled) "\<not> rServer_enabled sc" "r = Inr []" "sc' = sc" "w' = w"
  | (asked) calls where "r = Inr calls" "calls \<noteq> []" "handled tree up sc w r sc' w'" "w' = w"
      "serialize (sc_state sc') = serialize (sc_state sc)"
      "\<forall>call \<in> set calls. \<exists>sts. call = ReconcileTasks sts \<and> sts \<noteq> [] \<and> (\<forall>st \<in> set sts. asks_about sc st)"
  | (killed) "killTasks Z U drv ch sc w = (r, sc', w')"
proof (cases "rServer_enabled sc")
  case False
  with assms(4) show thesis by (intro disabled) (simp_all add: reconcile_def)
next
  case True
  have en: "enumerates (pc_clusters ch) (ss_Clusters (sc_state sc))" using assms(2) by (simp add: pass_ok_def)
  have "\<forall>k c. k \<in> set (pc_clusters ch) \<longrightarrow> fmlookup (ss_Clusters (sc_state sc)) k = Some c \<longrightarrow> distinct (pc_nodes ch k)"
    using pass_ok_asked [OF assms(2)] by blast
  from reconcile_loop_spec [where orig = sc and start = False and calls = "[]",
      OF assms(1) enumeratesD(1) [OF en] refl this]
  obtain b calls sc1 where l: "reconcile_loop ch (pc_clusters ch) False [] sc = (b, calls, sc1)"
    "core_ok sc1" "same_setup sc sc1" "serialize (sc_state sc1) = serialize (sc_state sc)" "b \<longleftrightarrow> calls \<noteq> []"
    "calls = [] \<longrightarrow> sc1 = sc"
    "\<forall>call \<in> set calls. \<exists>sts. call = ReconcileTasks sts \<and> sts \<noteq> [] \<and> (\<forall>st \<in> set sts. asks_about sc st)"
    unfolding append_Nil simp_thms by (elim exE conjE) (rule that)
  show thesis
  proof (cases b)
    case b: True
    with True l assms(4) have r: "r = Inr calls" "sc' = sc1" "w' = w"
      by (simp_all add: reconcile_def reconcileTasks_def bind_h_def)
    with l have "handled tree up sc w r sc' w'"
      by (simp add: handled_def unchanged_def stored_ok_def ready_def same_setup_def)
    with r l b show thesis by (intro asked) simp_all
  next
    case False
    with True l assms(4) have "bind_h (killTasks Z U drv ch) (\<lambda>calls' sc2 w2. (Inr calls', sc2, w2)) sc w = (r, sc', w')"
      by (simp add: reconcile_def reconcileTasks_def bind_h_def [of "\<lambda>sc w. (Inr _, _, _)"] bind_h_def [of "reconcileTasks ch"])
    then have "killTasks Z U drv ch sc w = (r, sc', w')"
      by (cases "killTasks Z U drv ch sc w"; cases "fst (killTasks Z U drv ch sc w)") (auto simp: bind_h_def)
    then show thesis by (rule killed)
  qed
qed

lemma reconcile_ok:
  assumes "core_ok sc" and "pass_ok ch sc" and "driver_running drv" and "reconcile Z U drv ch sc w = (r, sc', w')"
  shows "handled tree up sc w r sc' w'"
  using assms
proof (cases rule: reconcile_cases)
  case disabled
  with assms(1) show ?thesis by simp
next
  case killed
  with assms show ?thesis by (intro killTasks_spec(1))
qed

end

sublocale scheduler_store \<subseteq> passes: scheduler_handler tree up "reconcile Z U drv ch" "\<lambda>sc. pass_ok ch sc \<and> driver_running drv"
  for U drv ch
  by unfold_locales (auto intro: reconcile_ok)

end
