(* ===== verification/Http_Server.thy ===== *)
theory Http_Server
  imports Reconcilation
begin

text \<open>
  The HTTP interface of the scheduler, \<^verbatim>\<open>scheduler/server.go\<close>. A handler runs under the scheduler's lock; the
  variables the router found in the path are its arguments; the body of the request is \<open>Inl\<close> the text of the
  error when reading it fails. A response is its code and its body. Values that are written as JSON are kept as values, with
  the unexported fields erased; a body that is used as a format string without operands is kept as that
  format, and an error of the store behind a text as the error.
\<close>

datatype Body =
    NoBody
  | Text string
  | Format string
  | StoreError string zkerr
  | EncodedCluster FrameworkRiakCluster
  | EncodedNode FrameworkRiakNode
  | EncodedClusters ClusterMap
  | EncodedNodes NodeMap

record HttpResponse =
  rsp_code :: int
  rsp_body :: Body

definition respond :: "int \<Rightarrow> Body \<Rightarrow> (HttpResponse, 'w) handler" where
  "respond status body sc w = (Inr \<lparr>rsp_code = status, rsp_body = body\<rparr>, sc, w)"

definition cluster_not_found :: "string \<Rightarrow> (HttpResponse, 'w) handler" where
  "cluster_not_found clusterName = respond 404 (Text (''Cluster '' @ clusterName @ '' not found''))"

definition node_not_found :: "string \<Rightarrow> (HttpResponse, 'w) handler" where
  "node_not_found nodeID = respond 404 (Text (''Node '' @ nodeID @ '' not found''))"

text \<open>\<^verbatim>\<open>fmt.Fprintln\<close> of a text and an error: a space between them, a line feed behind.\<close>

definition println2 :: "string \<Rightarrow> string \<Rightarrow> Body" where
  "println2 a b = Text (a @ '' '' @ b @ [CHR 0x0A])"

section \<open>Clusters\<close>

definition createCluster ::
  "(SchedulerData, 'w) zk_conn \<Rightarrow> (string \<rightharpoonup> string) \<Rightarrow> string \<Rightarrow> (HttpResponse, 'w) handler" where
  "createCluster Z asset clusterName sc w =
     (case fmlookup (ss_Clusters (sc_state sc)) clusterName of
        Some _ \<Rightarrow> respond 409 NoBody sc w
      | None \<Rightarrow>
          let cluster = NewFrameworkRiakCluster asset clusterName
          in bind_h (Persist Z) (\<lambda>_. respond 200 (EncodedCluster (erase_cluster cluster)))
               (update_cluster clusterName cluster sc) w)"

definition restartCluster :: "(SchedulerData, 'w) zk_conn \<Rightarrow> string \<Rightarrow> (HttpResponse, 'w) handler" where
  "restartCluster Z clusterName sc w =
     (case fmlookup (ss_Clusters (sc_state sc)) clusterName of
        None \<Rightarrow> cluster_not_found clusterName sc w
      | Some cluster \<Rightarrow>
          let cluster' = RollingRestart cluster
          in bind_h (Persist Z) (\<lambda>_. respond 202 (EncodedCluster (erase_cluster cluster')))
               (update_cluster clusterName cluster' sc) w)"

definition removeCluster :: "(SchedulerData, 'w) zk_conn \<Rightarrow> string \<Rightarrow> (HttpResponse, 'w) handler" where
  "removeCluster Z clusterName sc w =
     (case fmlookup (ss_Clusters (sc_state sc)) clusterName of
        None \<Rightarrow> cluster_not_found clusterName sc w
      | Some cluster \<Rightarrow>
          let cluster' = Cluster_KillNext (cluster\<lparr>frc_Nodes := fmmap KillNext (frc_Nodes cluster)\<rparr>)
          in bind_h (Persist Z) (\<lambda>_. respond 202 NoBody) (update_cluster clusterName cluster' sc) w)"

definition setConfig :: "(SchedulerData, 'w) zk_conn \<Rightarrow> string \<Rightarrow> string + string \<Rightarrow> (HttpResponse, 'w) handler" where
  "setConfig Z clusterName body sc w =
     (case fmlookup (ss_Clusters (sc_state sc)) clusterName of
        None \<Rightarrow> cluster_not_found clusterName sc w
      | Some cluster \<Rightarrow>
          (case body of
             Inl err \<Rightarrow> respond 503 (println2 ''Unable to read file: '' err) sc w
           | Inr data \<Rightarrow>
               bind_h (Persist Z) (\<lambda>err.
                 case err of
                   Some e \<Rightarrow> respond 503 (StoreError ''Unable persist cluster data: '' e)
                 | None \<Rightarrow> respond 200 (Text ''Success!''))
                 (update_cluster clusterName (cluster\<lparr>frc_RiakConfig := data\<rparr>) sc) w))"

definition getConfig :: "string \<Rightarrow> (HttpResponse, 'w) handler" where
  "getConfig clusterName sc w =
     (case fmlookup (ss_Clusters (sc_state sc)) clusterName of
        None \<Rightarrow> cluster_not_found clusterName sc w
      | Some cluster \<Rightarrow> respond 200 (Text (frc_RiakConfig cluster)) sc w)"

definition setAdvancedConfig :: "(SchedulerData, 'w) zk_conn \<Rightarrow> string \<Rightarrow> string + string \<Rightarrow> (HttpResponse, 'w) handler" where
  "setAdvancedConfig Z clusterName body sc w =
     (case fmlookup (ss_Clusters (sc_state sc)) clusterName of
        None \<Rightarrow> cluster_not_found clusterName sc w
      | Some cluster \<Rightarrow>
          (case body of
             Inl err \<Rightarrow> respond 503 (println2 ''Unable to read file: '' err) sc w
           | Inr data \<Rightarrow>
               bind_h (Persist Z) (\<lambda>err.
                 case err of
                   Some e \<Rightarrow> respond 503 (StoreError ''Unable persist cluster data: '' e)
                 | None \<Rightarrow> respond 200 (Text ''Success!''))
                 (update_cluster clusterName (cluster\<lparr>frc_AdvancedConfig := data\<rparr>) sc) w))"

definition getAdvancedConfig :: "string \<Rightarrow> (HttpResponse, 'w) handler" where
  "getAdvancedConfig clusterName sc w =
     (case fmlookup (ss_Clusters (sc_state sc)) clusterName of
        None \<Rightarrow> cluster_not_found clusterName sc w
      | Some cluster \<Rightarrow> respond 200 (Text (frc_AdvancedConfig cluster)) sc w)"

definition serveClusters :: "(HttpResponse, 'w) handler" where
  "serveClusters sc w = respond 200 (EncodedClusters (fmmap erase_cluster (ss_Clusters (sc_state sc)))) sc w"

definition getCluster :: "string \<Rightarrow> (HttpResponse, 'w) handler" where
  "getCluster clusterName sc w =
     (case fmlookup (ss_Clusters (sc_state sc)) clusterName of
        None \<Rightarrow> respond 404 (Text (''404 page not found'' @ [CHR 0x0A])) sc w
      | Some cluster \<Rightarrow> respond 200 (EncodedCluster (erase_cluster cluster)) sc w)"

section \<open>Nodes\<close>

definition removeNode :: "(SchedulerData, 'w) zk_conn \<Rightarrow> string \<Rightarrow> string \<Rightarrow> (HttpResponse, 'w) handler" where
  "removeNode Z clusterName nodeID sc w =
     (case fmlookup (ss_Clusters (sc_state sc)) clusterName of
        None \<Rightarrow> cluster_not_found clusterName sc w
      | Some cluster \<Rightarrow>
          (case fmlookup (frc_Nodes cluster) nodeID of
             None \<Rightarrow> node_not_found nodeID sc w
           | Some node \<Rightarrow>
               bind_h (Persist Z) (\<lambda>_. respond 202 NoBody)
                 (update_cluster clusterName (cluster\<lparr>frc_Nodes := fmupd nodeID (KillNext node) (frc_Nodes cluster)\<rparr>) sc) w))"

definition createNode :: "(SchedulerData, 'w) zk_conn \<Rightarrow> string \<Rightarrow> string \<Rightarrow> (HttpResponse, 'w) handler" where
  "createNode Z uuid clusterName sc w =
     (case fmlookup (ss_Clusters (sc_state sc)) clusterName of
        None \<Rightarrow> cluster_not_found clusterName sc w
      | Some cluster \<Rightarrow>
          (case CreateNode (sc_conf sc) uuid cluster of
             Inl p \<Rightarrow> (Inl p, sc, w)
           | Inr (cluster', node) \<Rightarrow>
               bind_h (Persist Z) (\<lambda>_. respond 200 (EncodedNode (erase_node node)))
                 (update_cluster clusterName cluster' sc) w))"

definition serveNodes :: "string \<Rightarrow> (HttpResponse, 'w) handler" where
  "serveNodes clusterName sc w =
     (case fmlookup (ss_Clusters (sc_state sc)) clusterName of
        None \<Rightarrow> cluster_not_found clusterName sc w
      | Some cluster \<Rightarrow> respond 200 (EncodedNodes (fmmap erase_node (frc_Nodes cluster))) sc w)"

text \<open>The handlers that pass a question on to the Explorer of the node: they differ in the question only.\<close>

definition ask_node ::
  "(string \<Rightarrow> string \<Rightarrow> string \<times> string option) \<Rightarrow> string \<Rightarrow> string \<Rightarrow> (HttpResponse, 'w) handler" where
  "ask_node question clusterName nodeName sc w =
     (case fmlookup (ss_Clusters (sc_state sc)) clusterName of
        None \<Rightarrow> cluster_not_found clusterName sc w
      | Some cluster \<Rightarrow>
          (case fmlookup (frc_Nodes cluster) nodeName of
             None \<Rightarrow> node_not_found nodeName sc w
           | Some node \<Rightarrow>
               (case question (rex_hostname node) (td_FullyQualifiedNodeName (frn_TaskData node)) of
                  (body, Some err) \<Rightarrow> respond 503 (println2 ''Unable to read data: '' err) sc w
                | (body, None) \<Rightarrow> respond 200 (Format body) sc w)))"

definition nodeAAE :: "transport \<Rightarrow> string \<Rightarrow> string \<Rightarrow> (HttpResponse, 'w) handler" where
  "nodeAAE net = ask_node (GetAAEStatusJSON net)"

definition nodeStatus :: "transport \<Rightarrow> string \<Rightarrow> string \<Rightarrow> (HttpResponse, 'w) handler" where
  "nodeStatus net = ask_node (GetStatusJSON net)"

definition nodeRingready :: "transport \<Rightarrow> string \<Rightarrow> string \<Rightarrow> (HttpResponse, 'w) handler" where
  "nodeRingready net = ask_node (GetRingreadyJSON net)"

definition nodeTransfers :: "transport \<Rightarrow> string \<Rightarrow> string \<Rightarrow> (HttpResponse, 'w) handler" where
  "nodeTransfers net = ask_node (GetTransfersJSON net)"

definition nodeTypes :: "transport \<Rightarrow> string \<Rightarrow> string \<Rightarrow> (HttpResponse, 'w) handler" where
  "nodeTypes net = ask_node (GetBucketTypesJSON net)"

definition nodeCreateType ::
  "(string \<Rightarrow> string \<Rightarrow> http_outcome) \<Rightarrow> string \<Rightarrow> string \<Rightarrow> string \<Rightarrow> string + string \<Rightarrow> (HttpResponse, 'w) handler" where
  "nodeCreateType net clusterName nodeName bucketType body sc w =
     (case fmlookup (ss_Clusters (sc_state sc)) clusterName of
        None \<Rightarrow> cluster_not_found clusterName sc w
      | Some cluster \<Rightarrow>
          (case fmlookup (frc_Nodes cluster) nodeName of
             None \<Rightarrow> node_not_found nodeName sc w
           | Some node \<Rightarrow>
               (case body of
                  Inl err \<Rightarrow> respond 503 (println2 ''Unable to read data: '' err) sc w
                | Inr data \<Rightarrow>
                    (case CreateBucketTypeJSON net (rex_hostname node)
                            (td_FullyQualifiedNodeName (frn_TaskData node)) bucketType data of
                       Inl p \<Rightarrow> (Inl p, sc, w)
                     | Inr (reply, Some err) \<Rightarrow> respond 500 (Format reply) sc w
                     | Inr (reply, None) \<Rightarrow> respond 200 (Format reply) sc w))))"

section \<open>The server\<close>

definition healthcheck :: "(HttpResponse, 'w) handler" where
  "healthcheck = respond 200 (Text (''Scheduler: OK'' @ [CHR 0x0A]))"

definition GetURI :: "SchedulerCore \<Rightarrow> string" where
  "GetURI sc = sc_URI (sc_conf sc)"

text \<open>
  The server's addresses, which \<open>NewSchedulerCore\<close> sets last. \<open>port0\<close> is the environment variable,
  \<open>listen\<close> binds an address and yields the port it is bound to, and \<open>os_hostname\<close> is the machine's name;
  \<open>None\<close> is an error, which ends the process.
\<close>

definition bind_address :: "string \<Rightarrow> string" where
  "bind_address port0 = '':'' @ (if port0 = [] then ''0'' else port0)"

definition artifact_uris :: "string \<Rightarrow> int \<Rightarrow> SchedulerConf \<Rightarrow> SchedulerConf" where
  "artifact_uris hostname port conf =
     (let URI = ''http://'' @ hostname @ '':'' @ fmt_d port
      in conf\<lparr>sc_hostURI := URI @ ''/static/riak_mesos_executor.tar.gz'',
              sc_riakURI := URI @ ''/static/riak-bin.tar.gz'',
              sc_cepmdURI := URI @ ''/static/cepmd_linux_amd64'', sc_URI := URI\<rparr>)"

definition ServeExecutorArtifact ::
  "string \<Rightarrow> (string \<Rightarrow> int option) \<Rightarrow> string option \<Rightarrow> string \<Rightarrow> SchedulerConf \<Rightarrow> SchedulerConf result" where
  "ServeExecutorArtifact port0 listen os_hostname schedulerHostname conf =
     (case listen (bind_address port0) of
        None \<Rightarrow> Inl (LogFatal ''Listen'')
      | Some port \<Rightarrow>
          if schedulerHostname \<noteq> [] then Inr (artifact_uris schedulerHostname port conf)
          else (case os_hostname of
                  None \<Rightarrow> Inl (LogFatal ''Hostname'')
                | Some hostname \<Rightarrow> Inr (artifact_uris hostname port conf)))"


section \<open>Requests that change a cluster\<close>

text \<open>Killing all nodes of a cluster.\<close>

definition killed_cluster :: "FrameworkRiakCluster \<Rightarrow> FrameworkRiakCluster" where
  "killed_cluster c = Cluster_KillNext (c\<lparr>frc_Nodes := fmmap KillNext (frc_Nodes c)\<rparr>)"

lemma killed_cluster_ok:
  assumes "cluster_ok fw c"
  shows "cluster_ok fw (killed_cluster c)"
proof -
  have "cluster_ok fw (c\<lparr>frc_Nodes := fmmap KillNext (frc_Nodes c)\<rparr>)"
  proof (rule cluster_ok_nodes [OF assms])
    from assms have "nodes_ok fw (frc_Name c) (cluster_size c) (frc_Nodes c)" by (simp add: cluster_ok_def)
    then show "nodes_ok fw (frc_Name c) (cluster_size c) (fmmap KillNext (frc_Nodes c))"
      by (auto simp: nodes_ok_def fmpred_iff kill_next.same_id intro: kill_next.keeps_ok)
  qed simp
  then show ?thesis
    unfolding killed_cluster_def by (rule cluster_ok_flags) (simp_all add: Cluster_KillNext_def)
qed

text \<open>A handler that replaces one cluster, saves and responds.\<close>

context scheduler_store
begin

lemma persist_respond:
  assumes "core_ok sc1" and "same_setup sc sc1" and "bind_h (Persist Z) f sc1 w = (r, sc', w')"
    and "\<And>sc w. f None sc w = (Inr y, sc, w)"
  shows "handled tree up sc w r sc' w'" and "r = Inr x \<Longrightarrow> x = y \<and> saved tree sc' w'"
    and "ss_Clusters (sc_state sc') = ss_Clusters (sc_state sc1)"
    and "ss_Graveyard (sc_state sc') = ss_Graveyard (sc_state sc1)"
proof -
  have "bind_h (Persist Z) (\<lambda>err sc2 w2. (Inr y, sc2, w2)) sc1 w = (r, sc', w')"
    using assms(3)
  proof (cases rule: bind_h_cases)
    case (returned err sc2 w2)
    with Persist_ok(2) [OF assms(1) returned(1)] assms(4) show ?thesis by (simp add: bind_h_def)
  qed (simp add: bind_h_def)
  note p = persist_then [OF assms(1,2) this]
  show "handled tree up sc w r sc' w'" "r = Inr x \<Longrightarrow> x = y \<and> saved tree sc' w'"
    "ss_Clusters (sc_state sc') = ss_Clusters (sc_state sc1)" "ss_Graveyard (sc_state sc') = ss_Graveyard (sc_state sc1)"
    using p by blast+
qed

lemma change_cluster:
  assumes "core_ok sc" and "frc_Name c = k" and "cluster_ok (sc_frameworkName (sc_conf sc)) c"
    and "bind_h (Persist Z) f (update_cluster k c sc) w = (r, sc', w')" and "\<And>sc w. f None sc w = (Inr y, sc, w)"
  shows "handled tree up sc w r sc' w'" and "r = Inr x \<Longrightarrow> x = y \<and> saved tree sc' w'"
    and "ss_Clusters (sc_state sc') = fmupd k c (ss_Clusters (sc_state sc))"
    and "ss_Graveyard (sc_state sc') = ss_Graveyard (sc_state sc)"
proof -
  have ok: "core_ok (update_cluster k c sc)" using assms(1-3) by (rule core_ok_update_cluster)
  have sm: "same_setup sc (update_cluster k c sc)" by (simp add: same_setup_def)
  note p = persist_respond [OF ok sm assms(4,5)]
  show "handled tree up sc w r sc' w'" "r = Inr x \<Longrightarrow> x = y \<and> saved tree sc' w'"
    using p(1,2) by blast+
  from p(3,4) show "ss_Clusters (sc_state sc') = fmupd k c (ss_Clusters (sc_state sc))"
    "ss_Graveyard (sc_state sc') = ss_Graveyard (sc_state sc)" by simp_all
qed

lemma cluster_of:
  assumes "core_ok sc" and "fmlookup (ss_Clusters (sc_state sc)) k = Some c"
  shows "frc_Name c = k" and "cluster_ok (sc_frameworkName (sc_conf sc)) c"
  using assms by (auto simp: core_ok_def data_ok_def dest: clusters_okD)

lemma respond_ok: "core_ok sc \<Longrightarrow> respond st b sc w = (r, sc', w') \<Longrightarrow> handled tree up sc w r sc' w'"
  by (auto simp: respond_def)

lemmas lookup_failed = cluster_not_found_def node_not_found_def

lemma createCluster_ok:
  assumes "core_ok sc" and "createCluster Z asset k sc w = (r, sc', w')"
  shows "handled tree up sc w r sc' w'"
proof (cases "fmlookup (ss_Clusters (sc_state sc)) k")
  case None
  let ?c = "NewFrameworkRiakCluster asset k"
  from None assms(2) have b: "bind_h (Persist Z) (\<lambda>_. respond 200 (EncodedCluster (erase_cluster ?c))) (update_cluster k ?c sc) w = (r, sc', w')"
    by (simp add: createCluster_def Let_def)
  have "frc_Name ?c = k" by (simp add: NewFrameworkRiakCluster_def)
  from change_cluster(1) [OF assms(1) this cluster_ok_new b] show ?thesis by (simp add: respond_def)
qed (use assms in \<open>auto simp: createCluster_def intro: respond_ok\<close>)

lemma restartCluster_ok:
  assumes "core_ok sc" and "restartCluster Z k sc w = (r, sc', w')"
  shows "handled tree up sc w r sc' w'"
proof (cases "fmlookup (ss_Clusters (sc_state sc)) k")
  case (Some c)
  note c = cluster_of [OF assms(1) Some]
  let ?c = "RollingRestart c"
  from Some assms(2) have b: "bind_h (Persist Z) (\<lambda>_. respond 202 (EncodedCluster (erase_cluster ?c))) (update_cluster k ?c sc) w = (r, sc', w')"
    by (simp add: restartCluster_def Let_def)
  have "frc_Name ?c = k" using c(1) by (simp add: RollingRestart_def)
  moreover have "cluster_ok (sc_frameworkName (sc_conf sc)) ?c"
    by (rule cluster_ok_flags [OF c(2)]) (simp_all add: RollingRestart_def)
  ultimately show ?thesis by (rule change_cluster(1) [OF assms(1) _ _ b]) (simp add: respond_def)
qed (use assms in \<open>auto simp: restartCluster_def lookup_failed intro: respond_ok\<close>)

lemma removeCluster_cases:
  assumes "core_ok sc" and "removeCluster Z k sc w = (r, sc', w')" and "fmlookup (ss_Clusters (sc_state sc)) k = Some c"
  shows "handled tree up sc w r sc' w'" and "ss_Clusters (sc_state sc') = fmupd k (killed_cluster c) (ss_Clusters (sc_state sc))"
    and "ss_Graveyard (sc_state sc') = ss_Graveyard (sc_state sc)"
    and "r = Inr x \<Longrightarrow> x = \<lparr>rsp_code = 202, rsp_body = NoBody\<rparr> \<and> saved tree sc' w'"
proof -
  note c = cluster_of [OF assms(1,3)]
  from assms(2,3) have b: "bind_h (Persist Z) (\<lambda>_. respond 202 NoBody) (update_cluster k (killed_cluster c) sc) w = (r, sc', w')"
    by (simp add: removeCluster_def killed_cluster_def Let_def)
  have "frc_Name (killed_cluster c) = k" using c(1) by (simp add: killed_cluster_def Cluster_KillNext_def)
  note p = change_cluster [OF assms(1) this killed_cluster_ok [OF c(2)] b]
  show "handled tree up sc w r sc' w'" "ss_Clusters (sc_state sc') = fmupd k (killed_cluster c) (ss_Clusters (sc_state sc))"
    "ss_Graveyard (sc_state sc') = ss_Graveyard (sc_state sc)"
    "r = Inr x \<Longrightarrow> x = \<lparr>rsp_code = 202, rsp_body = NoBody\<rparr> \<and> saved tree sc' w'"
    by (simp_all add: p respond_def)
qed

lemma removeCluster_ok:
  assumes "core_ok sc" and "removeCluster Z k sc w = (r, sc', w')"
  shows "handled tree up sc w r sc' w'"
proof (cases "fmlookup (ss_Clusters (sc_state sc)) k")
  case (Some c)
  with assms show ?thesis by (rule removeCluster_cases(1))
qed (use assms in \<open>auto simp: removeCluster_def lookup_failed intro: respond_ok\<close>)

lemma setConfig_cases:
  assumes "core_ok sc" and "setConfig Z k (Inr data) sc w = (r, sc', w')" and "fmlookup (ss_Clusters (sc_state sc)) k = Some c"
  shows "handled tree up sc w r sc' w'" and "ss_Clusters (sc_state sc') = fmupd k (c\<lparr>frc_RiakConfig := data\<rparr>) (ss_Clusters (sc_state sc))"
    and "r = Inr x \<Longrightarrow> x = \<lparr>rsp_code = 200, rsp_body = Text ''Success!''\<rparr> \<and> saved tree sc' w'"
proof -
  note c = cluster_of [OF assms(1,3)]
  have ok: "frc_Name (c\<lparr>frc_RiakConfig := data\<rparr>) = k" "cluster_ok (sc_frameworkName (sc_conf sc)) (c\<lparr>frc_RiakConfig := data\<rparr>)"
    using c by (auto intro: cluster_ok_flags)
  note p = change_cluster [OF assms(1) ok assms(2) [unfolded setConfig_def assms(3) option.case sum.case]]
  show "handled tree up sc w r sc' w'" "ss_Clusters (sc_state sc') = fmupd k (c\<lparr>frc_RiakConfig := data\<rparr>) (ss_Clusters (sc_state sc))"
    "r = Inr x \<Longrightarrow> x = \<lparr>rsp_code = 200, rsp_body = Text ''Success!''\<rparr> \<and> saved tree sc' w'"
    by (simp_all add: p respond_def)
qed

lemma setConfig_ok:
  assumes "core_ok sc" and "setConfig Z k body sc w = (r, sc', w')"
  shows "handled tree up sc w r sc' w'"
proof (cases "fmlookup (ss_Clusters (sc_state sc)) k"; cases body)
  fix c data assume "fmlookup (ss_Clusters (sc_state sc)) k = Some c" "body = Inr data"
  with assms show ?thesis using setConfig_cases(1) by blast
qed (use assms in \<open>auto simp: setConfig_def lookup_failed intro: respond_ok\<close>)

lemma setAdvancedConfig_cases:
  assumes "core_ok sc" and "setAdvancedConfig Z k (Inr data) sc w = (r, sc', w')" and "fmlookup (ss_Clusters (sc_state sc)) k = Some c"
  shows "handled tree up sc w r sc' w'" and "ss_Clusters (sc_state sc') = fmupd k (c\<lparr>frc_AdvancedConfig := data\<rparr>) (ss_Clusters (sc_state sc))"
    and "r = Inr x \<Longrightarrow> x = \<lparr>rsp_code = 200, rsp_body = Text ''Success!''\<rparr> \<and> saved tree sc' w'"
proof -
  note c = cluster_of [OF assms(1,3)]
  have ok: "frc_Name (c\<lparr>frc_AdvancedConfig := data\<rparr>) = k" "cluster_ok (sc_frameworkName (sc_conf sc)) (c\<lparr>frc_AdvancedConfig := data\<rparr>)"
    using c by (auto intro: cluster_ok_flags)
  note p = change_cluster [OF assms(1) ok assms(2) [unfolded setAdvancedConfig_def assms(3) option.case sum.case]]
  show "handled tree up sc w r sc' w'" "ss_Clusters (sc_state sc') = fmupd k (c\<lparr>frc_AdvancedConfig := data\<rparr>) (ss_Clusters (sc_state sc))"
    "r = Inr x \<Longrightarrow> x = \<lparr>rsp_code = 200, rsp_body = Text ''Success!''\<rparr> \<and> saved tree sc' w'"
    by (simp_all add: p respond_def)
qed

lemma setAdvancedConfig_ok:
  assumes "core_ok sc" and "setAdvancedConfig Z k body sc w = (r, sc', w')"
  shows "handled tree up sc w r sc' w'"
proof (cases "fmlookup (ss_Clusters (sc_state sc)) k"; cases body)
  fix c data assume "fmlookup (ss_Clusters (sc_state sc)) k = Some c" "body = Inr data"
  with assms show ?thesis using setAdvancedConfig_cases(1) by blast
qed (use assms in \<open>auto simp: setAdvancedConfig_def lookup_failed intro: respond_ok\<close>)

lemma removeNode_cases:
  assumes "core_ok sc" and "removeNode Z k i sc w = (r, sc', w')" and "fmlookup (ss_Clusters (sc_state sc)) k = Some c"
    and "fmlookup (frc_Nodes c) i = Some n"
  shows "handled tree up sc w r sc' w'"
    and "ss_Clusters (sc_state sc') = fmupd k (c\<lparr>frc_Nodes := fmupd i (KillNext n) (frc_Nodes c)\<rparr>) (ss_Clusters (sc_state sc))"
    and "r = Inr x \<Longrightarrow> x = \<lparr>rsp_code = 202, rsp_body = NoBody\<rparr> \<and> saved tree sc' w'"
proof -
  note c = cluster_of [OF assms(1,3)]
  let ?c = "c\<lparr>frc_Nodes := fmupd i (KillNext n) (frc_Nodes c)\<rparr>"
  have ok: "frc_Name ?c = k" "cluster_ok (sc_frameworkName (sc_conf sc)) ?c"
    using c cluster_ok_upd [OF c(2) assms(4) kill_next.same_id kill_next.keeps_ok] by auto
  note p = change_cluster [OF assms(1) ok assms(2) [unfolded removeNode_def assms(3,4) option.case]]
  show "handled tree up sc w r sc' w'"
    "ss_Clusters (sc_state sc') = fmupd k (c\<lparr>frc_Nodes := fmupd i (KillNext n) (frc_Nodes c)\<rparr>) (ss_Clusters (sc_state sc))"
    "r = Inr x \<Longrightarrow> x = \<lparr>rsp_code = 202, rsp_body = NoBody\<rparr> \<and> saved tree sc' w'"
    by (simp_all add: p respond_def)
qed

lemma removeNode_ok:
  assumes "core_ok sc" and "removeNode Z k i sc w = (r, sc', w')"
  shows "handled tree up sc w r sc' w'"
proof (cases "fmlookup (ss_Clusters (sc_state sc)) k")
  case (Some c)
  show ?thesis
  proof (cases "fmlookup (frc_Nodes c) i")
    case n: (Some n)
    with assms Some show ?thesis by (intro removeNode_cases(1))
  qed (use Some assms in \<open>auto simp: removeNode_def lookup_failed intro: respond_ok\<close>)
qed (use assms in \<open>auto simp: removeNode_def lookup_failed intro: respond_ok\<close>)

text \<open>The resources of a node have to be readable numbers; the handler panics otherwise.\<close>

lemma createNode_cases:
  assumes "core_ok sc" and "createNode Z uuid k sc w = (r, sc', w')" and "fmlookup (ss_Clusters (sc_state sc)) k = Some c"
    and "CreateNode (sc_conf sc) uuid c = Inr (c', n)"
  shows "handled tree up sc w r sc' w'" and "ss_Clusters (sc_state sc') = fmupd k c' (ss_Clusters (sc_state sc))"
    and "r = Inr x \<Longrightarrow> x = \<lparr>rsp_code = 200, rsp_body = EncodedNode (erase_node n)\<rparr> \<and> saved tree sc' w'"
proof -
  note c = cluster_of [OF assms(1,3)]
  have ok: "frc_Name c' = k" using c(1) CreateNode_cases(2) [OF assms(4)] by simp
  note p = change_cluster [OF assms(1) ok CreateNode_ok(1) [OF c(2) assms(4)]
      assms(2) [unfolded createNode_def assms(3,4) option.case sum.case prod.case]]
  show "handled tree up sc w r sc' w'" "ss_Clusters (sc_state sc') = fmupd k c' (ss_Clusters (sc_state sc))"
    "r = Inr x \<Longrightarrow> x = \<lparr>rsp_code = 200, rsp_body = EncodedNode (erase_node n)\<rparr> \<and> saved tree sc' w'"
    by (simp_all add: p respond_def)
qed

end

definition conf_ok :: "SchedulerConf \<Rightarrow> bool" where
  "conf_ok conf \<longleftrightarrow> ParseFloat (sc_nodeCpus conf) \<noteq> None \<and> ParseFloat (sc_nodeMem conf) \<noteq> None \<and>
     ParseFloat (sc_nodeDisk conf) \<noteq> None"

lemma conf_ok_CreateNode: "conf_ok conf \<longleftrightarrow> (\<exists>x. CreateNode conf uuid c = Inr x)"
  by (auto simp: conf_ok_def CreateNode_def NewFrameworkRiakNode_def Let_def split: option.splits)

text \<open>Handlers that only read.\<close>

definition read_only :: "('a, 'w) handler \<Rightarrow> bool" where
  "read_only h \<longleftrightarrow> (\<forall>sc w. \<exists>r. h sc w = (Inr r, sc, w))"

lemma read_only_handlers:
  "read_only (getConfig k)" "read_only (getAdvancedConfig k)" "read_only serveClusters" "read_only (getCluster k)"
  "read_only (serveNodes k)" "read_only (nodeAAE net k i)" "read_only (nodeStatus net k i)"
  "read_only (nodeRingready net k i)" "read_only (nodeTransfers net k i)" "read_only (nodeTypes net k i)"
  "read_only healthcheck"
  by (simp_all add: read_only_def getConfig_def getAdvancedConfig_def serveClusters_def getCluster_def serveNodes_def
      nodeAAE_def nodeStatus_def nodeRingready_def nodeTransfers_def nodeTypes_def ask_node_def healthcheck_def
      cluster_not_found_def node_not_found_def respond_def split: option.splits prod.splits)

sublocale scheduler_store \<subseteq> created: scheduler_handler tree up "createCluster Z asset k" "\<lambda>_. True" for asset k
  by unfold_locales (rule createCluster_ok)

sublocale scheduler_store \<subseteq> restarted: scheduler_handler tree up "restartCluster Z k" "\<lambda>_. True" for k
  by unfold_locales (rule restartCluster_ok)

sublocale scheduler_store \<subseteq> removed: scheduler_handler tree up "removeCluster Z k" "\<lambda>_. True" for k
  by unfold_locales (rule removeCluster_ok)

sublocale scheduler_store \<subseteq> configured: scheduler_handler tree up "setConfig Z k body" "\<lambda>_. True" for k body
  by unfold_locales (rule setConfig_ok)

sublocale scheduler_store \<subseteq> advanced: scheduler_handler tree up "setAdvancedConfig Z k body" "\<lambda>_. True" for k body
  by unfold_locales (rule setAdvancedConfig_ok)

sublocale scheduler_store \<subseteq> node_removed: scheduler_handler tree up "removeNode Z k i" "\<lambda>_. True" for k i
  by unfold_locales (rule removeNode_ok)

sublocale scheduler_store \<subseteq> node_created: scheduler_handler tree up "createNode Z uuid k" "\<lambda>sc. conf_ok (sc_conf sc)" for uuid k
proof
  fix sc w r sc' w'
  assume a: "core_ok sc" "conf_ok (sc_conf sc)" "createNode Z uuid k sc w = (r, sc', w')"
  show "handled tree up sc w r sc' w'"
  proof (cases "fmlookup (ss_Clusters (sc_state sc)) k")
    case None
    with a show ?thesis by (auto simp: createNode_def lookup_failed intro: respond_ok)
  next
    case (Some c)
    from a(2) obtain c' n where "CreateNode (sc_conf sc) uuid c = Inr (c', n)"
      unfolding conf_ok_CreateNode [of _ uuid c] by auto
    with a Some show ?thesis by (intro createNode_cases(1))
  qed
qed

end
