(* ===== verification/Scheduler_System.thy ===== *)
theory Scheduler_System
  imports Http_Server
begin

text \<open>
  The scheduler process as a whole: the driver's callbacks, the HTTP requests and the passes of the
  reconciliation server, each under the lock and so one after the other, the loss of the process at any
  time and its start from what the store holds.
\<close>

section \<open>Starting the driver\<close>

record FrameworkInfo =
  fi_User :: string
  fi_Name :: string
  fi_Id :: "string option"
  fi_FailoverTimeout :: float64
  fi_Checkpoint :: bool
  fi_Role :: string
  fi_Principal :: "string option"
  fi_WebuiUrl :: string

text \<open>
  What \<open>Run\<close> needs beside the configuration of the scheduler: the fields of the scheduler that only it
  reads, and the machine it runs on. \<open>None\<close> is an error of the call.
\<close>

record RunEnv =
  re_user :: string
  re_mesosAuthSecretFile :: string
  re_schedulerIPAddr :: string
  re_authProvider :: string
  re_ReadFile :: "string \<Rightarrow> string option"
  re_Hostname :: "string option"
  re_LookupIP :: "string \<Rightarrow> string list option"

definition framework_info :: "RunEnv \<Rightarrow> SchedulerCore \<Rightarrow> FrameworkInfo" where
  "framework_info E sc = \<lparr>
     fi_User = (if re_user E \<noteq> [] then re_user E else ''guest''),
     fi_Name = sc_frameworkName (sc_conf sc),
     fi_Id = ss_FrameworkID (sc_state sc),
     fi_FailoverTimeout = 86400,
     fi_Checkpoint = True,
     fi_Role = sc_frameworkRole (sc_conf sc),
     fi_Principal = (if sc_mesosAuthPrincipal (sc_conf sc) \<noteq> [] then Some (sc_mesosAuthPrincipal (sc_conf sc)) else None),
     fi_WebuiUrl = GetURI sc\<rparr>"

text \<open>The credential: a file that cannot be read ends the process.\<close>

definition credential :: "RunEnv \<Rightarrow> SchedulerCore \<Rightarrow> (string \<times> string) option result" where
  "credential E sc =
     (if re_mesosAuthSecretFile E \<noteq> [] \<and> sc_mesosAuthPrincipal (sc_conf sc) \<noteq> [] then
        (case re_ReadFile E (re_mesosAuthSecretFile E) of
           None \<Rightarrow> Inl (LogFatal ''secret file'')
         | Some secret \<Rightarrow> Inr (Some (sc_mesosAuthPrincipal (sc_conf sc), secret)))
      else Inr None)"

definition parseIP :: "RunEnv \<Rightarrow> string \<Rightarrow> string result" where
  "parseIP E address =
     (case re_LookupIP E address of
        None \<Rightarrow> Inl (LogFatal ''LookupIP'')
      | Some [] \<Rightarrow> Inl (LogFatal ''failed to parse IP from address'')
      | Some (addr # _) \<Rightarrow> Inr addr)"

text \<open>
  The configuration of the driver. The authentication context is a function the driver calls later: the
  provider it logs in with and the address it then looks up.
\<close>

record DriverConfig =
  dc_Framework :: FrameworkInfo
  dc_Master :: string
  dc_Credential :: "(string \<times> string) option"
  dc_HostnameOverride :: string
  dc_BindingAddress :: "string option"
  dc_WithAuthContext :: "(string \<times> string option) option"

definition driver_config :: "RunEnv \<Rightarrow> string \<Rightarrow> SchedulerCore \<Rightarrow> DriverConfig result" where
  "driver_config E mesosMaster sc =
     bind_result (credential E sc) (\<lambda>cred.
     case re_Hostname E of
       None \<Rightarrow> Inl (LogFatal ''Hostname'')
     | Some hostname \<Rightarrow>
         bind_result (if re_schedulerIPAddr E \<noteq> [] then bind_result (parseIP E (re_schedulerIPAddr E)) (\<lambda>a. Inr (Some a)) else Inr None)
           (\<lambda>address. Inr \<lparr>
             dc_Framework = framework_info E sc, dc_Master = mesosMaster, dc_Credential = cred,
             dc_HostnameOverride = hostname, dc_BindingAddress = address,
             dc_WithAuthContext =
               (if re_authProvider E \<noteq> [] \<and> sc_mesosAuthPrincipal (sc_conf sc) \<noteq> [] then
                  Some (re_authProvider E, if re_schedulerIPAddr E \<noteq> [] then Some (re_schedulerIPAddr E) else None)
                else None)\<rparr>))"

text \<open>
  \<^verbatim>\<open>Run\<close> up to the driver's own loop: the name of the master, which is not saved here, what the driver is
  created with, the server of the reconciliation, which starts disabled, and the framework's lock and
  address in the store. \<open>created\<close> says whether the driver was created; an error is logged only, and the
  call of \<^verbatim>\<open>driver.Run\<close> then panics.
\<close>

definition Scheduler_Run ::
  "(SchedulerData, 'w) zk_conn \<Rightarrow> (string \<Rightarrow> SchedulerData) \<Rightarrow> RunEnv \<Rightarrow> (DriverConfig \<Rightarrow> bool) \<Rightarrow> string
     \<Rightarrow> (DriverConfig, 'w) handler" where
  "Scheduler_Run Z uri_data E created mesosMaster sc w =
     (let sc1 = sc\<lparr>sc_state := (sc_state sc)\<lparr>ss_MesosMaster := mesosMaster\<rparr>\<rparr>
      in case driver_config E mesosMaster sc1 of
           Inl p \<Rightarrow> (Inl p, sc1, w)
         | Inr config \<Rightarrow>
             let sc2 = disable sc1
             in (case SetupFramework Z uri_data (sc_mgr sc2) (GetURI sc2) w of
                   (Inl p, w1) \<Rightarrow> (Inl p, sc2, w1)
                 | (Inr _, w1) \<Rightarrow> (if created config then Inr config else Inl NilDereference, sc2, w1)))"


section \<open>The process\<close>

text \<open>
  One thing the process does under the lock, and whether it panicked. There is a rule for each callback,
  each request that changes something and the pass of the reconciliation server. The arguments are
  arbitrary, but orders enumerate the maps they stand for, the offers are well-formed and the driver runs.
  Callbacks and requests that change nothing are left out.
\<close>

inductive serves ::
  "(SchedulerData, 'w) zk_conn \<Rightarrow> ('w \<Rightarrow> string \<Rightarrow> SchedulerData option option) \<Rightarrow> mesosutil
     \<Rightarrow> SchedulerCore \<Rightarrow> 'w \<Rightarrow> bool \<Rightarrow> SchedulerCore \<Rightarrow> 'w \<Rightarrow> bool" for Z tree U where
  running: "serves Z tree U sc w (isl r) sc' w'"
    if "Scheduler_Run Z encode E created master sc w = (r, sc', w')"
    and "tree w' (state_path (sc_mgr sc)) = tree w (state_path (sc_mgr sc))"
| registering: "serves Z tree U sc w (isl r) sc' w'" if "Registered Z fid sc w = (r, sc', w')"
| reregistering: "serves Z tree U sc w (isl r) sc' w'" if "Reregistered sc w = (r, sc', w')"
| offered: "serves Z tree U sc w (isl r) sc' w'"
    if "offers_ok ch offers sc" and "ResourceOffers Z U ch offers sc w = (r, sc', w')"
| updated: "serves Z tree U sc w (isl r) sc' w'" if "StatusUpdate Z net cks nks gks status sc w = (r, sc', w')"
| reconciling: "serves Z tree U sc w (isl r) sc' w'"
    if "pass_ok ch sc" and "driver_running drv" and "reconcile Z U drv ch sc w = (r, sc', w')"
| creating_cluster: "serves Z tree U sc w (isl r) sc' w'" if "createCluster Z asset k sc w = (r, sc', w')"
| restarting_cluster: "serves Z tree U sc w (isl r) sc' w'" if "restartCluster Z k sc w = (r, sc', w')"
| removing_cluster: "serves Z tree U sc w (isl r) sc' w'" if "removeCluster Z k sc w = (r, sc', w')"
| configuring: "serves Z tree U sc w (isl r) sc' w'" if "setConfig Z k body sc w = (r, sc', w')"
| configuring_advanced: "serves Z tree U sc w (isl r) sc' w'" if "setAdvancedConfig Z k body sc w = (r, sc', w')"
| creating_node: "serves Z tree U sc w (isl r) sc' w'" if "createNode Z uuid k sc w = (r, sc', w')"
| removing_node: "serves Z tree U sc w (isl r) sc' w'" if "removeNode Z k i sc w = (r, sc', w')"

text \<open>
  The process runs or is down. A panic ends it, except in a request, where the HTTP server recovers from
  it and the process goes on with the memory the handler left; both are possible after any panic here. A
  loss of the process in the middle of a handler leaves in the store what a handler leaves whose calls
  to the store fail from there on. The environment may change the world, but not the scheduler's node.
\<close>

datatype 'w system = Running SchedulerCore 'w | Down 'w

inductive sys_step ::
  "(SchedulerData, 'w) zk_conn \<Rightarrow> ('w \<Rightarrow> string \<Rightarrow> SchedulerData option option) \<Rightarrow> mesosutil \<Rightarrow> SchedulerConf
     \<Rightarrow> 'w system \<Rightarrow> 'w system \<Rightarrow> bool" for Z tree U conf where
  serve: "sys_step Z tree U conf (Running sc w) (Running sc' w')" if "serves Z tree U sc w panicked sc' w'"
| panic: "sys_step Z tree U conf (Running sc w) (Down w')" if "serves Z tree U sc w True sc' w'"
| lose: "sys_step Z tree U conf (Running sc w) (Down w)"
| environment: "sys_step Z tree U conf (Running sc w) (Running sc w')"
    if "tree w' (state_path (conf_mgr conf)) = tree w (state_path (conf_mgr conf))"
| environment_down: "sys_step Z tree U conf (Down w) (Down w')"
    if "tree w' (state_path (conf_mgr conf)) = tree w (state_path (conf_mgr conf))"
| start: "sys_step Z tree U conf (Down w) (Running sc w')" if "NewSchedulerCore Z listen hostname conf w = (Inr sc, w')"
| start_fails: "sys_step Z tree U conf (Down w) (Down w')" if "NewSchedulerCore Z listen hostname conf w = (Inl p, w')"

inductive_cases serves_elims: "serves Z tree U sc w panicked sc' w'"
inductive_cases sys_step_elims: "sys_step Z tree U conf s t"

definition sys_init :: "('w \<Rightarrow> string \<Rightarrow> SchedulerData option option) \<Rightarrow> SchedulerConf \<Rightarrow> 'w system \<Rightarrow> bool" where
  "sys_init tree conf s \<longleftrightarrow> (\<exists>w. s = Down w \<and> tree w (state_path (conf_mgr conf)) = None)"

definition sys_ok :: "('w \<Rightarrow> string \<Rightarrow> SchedulerData option option) \<Rightarrow> SchedulerConf \<Rightarrow> 'w system \<Rightarrow> bool" where
  "sys_ok tree conf s \<longleftrightarrow>
     (case s of
        Running sc w \<Rightarrow> core_ok sc \<and> stored_ok tree sc w \<and> sc_conf sc = conf \<and> sc_mgr sc = conf_mgr conf
      | Down w \<Rightarrow> \<forall>d. tree w (state_path (conf_mgr conf)) = Some (Some d) \<longrightarrow>
          data_ok (sc_frameworkName conf) d \<and> serialize d = d)"

context scheduler_store
begin

text \<open>What a start that fails leaves in the store.\<close>

lemma NewSchedulerCore_fails:
  assumes "NewSchedulerCore Z listen hostname conf w = (Inl p, w')"
  shows "tree w' (state_path (conf_mgr conf)) = tree w (state_path (conf_mgr conf)) \<or>
    tree w' (state_path (conf_mgr conf)) = Some (Some (serialize emptySchedulerState))"
proof -
  obtain r1 w1 where m: "NewMetadataManager Z (sc_frameworkName conf) (sc_zookeepers conf) w = (r1, w1)"
    by (cases "NewMetadataManager Z (sc_frameworkName conf) (sc_zookeepers conf) w") auto
  note t1 = NewMetadataManager_store [OF m, folded conf_mgr_def]
  show ?thesis
  proof (cases r1)
    case (Inl q)
    with assms m t1 show ?thesis by (simp add: NewSchedulerCore_def bind_io_def)
  next
    case (Inr mgr)
    obtain r2 w2 where g: "GetSchedulerState Z mgr w1 = (r2, w2)" by (cases "GetSchedulerState Z mgr w1") auto
    have mgr: "mgr = conf_mgr conf" using t1 Inr by simp
    obtain r3 w3 where c: "NewCPMd Z listen hostname mgr w2 = (r3, w3)" by (cases "NewCPMd Z listen hostname mgr w2") auto
    from assms m Inr g c have "w' = w2 \<or> w' = w3" by (cases r2; cases r3) (auto simp: NewSchedulerCore_def bind_io_def)
    with GetSchedulerState_store [OF g] NewCPMd_state [OF c] t1 mgr show ?thesis by auto
  qed
qed

end


context scheduler_store
begin

text \<open>A request for a node that panics because the resources cannot be read has changed nothing.\<close>

lemma createNode_keeps:
  assumes "core_ok sc" and "createNode Z uuid k sc w = (r, sc', w')"
  shows "core_ok sc' \<and> same_setup sc sc' \<and> (stored_ok tree sc w \<longrightarrow> stored_ok tree sc' w')"
proof (cases "conf_ok (sc_conf sc)")
  case True
  from node_created.handles [OF assms(1) True assms(2)] show ?thesis by (simp add: handled_def)
next
  case False
  have "sc' = sc \<and> w' = w"
  proof (cases "fmlookup (ss_Clusters (sc_state sc)) k")
    case (Some c)
    from False have "isl (CreateNode (sc_conf sc) uuid c)"
      unfolding conf_ok_CreateNode [of _ uuid c] by (cases "CreateNode (sc_conf sc) uuid c") auto
    with assms(2) Some show ?thesis
      by (cases "CreateNode (sc_conf sc) uuid c") (auto simp: createNode_def)
  qed (use assms(2) in \<open>simp add: createNode_def cluster_not_found_def respond_def\<close>)
  with assms(1) show ?thesis by simp
qed

lemma Scheduler_Run_keeps:
  assumes "core_ok sc" and "Scheduler_Run Z encode E created master sc w = (r, sc', w')"
    and "tree w' (state_path (sc_mgr sc)) = tree w (state_path (sc_mgr sc))"
  shows "core_ok sc' \<and> same_setup sc sc' \<and> (stored_ok tree sc w \<longrightarrow> stored_ok tree sc' w')"
proof -
  have "sc_state sc' = (sc_state sc)\<lparr>ss_MesosMaster := master\<rparr>" "sc_conf sc' = sc_conf sc" "sc_mgr sc' = sc_mgr sc"
    using assms(2) by (auto simp: Scheduler_Run_def disable_def Let_def split: sum.splits prod.splits if_splits)
  with assms show ?thesis by (simp add: core_ok_def data_ok_def same_setup_def stored_ok_def)
qed

end

context scheduler_handler
begin

lemma keeps:
  "core_ok sc \<Longrightarrow> ok sc \<Longrightarrow> handle sc w = (r, sc', w') \<Longrightarrow>
    core_ok sc' \<and> same_setup sc sc' \<and> (stored_ok tree sc w \<longrightarrow> stored_ok tree sc' w')"
  using handles by (simp add: handled_def)

end

context scheduling
begin

lemma serves_keeps:
  assumes "serves Z tree U sc w panicked sc' w'" and "core_ok sc"
  shows "core_ok sc' \<and> same_setup sc sc' \<and> (stored_ok tree sc w \<longrightarrow> stored_ok tree sc' w')"
  using assms
proof (cases rule: serves.cases)
  case running
  with assms(2) show ?thesis by (intro Scheduler_Run_keeps)
next
  case creating_node
  with assms(2) show ?thesis by (intro createNode_keeps)
next
  case registering
  show ?thesis by (rule registered.keeps [OF assms(2) TrueI registering(2)])
next
  case reregistering
  show ?thesis by (rule reregistered.keeps [OF assms(2) TrueI reregistering(2)])
next
  case offered
  show ?thesis by (rule offers.keeps [OF assms(2) offered(2,3)])
next
  case updated
  show ?thesis by (rule updates.keeps [OF assms(2) TrueI updated(2)])
next
  case reconciling
  show ?thesis by (rule passes.keeps [OF assms(2) conjI [OF reconciling(2,3)] reconciling(4)])
next
  case creating_cluster
  show ?thesis by (rule created.keeps [OF assms(2) TrueI creating_cluster(2)])
next
  case restarting_cluster
  show ?thesis by (rule restarted.keeps [OF assms(2) TrueI restarting_cluster(2)])
next
  case removing_cluster
  show ?thesis by (rule removed.keeps [OF assms(2) TrueI removing_cluster(2)])
next
  case configuring
  show ?thesis by (rule configured.keeps [OF assms(2) TrueI configuring(2)])
next
  case configuring_advanced
  show ?thesis by (rule advanced.keeps [OF assms(2) TrueI configuring_advanced(2)])
next
  case removing_node
  show ?thesis by (rule node_removed.keeps [OF assms(2) TrueI removing_node(2)])
qed

end

section \<open>The invariant of the process\<close>

text \<open>What the store may hold when a process starts.\<close>

lemma sys_ok_Down:
  "sys_ok tree conf (Down w) \<longleftrightarrow> (\<forall>d. tree w (state_path (conf_mgr conf)) = Some (Some d) \<longrightarrow>
    data_ok (sc_frameworkName conf) d \<and> serialize d = d)"
  by (simp add: sys_ok_def)

lemma sys_ok_Running:
  "sys_ok tree conf (Running sc w) \<longleftrightarrow> core_ok sc \<and> stored_ok tree sc w \<and> sc_conf sc = conf \<and> sc_mgr sc = conf_mgr conf"
  by (simp add: sys_ok_def)

lemmas sys_ok_simps = sys_ok_Down sys_ok_Running

lemma sys_ok_down: "sys_ok tree conf (Running sc w) \<Longrightarrow> sys_ok tree conf (Down w)"
  by (auto simp: sys_ok_simps stored_ok_def)

lemma new_state_ok: "data_ok fw emptySchedulerState" "serialize emptySchedulerState = emptySchedulerState"
  by (simp_all add: data_ok_def serialize_def emptySchedulerState_def)

context scheduling
begin

lemma serves_sys_ok:
  assumes "serves Z tree U sc w panicked sc' w'" and "sys_ok tree conf (Running sc w)"
  shows "sys_ok tree conf (Running sc' w')"
  using serves_keeps [OF assms(1)] assms(2) by (simp add: sys_ok_simps same_setup_def)

lemma sys_step_ok:
  assumes "sys_step Z tree U conf s t" and "sys_ok tree conf s"
  shows "sys_ok tree conf t"
  using assms
proof (cases rule: sys_step.cases)
  case (serve sc w panicked sc' w')
  with serves_sys_ok [OF serve(3)] assms(2) show ?thesis by simp
next
  case (panic sc w sc' w')
  with sys_ok_down [OF serves_sys_ok [OF panic(3)]] assms(2) show ?thesis by simp
next
  case (lose sc w)
  with sys_ok_down [of tree conf sc w] assms(2) show ?thesis by simp
next
  case (environment w' w sc)
  with assms(2) show ?thesis by (auto simp: sys_ok_simps stored_ok_def)
next
  case (environment_down w' w)
  with assms(2) show ?thesis by (simp add: sys_ok_simps)
next
  case (start listen hostname w sc w')
  have "core_ok sc \<and> stored_ok tree sc w' \<and> saved tree sc w' \<and> unreconciled sc"
    using assms(2) start(1) by (intro NewSchedulerCore_ok [OF start(3)]) (simp add: sys_ok_simps)
  moreover have "sc_conf sc = conf \<and> sc_mgr sc = conf_mgr conf"
    by (cases rule: NewSchedulerCore_cases [OF start(3)]) simp_all
  ultimately show ?thesis using start(2) by (simp add: sys_ok_simps)
next
  case (start_fails listen hostname w p w')
  from NewSchedulerCore_fails [OF start_fails(3)] assms(2) start_fails(1,2) show ?thesis
    by (auto simp: sys_ok_simps new_state_ok)
qed

end

sublocale scheduling \<subseteq> process: invariant_system "sys_init tree conf" "sys_step Z tree U conf" "sys_ok tree conf" for conf
  by unfold_locales (auto simp: sys_init_def sys_ok_simps intro: sys_step_ok)

end
