(* ===== verification/Example_Scheduler.thy ===== *)
theory Example_Scheduler
  imports Scheduler_System
begin

text \<open>
  A scheduler with one cluster of one node, a store in memory that holds its state, and an offer that
  fits the node: the concrete case in which the properties of the scheduler are applied.
\<close>

definition ex_state :: SchedulerState where
  "ex_state = with_node \<lparr>zn_stat = Some 0, zn_data = None, zn_ns = state_ns (conf_mgr ex_conf)\<rparr>
     (emptySchedulerState\<lparr>ss_Clusters := fmupd ''c1'' ex_cluster fmempty\<rparr>)"

definition ex_cepm :: "SchedulerData CEPM" where
  "ex_cepm = \<lparr>cp_mgr = conf_mgr ex_conf, cp_cepmdNode = \<lparr>zn_stat = Some 0, zn_data = None,
     zn_ns = makeSubSpace (mgr_namespace (conf_mgr ex_conf)) ''cepmd''\<rparr>, cp_addr = ''127.0.0.1:31'', cp_hostname = ''host''\<rparr>"

definition ex_core :: SchedulerCore where
  "ex_core = \<lparr>sc_conf = ex_conf, sc_mgr = conf_mgr ex_conf, sc_state = ex_state,
     sc_cepm = ex_cepm, rServer_enabled = True\<rparr>"

definition ex_store :: "SchedulerData mem_world" where
  "ex_store = \<lparr>mw_nodes = fmupd (state_path (conf_mgr ex_conf)) (Some (serialize ex_state), 0) fmempty,
     mw_faults = [], mw_conn = True\<rparr>"

definition ex_choice :: OfferChoice where
  "ex_choice = \<lparr>oc_clusters = [''c1''], oc_nodes = (\<lambda>_. [''riak-c1-1'']), oc_rnd = (\<lambda>_ _. 1)\<rparr>"

definition ex_env :: RunEnv where
  "ex_env = \<lparr>re_user = [], re_mesosAuthSecretFile = [], re_schedulerIPAddr = [], re_authProvider = [],
     re_ReadFile = (\<lambda>_. None), re_Hostname = Some ''s'', re_LookupIP = (\<lambda>_. None)\<rparr>"

lemma ex_state_clusters [simp]:
  "ss_Clusters ex_state = fmupd ''c1'' ex_cluster fmempty" "ss_Graveyard ex_state = fmempty"
  by (simp_all add: ex_state_def with_node_def emptySchedulerState_def)

lemma ex_core_simps [simp]:
  "sc_conf ex_core = ex_conf" "sc_mgr ex_core = conf_mgr ex_conf" "sc_state ex_core = ex_state" "rServer_enabled ex_core"
  by (simp_all add: ex_core_def)

lemma ex_core_ok: "core_ok ex_core"
proof -
  have "sc_frameworkName ex_conf = ''riak''" by (simp add: ex_conf_def)
  then have "data_ok (sc_frameworkName ex_conf) ex_state"
    using ex_cluster_ok by (auto simp: data_ok_def ex_cluster_def intro: clusters_ok_upd)
  moreover have "ss_zkNode ex_state = \<lparr>zn_stat = Some 0, zn_data = None, zn_ns = state_ns (conf_mgr ex_conf)\<rparr>"
    by (simp add: ex_state_def with_node_def)
  ultimately show ?thesis by (simp add: core_ok_def)
qed

lemma ex_store_tree: "mem_tree ex_store (state_path (conf_mgr ex_conf)) = Some (Some (serialize ex_state))"
  by (simp add: mem_tree_def ex_store_def)

lemma ex_ready: "ready mem_tree (\<lambda>w. mw_faults w = []) ex_core ex_store"
  by (simp add: ready_def ex_store_tree) (simp add: ex_store_def)

lemma ex_saved: "saved mem_tree ex_core ex_store"
  by (auto simp: saved_def ex_store_tree intro: exI [of _ "ss_MesosMaster ex_state"])

lemma ex_live [simp]: "live_node ex_core ''c1'' ''riak-c1-1'' = Some ex_node"
  by (simp add: live_node_def ex_cluster_def)

lemma ex_ports: "unpack \<lparr>vr_Begin = 31000, vr_End = 31011\<rparr> =
    [31000, 31001, 31002, 31003, 31004, 31005, 31006, 31007, 31008, 31009, 31010, 31011]"
proof -
  have "[31000..<Suc 31011] = [31000, 31001, 31002, 31003, 31004, 31005, 31006, 31007, 31008, 31009, 31010, 31011]"
    by (simp add: upt_rec)
  then show ?thesis by (simp add: unpack_def)
qed

lemma ex_offers_ok: "offers_ok (\<lambda>_. ex_choice) [ex_offer] ex_core"
proof -
  have "fresh_offer ex_offer"
    using sound_ex_offer by (simp add: fresh_offer_def offer_ports_def ports_of_def ex_offer_def ex_scalar_def ex_ports)
  moreover have "choice_ok ex_choice ex_core"
    by (auto simp: choice_ok_def ex_choice_def ex_cluster_def enumerates_def split: if_splits)
  ultimately show ?thesis by (simp add: offers_ok_def choices_ok_def)
qed

lemma ex_store_ok: "stored_ok mem_tree ex_core ex_store"
  using ex_core_ok by (auto simp: stored_ok_def ex_store_tree core_ok_def)

lemma ex_new_helper: "NewOfferHelper std_util ex_offer = Inr ex_helper"
proof -
  let ?r = "\<lparr>vr_Begin = 31000, vr_End = 31011\<rparr>"
  have "proper_range ?r" by (simp add: proper_range_def)
  then have p: "RangesToArray [?r] = Inr (unpack ?r)"
    using RangesToArray_proper [of "[?r]"] by simp
  have sums: "fadd 0 500 = (500 :: float64)" "fadd 0 4 = (4 :: float64)" "fadd 0 8192 = (8192 :: float64)"
    "fadd 0 20000 = (20000 :: float64)" by code_simp+
  show ?thesis
    by (simp add: sums NewOfferHelper_def getUnreservedResources_def getReservedResources_def getPorts_def getPersistenceIds_def
        getResource_def ex_offer_def ex_scalar_def ex_helper_def p ex_ports)
qed

lemma ex_schedulable: "CanBeScheduled ex_node" "\<not> NeedsToBeReconciled ex_node"
  by (simp_all add: CanBeScheduled_def NeedsToBeReconciled_def ex_node_def)

text \<open>The example scheduler answers the example offer with the task of its node.\<close>

lemma ex_launch:
  obtains ops sc' w' t where
    "ResourceOffers mem_zk std_util (\<lambda>_. ex_choice) [ex_offer] ex_core ex_store = (Inr [(ex_offer, ops)], sc', w')"
    "launched_tasks ops = [t]" "ti_TaskId t = ''riak-c1-1''" "core_ok sc'"
    "ready mem_tree (\<lambda>w. mw_faults w = []) sc' w'"
proof -
  obtain ps sc' w' where
    r: "ResourceOffers mem_zk std_util (\<lambda>_. ex_choice) [ex_offer] ex_core ex_store = (Inr ps, sc', w')"
    "core_ok sc'" "ready mem_tree (\<lambda>w. mw_faults w = []) sc' w'"
    using sim.offers.returns [OF ex_core_ok ex_ready ex_offers_ok] .
  obtain frn' h' where l: "ApplyReservedOffer std_util 1 ex_conf ex_node ex_helper = Inr (frn', h', True)"
    by (rule ex_node_launch)
  have "\<exists>t. TasksToLaunch h' = [t] \<and> ti_TaskId t = ''riak-c1-1''"
  proof (rule std.ApplyReservedOffer_cases [OF good_ports_ex_helper, of ex_node 1 ex_conf])
    fix g g' ta ea tk
    assume "ApplyReservedOffer std_util 1 ex_conf ex_node ex_helper =
      Inr (launched ex_conf ex_helper (sort_key sint tk) ex_node,
        ex_helper\<lparr>ReservedResources := g', UnreservedResources := g, TasksToLaunch := TasksToLaunch ex_helper @
          [node_TaskInfo std_util ex_conf (launched ex_conf ex_helper (sort_key sint tk) ex_node) ta ea]\<rparr>, True)"
    with l show ?thesis
      using ex_node_id by (auto simp: ex_helper_def node_TaskInfo_def Let_def CreateTaskID_def)
  qed (use l in \<open>simp_all add: ex_node_def\<close>)
  then obtain t where t: "TasksToLaunch h' = [t]" "ti_TaskId t = ''riak-c1-1''" by blast
  have comp: "sc_compatibilityMode ex_conf" by (simp add: ex_conf_def)
  have "Cluster_ApplyOffer std_util (\<lambda>_. 1) ex_conf [''riak-c1-1''] ex_helper ex_cluster =
      Inr (ex_cluster\<lparr>frc_Nodes := fmupd ''riak-c1-1'' frn' fmempty\<rparr>, h', True, False)"
    using l ex_schedulable comp by (simp add: Cluster_ApplyOffer_def offer_node_def ex_cluster_def)
  moreover have "MaybeUnreserve std_util h' = Inr h'" using t(1) by (simp add: MaybeUnreserve_def)
  ultimately have "ps = [(ex_offer, Operations std_util h')]"
    using r(1) by (auto simp: ResourceOffers_def operations_for_offer_def ApplyOffer_def ex_new_helper ex_choice_def
        bind_h_def split: sum.splits prod.splits)
  moreover have "launched_tasks (Operations std_util h') = [t]" using t(1) by (simp add: sim.Operations_launched)
  ultimately show thesis using that r t(2) by blast
qed

text \<open>A scheduler starts when the store in memory does not fail.\<close>

lemma mem_create:
  "mw_faults w = [] \<Longrightarrow> createIfNotExists mem_zk p e w =
    (Inr (), if fmlookup (mw_nodes w) p = None then w\<lparr>mw_nodes := fmupd p (None, 0) (mw_nodes w)\<rparr> else w)"
  by (simp add: createIfNotExists_def createIfNotExistsWithRetry.simps mem_zk_def mem_call_def)

lemma mem_create_each:
  assumes "mw_faults w = []"
  shows "\<exists>w'. create_each mem_zk e ps w = (Inr (), w') \<and> mw_faults w' = [] \<and>
    (\<forall>p \<in> set ps. fmlookup (mw_nodes w') p \<noteq> None) \<and>
    (\<forall>p. fmlookup (mw_nodes w) p \<noteq> None \<longrightarrow> fmlookup (mw_nodes w') p = fmlookup (mw_nodes w) p)"
  using assms
proof (induction ps arbitrary: w)
  case (Cons p ps)
  let ?w = "if fmlookup (mw_nodes w) p = None then w\<lparr>mw_nodes := fmupd p (None, 0) (mw_nodes w)\<rparr> else w"
  have f: "mw_faults ?w = []" using Cons.prems by simp
  have k: "fmlookup (mw_nodes ?w) p \<noteq> None"
    "\<forall>q. fmlookup (mw_nodes w) q \<noteq> None \<longrightarrow> fmlookup (mw_nodes ?w) q = fmlookup (mw_nodes w) q" by auto
  from Cons.IH [OF f] obtain w' where w': "create_each mem_zk e ps ?w = (Inr (), w')" "mw_faults w' = []"
    "\<forall>p \<in> set ps. fmlookup (mw_nodes w') p \<noteq> None"
    "\<forall>p. fmlookup (mw_nodes ?w) p \<noteq> None \<longrightarrow> fmlookup (mw_nodes w') p = fmlookup (mw_nodes ?w) p" by blast
  have "create_each mem_zk e (p # ps) w = (Inr (), w')"
    using w'(1) by (simp add: bind_io_def mem_create [OF Cons.prems])
  moreover have "\<forall>q \<in> set (p # ps). fmlookup (mw_nodes w') q \<noteq> None" using w'(3,4) k(1) by simp
  moreover have "\<forall>q. fmlookup (mw_nodes w) q \<noteq> None \<longrightarrow> fmlookup (mw_nodes w') q = fmlookup (mw_nodes w) q"
    using w'(4) k(2) by metis
  ultimately show ?case using w'(2) by blast
qed simp

lemma mem_get:
  "mw_faults w = [] \<Longrightarrow> fmlookup (mw_nodes w) (GetZKPath ns) = Some (d, v) \<Longrightarrow>
    getNode mem_zk mgr ns w = (Inr (Inr \<lparr>zn_stat = Some v, zn_data = d, zn_ns = ns\<rparr>), w)"
  by (simp add: getNode_def getNodeWithRetry.simps mem_zk_def mem_call_def)

lemma mem_get_root:
  "mw_faults w = [] \<Longrightarrow> fmlookup (mw_nodes w) (GetZKPath (mgr_namespace mgr)) = Some (d, v) \<Longrightarrow>
    GetRootNode mem_zk mgr w = (Inr \<lparr>zn_stat = Some v, zn_data = d, zn_ns = mgr_namespace mgr\<rparr>, w)"
  by (simp add: GetRootNode_def GetRootNodeWithRetry.simps mem_get)

lemma mem_manager:
  assumes "mw_faults w = []"
  obtains w' where "NewMetadataManager mem_zk fw zks w = (Inr \<lparr>mgr_frameworkID = fw, mgr_zookeepers = zks\<rparr>, w')"
    "mw_faults w' = []" "fmlookup (mw_nodes w') (GetZKPath (mgr_namespace \<lparr>mgr_frameworkID = fw, mgr_zookeepers = zks\<rparr>)) \<noteq> None"
    "\<forall>p. fmlookup (mw_nodes w) p \<noteq> None \<longrightarrow> fmlookup (mw_nodes w') p = fmlookup (mw_nodes w) p"
proof -
  let ?m = "\<lparr>mgr_frameworkID = fw, mgr_zookeepers = zks\<rparr>" and ?w = "w\<lparr>mw_conn := True\<rparr>"
  have "mw_conn w \<Longrightarrow> w\<lparr>mw_conn := True\<rparr> = w" by (cases w) simp
  then have c: "CreateConnection mem_zk ?m w = (Inr (), ?w)" by (simp add: CreateConnection_def mem_zk_def)
  have "mw_faults ?w = []" using assms by simp
  from mem_create_each [OF this, of False "prefix_paths (GetComponents (mgr_namespace ?m))"]
  obtain w' where w': "create_each mem_zk False (prefix_paths (GetComponents (mgr_namespace ?m))) ?w = (Inr (), w')"
    "mw_faults w' = []" "\<forall>p \<in> set (prefix_paths (GetComponents (mgr_namespace ?m))). fmlookup (mw_nodes w') p \<noteq> None"
    "\<forall>p. fmlookup (mw_nodes ?w) p \<noteq> None \<longrightarrow> fmlookup (mw_nodes w') p = fmlookup (mw_nodes ?w) p" by blast
  have "GetZKPath (mgr_namespace ?m) \<in> set (prefix_paths (GetComponents (mgr_namespace ?m)))"
    by (auto simp: prefix_paths_def mgr_namespace_def makeSubSpace_def image_iff intro!: bexI [of _ 3])
  with w' c show thesis by (intro that [of w']) (simp_all add: NewMetadataManager_def CreateNSIfNotExists_def bind_io_def Let_def)
qed

lemma mem_mapper:
  assumes "mw_faults w = []" and "fmlookup (mw_nodes w) (GetZKPath (mgr_namespace mgr)) = Some (d, v)"
  obtains c w' where "NewCPMd mem_zk (Some listen) (Some hostname) mgr w = (Inr c, w')" "mw_faults w' = []"
proof -
  let ?ns = "makeSubSpace (mgr_namespace mgr) ''cepmd''"
  have sl: "\<not> contains_char ''cepmd'' CHR ''/''" by (simp add: contains_char_def)
  from mem_create_each [OF assms(1), of False "prefix_paths (GetComponents ?ns)"]
  obtain w' where w': "create_each mem_zk False (prefix_paths (GetComponents ?ns)) w = (Inr (), w')"
    "mw_faults w' = []" "\<forall>p \<in> set (prefix_paths (GetComponents ?ns)). fmlookup (mw_nodes w') p \<noteq> None"
    "\<forall>p. fmlookup (mw_nodes w) p \<noteq> None \<longrightarrow> fmlookup (mw_nodes w') p = fmlookup (mw_nodes w) p" by blast
  have "GetZKPath ?ns \<in> set (prefix_paths (GetComponents ?ns))"
    by (simp add: makeSubSpace_def prefix_paths_snoc GetZKPath_Sub)
  with w'(3) obtain d1 v1 where n: "fmlookup (mw_nodes w') (GetZKPath ?ns) = Some (d1, v1)" by fastforce
  from w'(4) assms(2) have r: "fmlookup (mw_nodes w') (GetZKPath (mgr_namespace mgr)) = Some (d, v)" by simp
  show thesis
    using w'(1,2) sl mem_get_root [OF assms] mem_get_root [OF w'(2) r] mem_get [OF w'(2) n]
    by (intro that) (simp_all add: NewCPMd_def setupCPMd_def bind_io_def CreateChildIfNotExists_def CreateNSIfNotExists_def GetChild_def)
qed

lemma ex_start:
  assumes "mw_faults w = []" and "mem_tree w (state_path (conf_mgr conf)) = Some (Some d)"
  obtains sc w' where "NewSchedulerCore mem_zk (Some listen) (Some hostname) conf w = (Inr sc, w')" "mw_faults w' = []"
proof -
  let ?m = "conf_mgr conf"
  obtain w1 where w1: "NewMetadataManager mem_zk (sc_frameworkName conf) (sc_zookeepers conf) w = (Inr ?m, w1)"
    "mw_faults w1 = []" "fmlookup (mw_nodes w1) (GetZKPath (mgr_namespace ?m)) \<noteq> None"
    "\<forall>p. fmlookup (mw_nodes w) p \<noteq> None \<longrightarrow> fmlookup (mw_nodes w1) p = fmlookup (mw_nodes w) p"
    unfolding conf_mgr_def by (rule mem_manager [OF assms(1)])
  from w1(3) obtain d0 v0 where r: "fmlookup (mw_nodes w1) (GetZKPath (mgr_namespace ?m)) = Some (d0, v0)" by auto
  from assms(2) w1(4) obtain v where s: "fmlookup (mw_nodes w1) (GetZKPath (state_ns ?m)) = Some (Some d, v)"
    by (auto simp: mem_tree_def state_path_def)
  have sl: "\<not> contains_char ''SchedulerState'' CHR ''/''" by (simp add: contains_char_def)
  have "\<exists>ss. GetSchedulerState mem_zk ?m w1 = (Inr ss, w1)"
    using s sl mem_get_root [OF w1(2) r] mem_get [OF w1(2) s]
    by (simp add: GetSchedulerState_def bind_io_def GetChild_def DeserializeSchedulerState_def GetData_def flip: state_ns_def)
  then obtain ss where g: "GetSchedulerState mem_zk ?m w1 = (Inr ss, w1)" ..
  obtain c w2 where "NewCPMd mem_zk (Some listen) (Some hostname) ?m w1 = (Inr c, w2)" "mw_faults w2 = []"
    by (rule mem_mapper [OF w1(2) r])
  with g w1(1) that show thesis by (simp add: NewSchedulerCore_def bind_io_def)
qed

lemma mem_get_absent:
  assumes "mw_faults w = []" and "fmlookup (mw_nodes w) (GetZKPath ns) = None"
  shows "\<exists>w'. getNodeWithRetry mem_zk mgr ns c m w = (Inr (Inl ErrNoNode), w') \<and> mw_faults w' = [] \<and> mw_nodes w' = mw_nodes w"
  using assms
proof (induction "nat (m - c)" arbitrary: c w)
  case 0
  then show ?case by (simp add: getNodeWithRetry.simps [of _ _ _ c] mem_zk_def mem_call_def)
next
  case (Suc x)
  let ?w = "w\<lparr>mw_conn := True\<rparr>"
  have "mw_conn w \<Longrightarrow> ?w = w" by (cases w) simp
  then have "CreateConnection mem_zk mgr w = (Inr (), ?w)" by (simp add: CreateConnection_def mem_zk_def)
  moreover have "zk_Get mem_zk (GetZKPath ns) w = ((None, Some 0, Some ErrNoNode), w)"
    using Suc.prems by (simp add: mem_zk_def mem_call_def)
  moreover have "\<not> m \<le> c" using Suc.hyps(2) by auto
  ultimately have "getNodeWithRetry mem_zk mgr ns c m w = getNodeWithRetry mem_zk mgr ns (c + 1) m ?w"
    by (simp add: getNodeWithRetry.simps [of _ _ _ c])
  moreover from Suc.hyps(2) have "x = nat (m - (c + 1))" by simp
  from Suc.hyps(1) [OF this, of ?w] Suc.prems obtain w' where
    "getNodeWithRetry mem_zk mgr ns (c + 1) m ?w = (Inr (Inl ErrNoNode), w')" "mw_faults w' = []" "mw_nodes w' = mw_nodes w"
    by auto
  ultimately show ?case by simp
qed

lemma ex_first_start:
  assumes "mw_faults w = []" and "mem_tree w (state_path (conf_mgr conf)) = None"
  obtains sc w' where "NewSchedulerCore mem_zk (Some listen) (Some hostname) conf w = (Inr sc, w')" "mw_faults w' = []"
proof -
  let ?m = "conf_mgr conf"
  obtain w1 where w1: "NewMetadataManager mem_zk (sc_frameworkName conf) (sc_zookeepers conf) w = (Inr ?m, w1)"
    "mw_faults w1 = []" "fmlookup (mw_nodes w1) (GetZKPath (mgr_namespace ?m)) \<noteq> None"
    unfolding conf_mgr_def by (rule mem_manager [OF assms(1)])
  from w1(3) obtain d0 v0 where r: "fmlookup (mw_nodes w1) (GetZKPath (mgr_namespace ?m)) = Some (d0, v0)" by auto
  have "mem_tree w1 (state_path ?m) = None"
    using mem.NewMetadataManager_store [OF w1(1) [unfolded conf_mgr_def], folded conf_mgr_def] assms(2) by simp
  then have s: "fmlookup (mw_nodes w1) (GetZKPath (state_ns ?m)) = None" by (simp add: mem_tree_def state_path_def)
  obtain w2 where w2: "getNode mem_zk ?m (state_ns ?m) w1 = (Inr (Inl ErrNoNode), w2)" "mw_faults w2 = []" "mw_nodes w2 = mw_nodes w1"
    using mem_get_absent [OF w1(2) s] unfolding getNode_def by blast
  let ?d = "Some (serialize emptySchedulerState)"
  let ?w3 = "w2\<lparr>mw_nodes := fmupd (GetZKPath (state_ns ?m)) (?d, 0) (mw_nodes w2)\<rparr>"
  have "make_data_attempt mem_zk (state_ns ?m) ?d False w2 = (Inr None, ?w3)"
    using w2(2,3) s by (simp add: make_data_attempt_def mem_zk_def mem_call_def)
  moreover have "getNode mem_zk ?m (state_ns ?m) ?w3 = (Inr (Inr \<lparr>zn_stat = Some 0, zn_data = ?d, zn_ns = state_ns ?m\<rparr>), ?w3)"
    by (rule mem_get) (simp_all add: w2)
  ultimately have mk: "makeNodeWithData mem_zk ?m (state_ns ?m) ?d False w2 =
      (Inr (Inr \<lparr>zn_stat = Some 0, zn_data = ?d, zn_ns = state_ns ?m\<rparr>), ?w3)"
    by (simp add: makeNodeWithData_def makeNodeWithDataWithRetry.simps)
  have sl: "\<not> contains_char ''SchedulerState'' CHR ''/''" by (simp add: contains_char_def)
  have "\<exists>ss. GetSchedulerState mem_zk ?m w1 = (Inr ss, ?w3)"
    using sl mk w2(1) mem_get_root [OF w1(2) r] mem_get_root [OF w2(2) r [folded w2(3)]]
    by (simp add: GetSchedulerState_def bind_io_def GetChild_def MakeChildWithData_def flip: state_ns_def)
  then obtain ss where g: "GetSchedulerState mem_zk ?m w1 = (Inr ss, ?w3)" ..
  have "GetZKPath (state_ns ?m) \<noteq> GetZKPath (mgr_namespace ?m)" using r s by auto
  then have f: "mw_faults ?w3 = []" "fmlookup (mw_nodes ?w3) (GetZKPath (mgr_namespace ?m)) = Some (d0, v0)"
    using r w2(2,3) by simp_all
  obtain c w4 where "NewCPMd mem_zk (Some listen) (Some hostname) ?m ?w3 = (Inr c, w4)" "mw_faults w4 = []"
    by (rule mem_mapper [OF f])
  with g w1(1) that show thesis by (simp add: NewSchedulerCore_def bind_io_def)
qed

section \<open>Passes over the example\<close>

text \<open>The orders of a pass over the one cluster, and a clock that stands still.\<close>

definition ex_pass :: "string list \<Rightarrow> string list \<Rightarrow> string list \<Rightarrow> PassChoice" where
  "ex_pass kill remove restart = \<lparr>pc_clusters = [''c1''], pc_nodes = (\<lambda>_. [''riak-c1-1'']), pc_kill = (\<lambda>_. kill),
     pc_remove = (\<lambda>_. remove), pc_restart = (\<lambda>_. restart), pc_again = (\<lambda>_. []), pc_clock = (\<lambda>_ _. (zero_time, zero_time))\<rparr>"

definition ex_driver :: driver where
  "ex_driver call = (DRIVER_RUNNING, None)"

lemma ex_driver_running: "driver_running ex_driver"
  by (simp add: driver_running_def ex_driver_def)

lemma ex_pass_ok: "pass_ok (ex_pass [] [] [''riak-c1-1'']) ex_core"
proof -
  have n: "\<not> CanBeKilled ex_node" "\<not> CanBeRemoved ex_node"
    by (simp_all add: CanBeKilled_def CanBeRemoved_def ex_node_def)
  then have kr: "GetNodesToKillOrRemove [''riak-c1-1''] ex_cluster = (fmempty, fmempty)"
    by (simp add: GetNodesToKillOrRemove_def collect_nodes_def ex_cluster_def)
  have "\<not> frc_IsRestarting ex_cluster" by (simp add: ex_cluster_def)
  then have "GetNodesToRestart [''riak-c1-1''] ex_cluster = (ex_cluster, fmempty, False)"
    by (simp add: GetNodesToRestart_def)
  with kr show ?thesis
    by (simp add: pass_ok_def pass_cluster_ok_def kept_cluster_def ex_pass_def remove_nodes_empty enumerates_def)
      (simp add: ex_cluster_def)
qed

text \<open>The example is started again after a handler has saved its state.\<close>

lemma ex_restart:
  assumes "ready mem_tree (\<lambda>w. mw_faults w = []) sc w" and "saved mem_tree sc w" and "sc_mgr sc = conf_mgr conf"
  obtains sc' w' where "NewSchedulerCore mem_zk (Some listen) (Some hostname) conf w = (Inr sc', w')" "mw_faults w' = []"
proof -
  from assms(2,3) obtain d where d: "mem_tree w (state_path (conf_mgr conf)) = Some (Some d)" by (auto simp: saved_def)
  from assms(1) have f: "mw_faults w = []" by (simp add: ready_def)
  from that show thesis by (rule ex_start [OF f d])
qed

lemma ex_pass_killed_ok:
  assumes "ss_Clusters (sc_state sc) = fmupd ''c1'' (killed_cluster ex_cluster) fmempty"
  shows "pass_ok (ex_pass [] [''riak-c1-1''] []) sc"
proof -
  let ?n = "KillNext ex_node" and ?c = "killed_cluster ex_cluster"
  have n: "\<not> CanBeKilled ?n" "CanBeRemoved ?n" "CurrentID ?n = ''riak-c1-1''"
    using ex_node_id by (simp_all add: CanBeKilled_def CanBeRemoved_def KillNext_def ex_node_def CurrentID_def)
  have c: "frc_Nodes ?c = fmupd ''riak-c1-1'' ?n fmempty" "\<not> frc_IsRestarting ?c"
    by (simp_all add: fmmap_fmupd killed_cluster_def Cluster_KillNext_def ex_cluster_def)
  have kr: "GetNodesToKillOrRemove [''riak-c1-1''] ?c = (fmempty, fmupd ''riak-c1-1'' ?n fmempty)"
    using n by (simp add: GetNodesToKillOrRemove_def collect_nodes_def c)
  let ?d = "kept_cluster (ex_pass [] [''riak-c1-1''] []) ''c1'' ?c"
  have d: "frc_Nodes ?d = fmempty" "\<not> frc_IsRestarting ?d"
    using n(3) c by (simp_all add: kept_cluster_def ex_pass_def kr RemoveNode_def fmap_ext)
  then have "GetNodesToRestart [] ?d = (?d, fmempty, False)" by (simp add: GetNodesToRestart_def)
  then show ?thesis
    using assms kr d c(1) by (simp add: pass_ok_def pass_cluster_ok_def) (simp add: ex_pass_def enumerates_def)
qed

end
