(* ===== verification/Metadata_Delete.thy ===== *)
theory Metadata_Delete
  imports Metadata
begin

text \<open>
  Deleting nodes of the metadata tree, \<^verbatim>\<open>DeleteChildren\<close> of \<^verbatim>\<open>metadata_manager/manager.go\<close>. The connection's
  \<^verbatim>\<open>Delete\<close> is an argument beside the connection, and the depth of the recursion over the tree a fuel: a
  path with fuel left over has been dealt with whole, and \<open>None\<close> stands for running out of it.
\<close>

section \<open>Deleting\<close>

type_synonym 'w zk_delete = "string \<Rightarrow> 'w \<Rightarrow> zkerr option \<times> 'w"

primrec each_child :: "(string \<Rightarrow> 'w \<Rightarrow> unit result option \<times> 'w) \<Rightarrow> string list \<Rightarrow> 'w \<Rightarrow> unit result option \<times> 'w" where
  "each_child f [] w = (Some (Inr ()), w)"
| "each_child f (name # names) w =
     (case f name w of (Some (Inr _), w1) \<Rightarrow> each_child f names w1 | other \<Rightarrow> other)"

primrec DeleteChildrenWithRetry ::
  "nat \<Rightarrow> ('d, 'w) zk_conn \<Rightarrow> 'w zk_delete \<Rightarrow> string \<Rightarrow> int \<Rightarrow> int \<Rightarrow> 'w \<Rightarrow> unit result option \<times> 'w" where
  "DeleteChildrenWithRetry 0 Z delete path currentRetry retry w = (None, w)"
| "DeleteChildrenWithRetry (Suc fuel) Z delete path currentRetry retry w =
     (let ((children, _), w1) = zk_Children Z path w
      in if children = [] then
           (case delete path w1 of
              (None, w2) \<Rightarrow> (Some (Inr ()), w2)
            | (Some err, w2) \<Rightarrow>
                if currentRetry \<ge> retry then (Some (Inl (LogPanic ''Delete'')), w2)
                else DeleteChildrenWithRetry fuel Z delete path (currentRetry + 1) retry w2)
         else each_child (\<lambda>name. DeleteChildrenWithRetry fuel Z delete (path @ ''/'' @ name) currentRetry retry) children w1)"

definition DeleteChildren :: "nat \<Rightarrow> ('d, 'w) zk_conn \<Rightarrow> 'w zk_delete \<Rightarrow> string \<Rightarrow> 'w \<Rightarrow> unit result option \<times> 'w" where
  "DeleteChildren fuel Z delete path = DeleteChildrenWithRetry fuel Z delete path 0 10"

definition Node_Delete :: "nat \<Rightarrow> ('d, 'w) zk_conn \<Rightarrow> 'w zk_delete \<Rightarrow> 'd ZkNode \<Rightarrow> 'w \<Rightarrow> unit result option \<times> 'w" where
  "Node_Delete fuel Z delete node = DeleteChildren fuel Z delete (GetZKPath (zn_ns node))"

section \<open>Leaves and branches\<close>

text \<open>A node without children whose absence of children does not depend on the state of the connection.\<close>

definition leaf :: "('d, 'w) zk_conn \<Rightarrow> string \<Rightarrow> bool" where
  "leaf Z path \<longleftrightarrow> (\<forall>w. \<exists>e. zk_Children Z path w = (([], e), w))"

definition delete_attempt :: "'w zk_delete \<Rightarrow> string \<Rightarrow> int \<Rightarrow> 'w \<Rightarrow> 'w + 'w" where
  "delete_attempt delete path c w = (case delete path w of (None, w') \<Rightarrow> Inl w' | (Some e, w') \<Rightarrow> Inr w')"

lemma delete_leaf_retries:
  assumes "leaf Z path" and "fails (delete_attempt delete path) c n w u" and "c + int n \<le> m"
    and "delete path u = (None, w')" and "n < fuel"
  shows "DeleteChildrenWithRetry fuel Z delete path c m w = (Some (Inr ()), w')"
  using assms(2-5)
proof (induction n arbitrary: c w fuel)
  case 0
  then have "w = u" by (auto elim: fails_0E)
  moreover obtain f where "fuel = Suc f" using "0.prems"(4) by (cases fuel) auto
  moreover obtain e where "zk_Children Z path w = (([], e), w)" using assms(1) by (auto simp: leaf_def)
  ultimately show ?case using "0.prems"(3) by simp
next
  case (Suc n)
  from Suc.prems(1) obtain w1 where a: "delete_attempt delete path c w = Inr w1"
    "fails (delete_attempt delete path) (c + 1) n w1 u" by (auto elim: fails_SucE)
  from a(1) obtain e where d: "delete path w = (Some e, w1)"
    by (auto simp: delete_attempt_def split: prod.splits option.splits)
  obtain f where f: "fuel = Suc f" "n < f" using Suc.prems(4) by (cases fuel) auto
  obtain e' where "zk_Children Z path w = (([], e'), w)" using assms(1) by (auto simp: leaf_def)
  with Suc.IH [OF a(2) _ Suc.prems(3) f(2)] d f(1) Suc.prems(2) show ?case by simp
qed

text \<open>
  C39: A node without children is deleted as long as no more than ten attempts fail, and eleven calls to the
  store are all it takes.
\<close>

theorem delete_leaf:
  assumes "leaf Z (GetZKPath (zn_ns node))"
    and "fails (delete_attempt delete (GetZKPath (zn_ns node))) 0 n w u" and "n \<le> 10"
    and "delete (GetZKPath (zn_ns node)) u = (None, w')"
  shows "Node_Delete 11 Z delete node w = (Some (Inr ()), w')"
  using assms by (simp add: Node_Delete_def DeleteChildren_def delete_leaf_retries)

text \<open>Deleting in the store in memory.\<close>

definition mem_delete :: "'d mem_world zk_delete" where
  "mem_delete p = mem_call (\<lambda>w. if fmlookup (mw_nodes w) p = None then (Some ErrNoNode, w)
     else (None, w\<lparr>mw_nodes := fmdrop p (mw_nodes w)\<rparr>)) (Some ErrConnectionClosed)"

theorem delete_leaf_witness:
  "leaf mem_zk (GetZKPath (zn_ns ex_zk_node)) \<and>
   (\<exists>w'. Node_Delete 11 mem_zk mem_delete ex_zk_node (ex_world [True]) = (Some (Inr ()), w') \<and>
      mem_tree w' ''/riak/frameworks/riak/SchedulerState'' = None)"
proof -
  let ?p = "GetZKPath (zn_ns ex_zk_node)"
  have l: "leaf mem_zk ?p" by (simp add: leaf_def mem_zk_def)
  have f: "fails (delete_attempt mem_delete ?p) 0 1 (ex_world [True]) (ex_world [])"
    unfolding One_nat_def
    by (rule fails_Suc [OF _ fails_0]) (simp add: delete_attempt_def mem_delete_def mem_call_def ex_world_def)
  let ?w = "(ex_world [])\<lparr>mw_nodes := fmdrop ?p (mw_nodes (ex_world []))\<rparr>"
  have d: "mem_delete ?p (ex_world []) = (None, ?w)"
    by (simp add: mem_delete_def mem_call_def ex_world_def ex_path)
  have "mem_tree ?w ''/riak/frameworks/riak/SchedulerState'' = None" by (simp add: mem_tree_def ex_path)
  with delete_leaf [OF l f _ d] l show ?thesis by simp
qed

definition branch_conn :: "(string, string mem_world) zk_conn" where
  "branch_conn = mem_zk\<lparr>zk_Children := (\<lambda>p w. ((filter (\<lambda>n. fmlookup (mw_nodes w) (p @ ''/'' @ n) \<noteq> None) [''b''], None), w))\<rparr>"

definition branch_world :: "string mem_world" where
  "branch_world = \<lparr>mw_nodes = fmupd ''/a/b'' (None, 0) (fmupd ''/a'' (None, 0) fmempty), mw_faults = [], mw_conn = True\<rparr>"

text \<open>
  A node with children is not deleted: \<open>Delete\<close> removes the leaves below it and leaves the node
  itself, here \<open>/a\<close> with its one child.
\<close>

theorem delete_leaves_branch:
  "\<exists>w'. DeleteChildren 11 branch_conn mem_delete ''/a'' branch_world = (Some (Inr ()), w') \<and>
     mem_tree w' ''/a/b'' = None \<and> mem_tree w' ''/a'' \<noteq> None"
  by (simp add: DeleteChildren_def branch_conn_def branch_world_def eval_nat_numeral mem_delete_def mem_call_def mem_tree_def)

section \<open>Creating a path\<close>

text \<open>The operation for a path given as a text; the manager itself uses the one for a namespace.\<close>

definition createPathIfNotExists :: "('d, 'w) zk_conn \<Rightarrow> string \<Rightarrow> bool \<Rightarrow> (unit, 'w) io" where
  "createPathIfNotExists Z path ephemeral = create_each Z ephemeral (prefix_paths (split_at CHR ''/'' path))"

lemma components_slash_free: "slash_free ns \<Longrightarrow> \<forall>c \<in> set (GetComponents ns). CHR ''/'' \<notin> set c"
  by (induction ns) auto



end
