(* ===== verification/Cepmd.thy ===== *)
theory Cepmd
  imports Metadata_Delete Cepmd_Setup
begin

text \<open>
  The port mapper, the rest of \<^verbatim>\<open>cepmd/cepm/cepm.go\<close> and \<^verbatim>\<open>cepmd/cepmd.go\<close>, which stands in for Erlang's own: each node has
  a mapper beside it, to which it registers its name and port and which it asks for the ports of the others.
  The mappers share what they know through the store. The network is an argument: the address
  a mapper listens on, the first line of a connection and the moment it ends.
\<close>

section \<open>Connections\<close>

definition crlf :: "char \<Rightarrow> bool" where
  "crlf c \<longleftrightarrow> c = CHR 0x0D \<or> c = CHR 0x0A"

text \<open>\<^verbatim>\<open>strings.Trim\<close> of the line's end.\<close>

definition trim :: "string \<Rightarrow> string" where
  "trim s = rev (dropWhile crlf (rev (dropWhile crlf s)))"

definition newline :: string where
  "newline = [CHR 0x0A]"

text \<open>
  The first part of a connection: its line, \<open>None\<close> when reading it failed, what is written to it, and the node
  of the store that is deleted when the connection ends. A connection without such a node is closed.
\<close>

definition handle_register :: "(string, 'w) zk_conn \<Rightarrow> string CEPM \<Rightarrow> string list \<Rightarrow> (string list \<times> string ZkNode option, 'w) io" where
  "handle_register Z c commandAndMore w =
     (if length commandAndMore < 3 then (Inl IndexOutOfRange, w)
      else case Atoi (commandAndMore ! 2) of
             None \<Rightarrow> (Inr ([], None), w)
           | Some port \<Rightarrow>
               let disterlData = \<lparr>dd_NodeName = commandAndMore ! 1, dd_DisterlPort = port\<rparr>
               in bind_io (MakeChildWithData Z (cp_mgr c) (cp_cepmdNode c) (commandAndMore ! 1)
                      (Some (DisterlData_Serialize disterlData)) True)
                    (\<lambda>r w1. case r of
                       Inl err \<Rightarrow> (Inr ([''ERROR'' @ newline], None), w1)
                     | Inr node \<Rightarrow> (Inr ([''OK'' @ newline], Some node), w1)) w)"

definition handle_port_please :: "(string, 'w) zk_conn \<Rightarrow> string CEPM \<Rightarrow> string list \<Rightarrow> (string list \<times> string ZkNode option, 'w) io" where
  "handle_port_please Z c commandAndMore w =
     (if length commandAndMore < 2 then (Inl IndexOutOfRange, w)
      else bind_io (GetChild Z (cp_mgr c) (cp_cepmdNode c) (commandAndMore ! 1))
             (\<lambda>r w1. case r of
                Inl err \<Rightarrow> (Inr ([''NOTFOUND'' @ newline], None), w1)
              | Inr zkNode \<Rightarrow>
                  let data = (case GetData zkNode of None \<Rightarrow> [] | Some bytes \<Rightarrow> bytes);
                      (disterlData, err) = DeserializeDisterlData data
                  in (Inr ([fmt_d (sint (dd_DisterlPort disterlData)) @ newline], None), w1)) w)"

definition handleConn :: "(string, 'w) zk_conn \<Rightarrow> string CEPM \<Rightarrow> string option \<Rightarrow> (string list \<times> string ZkNode option, 'w) io" where
  "handleConn Z c line w =
     (case line of
        None \<Rightarrow> (Inr ([], None), w)
      | Some l \<Rightarrow>
          let commandAndMore = split_at CHR '' '' (trim l); command = hd commandAndMore
          in if command = ''REGISTER'' then handle_register Z c commandAndMore w
             else if command = ''PORT_PLEASE'' then handle_port_please Z c commandAndMore w
             else (Inr ([], None), w))"

text \<open>The deferred end of a registration, when the connection's read has returned.\<close>

definition conn_ended :: "nat \<Rightarrow> (string, 'w) zk_conn \<Rightarrow> 'w zk_delete \<Rightarrow> string ZkNode \<Rightarrow> 'w \<Rightarrow> unit result option \<times> 'w" where
  "conn_ended fuel Z delete node = Node_Delete fuel Z delete node"

text \<open>
  The loop that accepts connections. Each connection has a goroutine of its own; the events are given in the
  order in which they take effect. A panic of a goroutine ends the process, as does a failure to accept.
\<close>

datatype mapper_event =
    Accept "string option"
  | AcceptError string
  | Disconnect nat

definition acceptLoop_event ::
  "nat \<Rightarrow> (string, 'w) zk_conn \<Rightarrow> 'w zk_delete \<Rightarrow> string CEPM \<Rightarrow> mapper_event \<Rightarrow> string ZkNode list \<Rightarrow> 'w
     \<Rightarrow> (string list \<times> string ZkNode list) result option \<times> 'w" where
  "acceptLoop_event fuel Z delete c e regs w =
     (case e of
        Accept line \<Rightarrow>
          (case handleConn Z c line w of
             (Inl p, w1) \<Rightarrow> (Some (Inl p), w1)
           | (Inr (written, reg), w1) \<Rightarrow>
               (Some (Inr (written, case reg of None \<Rightarrow> regs | Some node \<Rightarrow> regs @ [node])), w1))
      | AcceptError err \<Rightarrow> (Some (Inl (LogFatal err)), w)
      | Disconnect i \<Rightarrow>
          if i < length regs then
            (case conn_ended fuel Z delete (regs ! i) w of
               (None, w1) \<Rightarrow> (None, w1)
             | (Some (Inl p), w1) \<Rightarrow> (Some (Inl p), w1)
             | (Some (Inr _), w1) \<Rightarrow> (Some (Inr ([], take i regs @ drop (Suc i) regs)), w1))
          else (Some (Inr ([], regs)), w))"

fun acceptLoop ::
  "nat \<Rightarrow> (string, 'w) zk_conn \<Rightarrow> 'w zk_delete \<Rightarrow> string CEPM \<Rightarrow> mapper_event list \<Rightarrow> string ZkNode list \<Rightarrow> 'w
     \<Rightarrow> (string list list \<times> string ZkNode list) result option \<times> 'w" where
  "acceptLoop fuel Z delete c [] regs w = (Some (Inr ([], regs)), w)"
| "acceptLoop fuel Z delete c (e # es) regs w =
     (case acceptLoop_event fuel Z delete c e regs w of
        (None, w1) \<Rightarrow> (None, w1)
      | (Some (Inl p), w1) \<Rightarrow> (Some (Inl p), w1)
      | (Some (Inr (written, regs1)), w1) \<Rightarrow>
          (case acceptLoop fuel Z delete c es regs1 w1 of
             (Some (Inr (ws, regs2)), w2) \<Rightarrow> (Some (Inr (written # ws, regs2)), w2)
           | other \<Rightarrow> other))"

section \<open>Installing\<close>

text \<open>
  Erlang's own mapper is overwritten by a program that does nothing. The files that match a pattern, \<open>None\<close> when
  it is malformed, and the command that copies are arguments, and so is the unpacking of the files bundled with the
  program, \<^verbatim>\<open>RestoreAssets\<close>, which is generated.
\<close>

definition KillEPMD :: "string list option \<Rightarrow> (string \<Rightarrow> string option) \<Rightarrow> string option" where
  "KillEPMD globs cp =
     (case globs of
        None \<Rightarrow> Some ''syntax error in pattern''
      | Some files \<Rightarrow>
          if length files \<noteq> 1 then Some (''Not the right number of globs: '' @ fmt_d (int (length files)))
          else cp (hd files))"

definition InstallInto :: "(string \<Rightarrow> string option) \<Rightarrow> string \<Rightarrow> string option" where
  "InstallInto restoreAssets dir = restoreAssets dir"

record InstallEnv =
  in_kernelDirs :: "string list option"
  in_restoreAssets :: "string \<Rightarrow> string option"
  in_epmdGlobs :: "string list option"
  in_cp :: "string \<Rightarrow> string option"
  in_writable :: "string \<Rightarrow> bool"

text \<open>The file of the port, written when it can be.\<close>

definition write_port_file :: "InstallEnv \<Rightarrow> string \<Rightarrow> int64 \<Rightarrow> (string \<rightharpoonup> string) \<Rightarrow> (string \<rightharpoonup> string)" where
  "write_port_file I dir port files =
     (if in_writable I (dir @ ''/priv/cepmd_port'') then files(dir @ ''/priv/cepmd_port'' \<mapsto> fmt_d (sint port) @ ''.'') else files)"

definition InstallIntoCli :: "InstallEnv \<Rightarrow> int64 \<Rightarrow> (string \<rightharpoonup> string) \<Rightarrow> (string \<rightharpoonup> string) result" where
  "InstallIntoCli I port files =
     (case in_kernelDirs I of
        None \<Rightarrow> Inl (LogFatal ''Could not find kernel directory'')
      | Some [] \<Rightarrow> Inl IndexOutOfRange
      | Some (dir # _) \<Rightarrow>
          if in_restoreAssets I (dir @ ''/ebin'') \<noteq> None then Inl (LogPanic ''RestoreAssets'')
          else if KillEPMD (in_epmdGlobs I) (in_cp I) \<noteq> None then Inl (LogFatal ''Could not kill EPMd'')
          else Inr (write_port_file I dir port files))"

text \<open>The program of its own, \<^verbatim>\<open>cepmd\<close>: what its loop is started with, and the files it has written.\<close>

definition cepmd_main ::
  "(string, 'w) zk_conn \<Rightarrow> InstallEnv \<Rightarrow> string \<Rightarrow> string \<Rightarrow> string option \<Rightarrow> string option \<Rightarrow> (string CEPM \<times> (string \<rightharpoonup> string), 'w) io" where
  "cepmd_main Z I frameworkID zookeeperAddr listen hostname =
     bind_io (NewMetadataManager Z frameworkID [zookeeperAddr]) (\<lambda>mgr.
     bind_io (NewCPMd Z listen hostname mgr) (\<lambda>c w.
       (bind_result (GetPort c) (\<lambda>port. bind_result (InstallIntoCli I port Map.empty) (\<lambda>files. Inr (c, files))), w)))"

section \<open>The directory\<close>

text \<open>
  What the mappers promise together: a directory from names to ports, one for all that share the node of the store.
\<close>

datatype command = Register string int64 | PortPlease string | Other

definition command_of :: "string option \<Rightarrow> command" where
  "command_of line =
     (case line of
        None \<Rightarrow> Other
      | Some l \<Rightarrow>
          (case split_at CHR '' '' (trim l) of
             cmd # name # args \<Rightarrow>
               if cmd = ''REGISTER'' then
                 (case args of [] \<Rightarrow> Other | port # _ \<Rightarrow> (case Atoi port of None \<Rightarrow> Other | Some p \<Rightarrow> Register name p))
               else if cmd = ''PORT_PLEASE'' then PortPlease name else Other
           | _ \<Rightarrow> Other))"

definition answer :: "int64 option \<Rightarrow> string" where
  "answer r = (case r of None \<Rightarrow> ''NOTFOUND'' | Some port \<Rightarrow> fmt_d (sint port)) @ newline"

text \<open>\<open>failed\<close>: the store could not be read.\<close>

fun directory_step :: "bool \<Rightarrow> command \<Rightarrow> (string \<rightharpoonup> int64) \<Rightarrow> string list \<Rightarrow> (string \<rightharpoonup> int64) \<Rightarrow> bool" where
  "directory_step failed (Register name port) dir ws dir' \<longleftrightarrow>
     ws = [''OK'' @ newline] \<and> dir' = dir(name \<mapsto> port) \<or>
     ws = [''ERROR'' @ newline] \<and> failed \<and> (dir' = dir \<or> dir' = dir(name \<mapsto> port))"
| "directory_step failed (PortPlease name) dir ws dir' \<longleftrightarrow>
     dir' = dir \<and> (ws = [answer (dir name)] \<or> failed \<and> ws = [answer None])"
| "directory_step failed Other dir ws dir' \<longleftrightarrow> dir' = dir \<and> ws = []"

definition port_of :: "string option \<Rightarrow> int64" where
  "port_of data = dd_DisterlPort (fst (DeserializeDisterlData (case data of None \<Rightarrow> [] | Some bytes \<Rightarrow> bytes)))"

definition name_path :: "Namespace \<Rightarrow> string \<Rightarrow> string" where
  "name_path ns name = GetZKPath (makeSubSpace ns name)"

definition directory :: "(string \<Rightarrow> string option option) \<Rightarrow> Namespace \<Rightarrow> string \<rightharpoonup> int64" where
  "directory t ns name = (if CHR ''/'' \<in> set name then None else map_option port_of (t (name_path ns name)))"

lemma port_of_serialized [simp]: "port_of (Some (DisterlData_Serialize d)) = dd_DisterlPort d"
  by (simp add: port_of_def DisterlData_roundtrip)

lemma name_path_eq_iff:
  assumes "slash_free ns" "CHR ''/'' \<notin> set a" "CHR ''/'' \<notin> set b"
  shows "name_path ns a = name_path ns b \<longleftrightarrow> a = b"
  using GetZKPath_inj [of ns a ns b] assms by (simp add: name_path_def makeSubSpace_def)

lemma directory_upd:
  assumes "slash_free ns" and "CHR ''/'' \<notin> set name"
  shows "directory (t(name_path ns name := Some data)) ns = (directory t ns)(name \<mapsto> port_of data)"
    and "directory (t(name_path ns name := None)) ns = (directory t ns)(name := None)"
  using assms by (auto simp: directory_def fun_eq_iff name_path_eq_iff)

context zookeeper begin

lemma GetChild_tree:
  assumes "GetChild Z mgr node name w = (Inr r, w')"
  shows "CHR ''/'' \<notin> set name \<and> tree w' = tree w \<and>
    (case r of Inl e \<Rightarrow> e = ErrNoNode \<longrightarrow> tree w (name_path (zn_ns node) name) = None
     | Inr child \<Rightarrow> tree w (name_path (zn_ns node) name) = Some (zn_data child))"
  using assms getNode_tree [of mgr "makeSubSpace (zn_ns node) name" w "Inr r" w']
  by (auto simp: GetChild_def name_path_def split: if_splits sum.splits)

lemma MakeChildWithData_tree:
  assumes "MakeChildWithData Z mgr node name data e w = (Inr r, w')" and "create_law Z tree e"
    and "tree w (name_path (zn_ns node) name) = None"
  shows "CHR ''/'' \<notin> set name \<and>
    (case r of Inl err \<Rightarrow> tree w' = tree w \<or> tree w' = (tree w)(name_path (zn_ns node) name := Some data)
     | Inr child \<Rightarrow> zn_ns child = makeSubSpace (zn_ns node) name \<and> tree w' = (tree w)(name_path (zn_ns node) name := Some data))"
proof -
  from assms(1) have m: "CHR ''/'' \<notin> set name" "makeNodeWithData Z mgr (makeSubSpace (zn_ns node) name) data e w = (Inr r, w')"
    by (auto simp: MakeChildWithData_def split: if_splits)
  show ?thesis
    using makeNodeWithData_law [OF m(2) assms(2)] assms(3) m(1) by (auto simp: name_path_def split: sum.splits)
qed

end

text \<open>What is asked of the store where a name is looked up or registered.\<close>

definition store_failed :: "(string, 'w) zk_conn \<Rightarrow> string CEPM \<Rightarrow> command \<Rightarrow> 'w \<Rightarrow> bool" where
  "store_failed Z c cmd w =
     (case cmd of
        Other \<Rightarrow> False
      | PortPlease name \<Rightarrow> \<exists>e w'. GetChild Z (cp_mgr c) (cp_cepmdNode c) name w = (Inr (Inl e), w') \<and> e \<noteq> ErrNoNode
      | Register name port \<Rightarrow> \<exists>e w'. MakeChildWithData Z (cp_mgr c) (cp_cepmdNode c) name
            (Some (DisterlData_Serialize \<lparr>dd_NodeName = name, dd_DisterlPort = port\<rparr>)) True w = (Inr (Inl e), w'))"

lemma command_of_eq:
  assumes "line = Some l" and "split_at CHR '' '' (trim l) = parts"
  shows "hd parts = ''REGISTER'' \<Longrightarrow> \<not> length parts < 3 \<Longrightarrow>
      command_of line = (case Atoi (parts ! 2) of None \<Rightarrow> Other | Some p \<Rightarrow> Register (parts ! 1) p)"
    and "hd parts = ''PORT_PLEASE'' \<Longrightarrow> \<not> length parts < 2 \<Longrightarrow> command_of line = PortPlease (parts ! 1)"
    and "hd parts \<noteq> ''REGISTER'' \<Longrightarrow> hd parts \<noteq> ''PORT_PLEASE'' \<Longrightarrow> command_of line = Other"
  unfolding command_of_def assms(1) option.case assms(2) by (auto split: list.splits option.splits)


lemma register_refines:
  assumes "zookeeper Z tree" and "create_law Z tree True" and "slash_free (zn_ns (cp_cepmdNode c))"
    and "handle_register Z c (cmd # name # port_text # more_args) w = (Inr (ws, reg), w')"
    and "Atoi port_text = Some port" and "directory (tree w) (zn_ns (cp_cepmdNode c)) name = None"
  shows "directory_step (store_failed Z c (Register name port) w) (Register name port)
    (directory (tree w) (zn_ns (cp_cepmdNode c))) ws (directory (tree w') (zn_ns (cp_cepmdNode c)))"
proof -
  let ?data = "Some (DisterlData_Serialize \<lparr>dd_NodeName = name, dd_DisterlPort = port\<rparr>)"
  from assms(4,5) obtain r where m: "MakeChildWithData Z (cp_mgr c) (cp_cepmdNode c) name ?data True w = (Inr r, w')"
    and ws: "ws = (case r of Inl _ \<Rightarrow> [''ERROR'' @ newline] | Inr _ \<Rightarrow> [''OK'' @ newline])"
    by (auto simp: handle_register_def bind_io_def Let_def split: prod.splits sum.splits)
  from m have s: "CHR ''/'' \<notin> set name" by (auto simp: MakeChildWithData_def split: if_splits)
  with assms(6) have "tree w (name_path (zn_ns (cp_cepmdNode c)) name) = None" by (simp add: directory_def)
  from zookeeper.MakeChildWithData_tree [OF assms(1) m assms(2) this] show ?thesis
    using m ws s by (auto simp: directory_upd [OF assms(3) s] store_failed_def split: sum.splits)
qed

lemma port_please_refines:
  assumes "zookeeper Z tree" and "handle_port_please Z c (cmd # name # more_args) w = (Inr (ws, reg), w')"
  shows "directory_step (store_failed Z c (PortPlease name) w) (PortPlease name)
    (directory (tree w) (zn_ns (cp_cepmdNode c))) ws (directory (tree w') (zn_ns (cp_cepmdNode c)))"
proof -
  from assms(2) obtain r where g: "GetChild Z (cp_mgr c) (cp_cepmdNode c) name w = (Inr r, w')"
    and ws: "ws = (case r of Inl _ \<Rightarrow> [''NOTFOUND'' @ newline] | Inr child \<Rightarrow> [fmt_d (sint (port_of (zn_data child))) @ newline])"
    by (auto simp: handle_port_please_def bind_io_def Let_def port_of_def GetData_def split: prod.splits sum.splits)
  from zookeeper.GetChild_tree [OF assms(1) g] g ws show ?thesis
    by (auto simp: directory_def answer_def store_failed_def split: sum.splits)
qed


lemma mem_create_law: "create_law mem_zk mem_tree e"
  by (auto simp: create_law_def mem_zk_def mem_call_def mem_tree_def fun_eq_iff split: list.splits option.splits if_splits)

definition ex_mapper :: "string CEPM" where
  "ex_mapper = \<lparr>cp_mgr = ex_mgr, cp_cepmdNode = \<lparr>zn_stat = Some 0, zn_data = None, zn_ns = makeSubSpace (mgr_namespace ex_mgr) ''cepmd''\<rparr>,
     cp_addr = ''127.0.0.1:4370'', cp_hostname = ''host''\<rparr>"

definition no_nodes :: "string mem_world" where
  "no_nodes = \<lparr>mw_nodes = fmempty, mw_faults = [], mw_conn = True\<rparr>"

lemma ex_mapper_ns: "slash_free (zn_ns (cp_cepmdNode ex_mapper))"
  by (simp add: ex_mapper_def mgr_namespace_def makeSubSpace_def ex_mgr_def)


text \<open>
  A line with too few words ends the process: the words are taken from the line before anything is checked. A
  client that connects and sends the one word REGISTER or PORT_PLEASE stops the mapper, and with it the executor it runs in.
\<close>

theorem short_line_panics:
  assumes "split_at CHR '' '' (trim l) = cmd # args" and "cmd = ''REGISTER'' \<and> length args < 2 \<or> cmd = ''PORT_PLEASE'' \<and> args = []"
  shows "handleConn Z c (Some l) w = (Inl IndexOutOfRange, w)"
  using assms by (auto simp: handleConn_def handle_register_def handle_port_please_def)

text \<open>
  A registration is undone by the end of an older connection: when a node registers again before the end of its first
  connection has been noticed, the node of the store that is deleted then is the one of the second registration.
\<close>

theorem stale_disconnect_unregisters:
  "map_option (map_sum id fst) (fst (acceptLoop 11 mem_zk mem_delete ex_mapper
      [Accept (Some (''REGISTER riak-1 31'' @ newline)), Accept (Some (''REGISTER riak-1 32'' @ newline)), Disconnect 0,
       Accept (Some (''PORT_PLEASE riak-1'' @ newline))] [] no_nodes)) =
   Some (Inr [[''OK'' @ newline], [''OK'' @ newline], [], [''NOTFOUND'' @ newline]])"
  by code_simp

end
