(* ===== verification/Process_Manager.thy ===== *)
theory Process_Manager
  imports Go_Prelude
begin

text \<open>
  \<^verbatim>\<open>process_manager\<close>: the goroutine that starts Riak, waits until it is healthy, watches it and tears it
  down, and the reaper that tells it about the end of its process. Each \<^verbatim>\<open>select\<close> of the source takes one of
  the cases that are ready; which one is an argument here. What a goroutine does to the outside is
  recorded in its order.
\<close>

section \<open>The manager\<close>

text \<open>
  A channel is a number. A subscriber's channel buffers one status; the manager's own channels are closed
  when it has ended.
\<close>

datatype Action =
    Notify nat int
  | SendSignal int
  | Teardown_callback
  | Reply nat

record ProcessManager =
  pm_subscriptions :: "nat list"
  pm_buffer :: "nat \<Rightarrow> int option"
  pm_log :: "Action list"

text \<open>
  What the process does while it is killed: whether it exists when the manager looks, whether its end is
  reported within five seconds, and whether it is reported at all.
\<close>

record KillEnv =
  ke_alive :: bool
  ke_prompt :: bool
  ke_reported :: bool

definition SIGTERM :: int where "SIGTERM = 15"
definition SIGKILL :: int where "SIGKILL = 9"

definition did :: "Action \<Rightarrow> ProcessManager \<Rightarrow> ProcessManager" where
  "did a pm = pm\<lparr>pm_log := pm_log pm @ [a]\<rparr>"

text \<open>\<open>None\<close>: the manager waits for ever for the report.\<close>

definition killProcess :: "KillEnv \<Rightarrow> ProcessManager \<Rightarrow> ProcessManager option" where
  "killProcess k pm =
     (if \<not> ke_alive k then Some pm
      else let pm1 = did (SendSignal SIGTERM) pm
           in if ke_prompt k then Some pm1
              else let pm2 = did (SendSignal SIGKILL) pm1
                   in if ke_reported k then Some pm2 else None)"

fun notify :: "int \<Rightarrow> nat list \<Rightarrow> ProcessManager \<Rightarrow> ProcessManager" where
  "notify status [] pm = pm"
| "notify status (sub # subs) pm =
     notify status subs
       (if pm_buffer pm sub = None
        then (did (Notify sub status) pm)\<lparr>pm_buffer := (pm_buffer pm)(sub := Some status)\<rparr>
        else pm)"

datatype Event =
    OnSubscribe nat
  | OnSignal
  | OnExit int
  | OnTeardown nat

text \<open>How an iteration of a loop ends: it goes on, the goroutine has returned, or it waits for ever.\<close>

datatype 's loop = Again 's | Return 's | Stuck

definition returning :: "ProcessManager option \<Rightarrow> (ProcessManager \<Rightarrow> ProcessManager) \<Rightarrow> ProcessManager loop" where
  "returning r f = (case r of None \<Rightarrow> Stuck | Some pm \<Rightarrow> Return (f pm))"

definition subscribed :: "nat \<Rightarrow> ProcessManager \<Rightarrow> ProcessManager" where
  "subscribed sub pm = pm\<lparr>pm_subscriptions := pm_subscriptions pm @ [sub]\<rparr>"

definition background_select :: "Event \<Rightarrow> KillEnv \<Rightarrow> ProcessManager \<Rightarrow> ProcessManager loop" where
  "background_select e k pm =
     (case e of
        OnExit status \<Rightarrow>
          returning (killProcess k (did Teardown_callback (notify status (pm_subscriptions pm) pm))) (\<lambda>p. p)
      | OnSignal \<Rightarrow>
          returning (killProcess k (did Teardown_callback (notify (- 1) (pm_subscriptions pm) pm))) (\<lambda>p. p)
      | OnTeardown reply \<Rightarrow>
          returning (killProcess k (notify (- 1) (pm_subscriptions pm) pm))
            (\<lambda>p. did (Reply reply) (did Teardown_callback p))
      | OnSubscribe sub \<Rightarrow> Again (subscribed sub pm))"

fun background :: "(Event \<times> KillEnv) list \<Rightarrow> ProcessManager \<Rightarrow> ProcessManager loop" where
  "background [] pm = Again pm"
| "background ((e, k) # es) pm =
     (case background_select e k pm of
        Again pm' \<Rightarrow> background es pm'
      | Return pm' \<Rightarrow> Return pm'
      | Stuck \<Rightarrow> Stuck)"

text \<open>
  The start: at most sixty selections, one of whose cases is that a second has passed, after which the
  health is checked. \<open>After None\<close> is a check that returned no error. A manager that is healthy is sent to the
  caller and goes to the background; otherwise the caller gets \<open>nil\<close>.
\<close>

datatype Select = Case Event | After "string option"

datatype start_result = Healthy ProcessManager | Failed ProcessManager | StartStuck

definition start_select :: "Event \<Rightarrow> KillEnv \<Rightarrow> ProcessManager \<Rightarrow> ProcessManager loop" where
  "start_select e k pm =
     (case e of
        OnSubscribe sub \<Rightarrow> Again (subscribed sub pm)
      | OnSignal \<Rightarrow> returning (killProcess k (notify (- 1) (pm_subscriptions pm) pm)) (did Teardown_callback)
      | OnExit status \<Rightarrow>
          returning (killProcess k (did Teardown_callback (notify status (pm_subscriptions pm) pm))) (\<lambda>p. p)
      | OnTeardown reply \<Rightarrow>
          returning (killProcess k (notify (- 1) (pm_subscriptions pm) pm))
            (\<lambda>p. did (Reply reply) (did Teardown_callback p)))"

fun start_loop :: "(nat \<Rightarrow> Select \<times> KillEnv) \<Rightarrow> KillEnv \<Rightarrow> nat \<Rightarrow> nat \<Rightarrow> ProcessManager \<Rightarrow> start_result" where
  "start_loop sel late i 0 pm = (case killProcess late pm of None \<Rightarrow> StartStuck | Some pm' \<Rightarrow> Failed pm')"
| "start_loop sel late i (Suc n) pm =
     (case sel i of
        (After None, _) \<Rightarrow> Healthy pm
      | (After (Some err), _) \<Rightarrow> start_loop sel late (i + 1) n pm
      | (Case e, k) \<Rightarrow>
          (case start_select e k pm of
             Again pm' \<Rightarrow> start_loop sel late (i + 1) n pm'
           | Return pm' \<Rightarrow> Failed pm'
           | Stuck \<Rightarrow> StartStuck))"

definition new_manager :: ProcessManager where
  "new_manager = \<lparr>pm_subscriptions = [], pm_buffer = (\<lambda>_. None), pm_log = []\<rparr>"

text \<open>
  \<open>sel\<close> is what the selections of the start take and \<open>late\<close> what the process does when it is killed because
  it has not become healthy in time.
\<close>

definition startProcessManager :: "(nat \<Rightarrow> Select \<times> KillEnv) \<Rightarrow> KillEnv \<Rightarrow> start_result" where
  "startProcessManager sel late = start_loop sel late 0 60 new_manager"

text \<open>The result and the error; \<open>None\<close> when the call never returns.\<close>

definition NewProcessManager ::
  "(nat \<Rightarrow> Select \<times> KillEnv) \<Rightarrow> KillEnv \<Rightarrow> (ProcessManager option \<times> string option) option" where
  "NewProcessManager sel late =
     (case startProcessManager sel late of
        Healthy pm \<Rightarrow> Some (Some pm, None)
      | Failed _ \<Rightarrow> Some (None, Some ''Unknown Error'')
      | StartStuck \<Rightarrow> None)"

text \<open>
  \<^verbatim>\<open>Listen\<close> and \<^verbatim>\<open>TearDown\<close> send on a channel of the manager, which is closed once the goroutine has returned:
  sending on it is a panic of the Go run time. While the goroutine runs the message is queued.
\<close>

definition send_to_manager :: "ProcessManager loop \<Rightarrow> Event \<Rightarrow> Event result" where
  "send_to_manager s e = (case s of Return _ \<Rightarrow> Inl (LogPanic ''send on closed channel'') | _ \<Rightarrow> Inr e)"

definition Listen :: "ProcessManager loop \<Rightarrow> nat \<Rightarrow> Event result" where
  "Listen s sub = send_to_manager s (OnSubscribe sub)"

definition TearDown :: "ProcessManager loop \<Rightarrow> nat \<Rightarrow> Event result" where
  "TearDown s reply = send_to_manager s (OnTeardown reply)"

section \<open>What the manager does\<close>

text \<open>The signals a process is sent that behaves as given.\<close>

definition kill_signals :: "KillEnv \<Rightarrow> Action list" where
  "kill_signals k =
     (if \<not> ke_alive k then [] else if ke_prompt k then [SendSignal SIGTERM] else [SendSignal SIGTERM, SendSignal SIGKILL])"

definition stuck_env :: "KillEnv \<Rightarrow> bool" where
  "stuck_env k \<longleftrightarrow> ke_alive k \<and> \<not> ke_prompt k \<and> \<not> ke_reported k"

lemma killProcess_eq:
  "killProcess k pm = (if stuck_env k then None else Some (pm\<lparr>pm_log := pm_log pm @ kill_signals k\<rparr>))"
  by (simp add: killProcess_def kill_signals_def stuck_env_def did_def Let_def)

lemma did_simps [simp]:
  "pm_subscriptions (did a pm) = pm_subscriptions pm" "pm_buffer (did a pm) = pm_buffer pm"
  "pm_log (did a pm) = pm_log pm @ [a]"
  by (simp_all add: did_def)

lemma notify_fresh:
  assumes "distinct subs" and "\<forall>s \<in> set subs. pm_buffer pm s = None"
  shows "notify status subs pm =
    pm\<lparr>pm_buffer := (\<lambda>s. if s \<in> set subs then Some status else pm_buffer pm s),
       pm_log := pm_log pm @ map (\<lambda>s. Notify s status) subs\<rparr>"
  using assms
proof (induction subs arbitrary: pm)
  case (Cons s subs)
  let ?pm = "(did (Notify s status) pm)\<lparr>pm_buffer := (pm_buffer pm)(s := Some status)\<rparr>"
  have "\<forall>t \<in> set subs. pm_buffer ?pm t = None" using Cons.prems by auto
  with Cons.IH [of ?pm] Cons.prems show ?case by (simp add: did_def fun_eq_iff)
qed simp

text \<open>The cases that end the manager, the status they report and what is done after the reports.\<close>

fun ends :: "Event \<Rightarrow> bool" where
  "ends (OnSubscribe _) = False"
| "ends _ = True"

fun reported_status :: "Event \<Rightarrow> int" where
  "reported_status (OnExit status) = status"
| "reported_status _ = - 1"

fun farewell :: "Event \<Rightarrow> KillEnv \<Rightarrow> Action list" where
  "farewell (OnTeardown reply) k = kill_signals k @ [Teardown_callback, Reply reply]"
| "farewell _ k = Teardown_callback # kill_signals k"

definition new_subs :: "(Event \<times> KillEnv) list \<Rightarrow> nat list" where
  "new_subs es = concat (map (\<lambda>(e, k). case e of OnSubscribe s \<Rightarrow> [s] | _ \<Rightarrow> []) es)"

lemma new_subs_simps [simp]:
  "new_subs [] = []" "new_subs ((OnSubscribe s, k) # es) = s # new_subs es"
  by (simp_all add: new_subs_def)

lemma new_subs_append: "new_subs (xs @ ys) = new_subs xs @ new_subs ys"
  by (simp add: new_subs_def)

definition fresh_subs :: "nat list \<Rightarrow> ProcessManager \<Rightarrow> bool" where
  "fresh_subs subs pm \<longleftrightarrow> distinct subs \<and> (\<forall>s \<in> set subs. pm_buffer pm s = None)"

lemma background_split:
  assumes "\<forall>pm'. background es pm \<noteq> Again pm'"
  obtains es1 e k es2 where "es = es1 @ (e, k) # es2" "\<forall>x \<in> set es1. \<not> ends (fst x)" "ends e"
    "background es pm = background_select e k (pm\<lparr>pm_subscriptions := pm_subscriptions pm @ new_subs es1\<rparr>)"
proof -
  have "\<exists>es1 e k es2. es = es1 @ (e, k) # es2 \<and> (\<forall>x \<in> set es1. \<not> ends (fst x)) \<and> ends e \<and>
    background es pm = background_select e k (pm\<lparr>pm_subscriptions := pm_subscriptions pm @ new_subs es1\<rparr>)"
    using assms
  proof (induction es arbitrary: pm)
    case Nil
    then show ?case by simp
  next
    case (Cons x es)
    obtain e k where x: "x = (e, k)" by force
    show ?case
    proof (cases "ends e")
      case True
      then have "background (x # es) pm = background_select e k pm"
        by (cases e) (auto simp: x background_select_def returning_def split: option.splits)
      with True show ?thesis
        by (intro exI [of _ "[]"] exI [of _ e] exI [of _ k] exI [of _ es]) (simp add: x)
    next
      case False
      then obtain s where s: "e = OnSubscribe s" by (cases e) simp_all
      then have b: "background (x # es) pm = background es (subscribed s pm)"
        by (simp add: x background_select_def)
      with Cons obtain es1 e' k' es2 where i: "es = es1 @ (e', k') # es2" "\<forall>x \<in> set es1. \<not> ends (fst x)" "ends e'"
        "background es (subscribed s pm) = background_select e' k'
          ((subscribed s pm)\<lparr>pm_subscriptions := pm_subscriptions (subscribed s pm) @ new_subs es1\<rparr>)" by metis
      with b s show ?thesis
        by (intro exI [of _ "x # es1"] exI [of _ e'] exI [of _ k'] exI [of _ es2]) (simp add: x subscribed_def)
    qed
  qed
  with that show thesis by blast
qed

lemma background_select_ends:
  assumes "ends e" and "fresh_subs (pm_subscriptions pm) pm"
  shows "background_select e k pm =
    (if stuck_env k then Stuck
     else Return (pm\<lparr>pm_buffer := (\<lambda>s. if s \<in> set (pm_subscriptions pm) then Some (reported_status e) else pm_buffer pm s),
        pm_log := pm_log pm @ map (\<lambda>s. Notify s (reported_status e)) (pm_subscriptions pm) @ farewell e k\<rparr>))"
proof -
  from assms(2) have d: "distinct (pm_subscriptions pm)" "\<forall>s \<in> set (pm_subscriptions pm). pm_buffer pm s = None"
    by (simp_all add: fresh_subs_def)
  show ?thesis
    using assms(1) by (cases e) (simp_all add: background_select_def notify_fresh [OF d] killProcess_eq returning_def did_def cong: if_cong)
qed

text \<open>The start: nothing is done to a process that becomes healthy, and nobody can have subscribed to it yet.\<close>

definition quiet :: "Select \<Rightarrow> bool" where
  "quiet s \<longleftrightarrow> (case s of After err \<Rightarrow> err \<noteq> None | Case e \<Rightarrow> \<not> ends e)"

lemma start_loop_Healthy:
  "start_loop sel late i n pm = Healthy pm' \<Longrightarrow>
    \<exists>j. i \<le> j \<and> j < i + n \<and> fst (sel j) = After None \<and> (\<forall>l. i \<le> l \<and> l < j \<longrightarrow> quiet (fst (sel l))) \<and>
      pm_log pm' = pm_log pm \<and> pm_buffer pm' = pm_buffer pm"
proof (induction n arbitrary: i pm)
  case (Suc n)
  obtain s k where sel: "sel i = (s, k)" by force
  show ?case
  proof (cases "s = After None")
    case True
    with Suc.prems sel show ?thesis by (intro exI [of _ i]) auto
  next
    case False
    have "\<exists>pm1. start_loop sel late (i + 1) n pm1 = Healthy pm' \<and> pm_log pm1 = pm_log pm \<and> pm_buffer pm1 = pm_buffer pm \<and> quiet s"
    proof (cases s)
      case (Case e)
      with Suc.prems sel show ?thesis
        by (cases e) (auto simp: start_select_def returning_def subscribed_def quiet_def split: option.splits)
    next
      case (After err)
      with False Suc.prems sel show ?thesis by (cases err) (auto simp: quiet_def)
    qed
    then obtain pm1 where pm1: "start_loop sel late (i + 1) n pm1 = Healthy pm'" "pm_log pm1 = pm_log pm"
      "pm_buffer pm1 = pm_buffer pm" "quiet s" by blast
    from Suc.IH [OF pm1(1)] obtain j where "i + 1 \<le> j" "j < i + 1 + n" "fst (sel j) = After None"
      "\<forall>l. i + 1 \<le> l \<and> l < j \<longrightarrow> quiet (fst (sel l))" "pm_log pm' = pm_log pm1" "pm_buffer pm' = pm_buffer pm1" by blast
    with pm1 sel show ?thesis
      by (intro exI [of _ j]) (auto, metis Suc_leI fst_conv le_neq_implies_less)
  qed
qed (simp split: option.splits)

lemma start_loop_returns:
  "\<forall>j. ke_reported (snd (sel j)) \<Longrightarrow> ke_reported late \<Longrightarrow> start_loop sel late i n pm \<noteq> StartStuck"
proof (induction n arbitrary: i pm)
  case (Suc n)
  obtain s k where sel: "sel i = (s, k)" by force
  with Suc.prems(1) have k: "\<not> stuck_env k" by (metis snd_conv stuck_env_def)
  show ?case
  proof (cases s)
    case (Case e)
    with Suc sel k show ?thesis by (cases e) (simp_all add: start_select_def returning_def killProcess_eq)
  next
    case (After err)
    with Suc sel show ?thesis by (cases err) simp_all
  qed
qed (simp add: killProcess_eq stuck_env_def)

text \<open>
  When the start fails without a subscriber the process has been dealt with: the log ends with the
  signals its behaviour called for.
\<close>

definition no_signal :: "Action list \<Rightarrow> bool" where
  "no_signal = list_all (\<lambda>a. case a of SendSignal _ \<Rightarrow> False | _ \<Rightarrow> True)"

lemma no_signal_simps [simp]:
  "no_signal []" "no_signal (xs @ ys) \<longleftrightarrow> no_signal xs \<and> no_signal ys"
  "no_signal (a # xs) \<longleftrightarrow> (case a of SendSignal _ \<Rightarrow> False | _ \<Rightarrow> True) \<and> no_signal xs"
  by (simp_all add: no_signal_def)

definition put_down :: "KillEnv \<Rightarrow> Action list \<Rightarrow> bool" where
  "put_down k acts \<longleftrightarrow> \<not> stuck_env k \<and> (\<exists>xs ys. acts = xs @ kill_signals k @ ys \<and> no_signal (xs @ ys))"

lemma put_down_log:
  "\<not> stuck_env k \<Longrightarrow> no_signal (xs @ ys) \<Longrightarrow> put_down k (xs @ kill_signals k @ ys)"
  unfolding put_down_def by blast

lemma notify_no_signal:
  "no_signal (pm_log pm) \<Longrightarrow> no_signal (pm_log (notify st subs pm))"
  by (induction st subs pm rule: notify.induct) (auto simp: did_def)

lemma start_select_put_down:
  assumes "start_select e k pm = Return pm'" and "no_signal (pm_log pm)"
  shows "put_down k (pm_log pm')"
proof -
  have n: "no_signal (pm_log (notify st subs pm))" for st subs
    using assms(2) by (rule notify_no_signal)
  have k: "\<not> stuck_env k" using assms(1) by (cases e) (auto simp: start_select_def returning_def killProcess_eq split: if_splits)
  show ?thesis
  proof (cases e)
    case OnSignal
    with assms(1) k have "pm_log pm' = pm_log (notify (- 1) (pm_subscriptions pm) pm) @ kill_signals k @ [Teardown_callback]"
      by (auto simp: start_select_def returning_def killProcess_eq)
    with put_down_log [OF k, of "pm_log (notify (- 1) (pm_subscriptions pm) pm)" "[Teardown_callback]"] n show ?thesis by simp
  next
    case (OnExit status)
    with assms(1) k have "pm_log pm' = (pm_log (notify status (pm_subscriptions pm) pm) @ [Teardown_callback]) @ kill_signals k @ []"
      by (auto simp: start_select_def returning_def killProcess_eq)
    with put_down_log [OF k, of "pm_log (notify status (pm_subscriptions pm) pm) @ [Teardown_callback]" "[]"] n show ?thesis by simp
  next
    case (OnTeardown r)
    with assms(1) k have "pm_log pm' = pm_log (notify (- 1) (pm_subscriptions pm) pm) @ kill_signals k @ [Teardown_callback, Reply r]"
      by (auto simp: start_select_def returning_def killProcess_eq)
    with put_down_log [OF k, of "pm_log (notify (- 1) (pm_subscriptions pm) pm)" "[Teardown_callback, Reply r]"] n
    show ?thesis by simp
  qed (use assms(1) in \<open>simp add: start_select_def\<close>)
qed

lemma start_loop_Failed:
  assumes "start_loop sel late i n pm = Failed pm'" and "no_signal (pm_log pm)"
  shows "\<exists>k. k \<in> insert late (snd ` range sel) \<and> put_down k (pm_log pm')"
  using assms
proof (induction n arbitrary: i pm)
  case 0
  then have "\<not> stuck_env late" "pm_log pm' = pm_log pm @ kill_signals late @ []"
    by (auto simp: killProcess_eq split: if_splits)
  with 0(2) put_down_log [of late "pm_log pm" "[]"] show ?case by auto
next
  case (Suc n)
  obtain s k where sel: "sel i = (s, k)" by force
  then have k: "k \<in> snd ` range sel" by (metis rangeI imageI snd_conv)
  show ?case
  proof (cases s)
    case (After err)
    with Suc sel show ?thesis by (cases err) auto
  next
    case (Case e)
    show ?thesis
    proof (cases "start_select e k pm")
      case (Again pm1)
      then have "pm_log pm1 = pm_log pm" by (cases e) (auto simp: start_select_def returning_def subscribed_def split: option.splits)
      with Suc.IH [of "i + 1" pm1] Suc.prems sel Case Again show ?thesis by simp
    next
      case (Return pm1)
      with Suc.prems sel Case start_select_put_down [OF Return] k show ?thesis by auto
    qed (use Suc.prems sel Case in simp)
  qed
qed


definition ex_kill :: KillEnv where
  "ex_kill = \<lparr>ke_alive = True, ke_prompt = False, ke_reported = True\<rparr>"


text \<open>
  C15: When the manager of a running process ends, because the process did, at a signal or because it is
  torn down, each subscriber so far has been told exactly once, the exit status or -1, before anything
  else; then the process is ended, if it exists, by SIGTERM and after five seconds by SIGKILL, the callback
  is called once, and a caller that asked for the end is answered last.
\<close>

theorem background_ends:
  assumes "fresh_subs (pm_subscriptions pm @ new_subs es) pm" and "background es pm = Return pm'"
  shows "\<exists>es1 e k es2. es = es1 @ (e, k) # es2 \<and> ends e \<and> (\<forall>x \<in> set es1. \<not> ends (fst x)) \<and> \<not> stuck_env k \<and>
    pm_log pm' = pm_log pm @ map (\<lambda>s. Notify s (reported_status e)) (pm_subscriptions pm @ new_subs es1) @ farewell e k \<and>
    (\<forall>s \<in> set (pm_subscriptions pm @ new_subs es1). pm_buffer pm' s = Some (reported_status e))"
proof -
  have "\<forall>pm'. background es pm \<noteq> Again pm'" using assms(2) by simp
  then obtain es1 e k es2 where s: "es = es1 @ (e, k) # es2" "\<forall>x \<in> set es1. \<not> ends (fst x)" "ends e"
    "background es pm = background_select e k (pm\<lparr>pm_subscriptions := pm_subscriptions pm @ new_subs es1\<rparr>)"
    by (rule background_split)
  let ?pm = "pm\<lparr>pm_subscriptions := pm_subscriptions pm @ new_subs es1\<rparr>"
  have "fresh_subs (pm_subscriptions ?pm) ?pm"
    using assms(1) unfolding s(1) new_subs_append by (simp add: fresh_subs_def ball_Un Int_Un_distrib)
  from background_select_ends [OF s(3) this, of k] s(4) assms(2) have "\<not> stuck_env k"
    "pm_log pm' = pm_log pm @ map (\<lambda>s. Notify s (reported_status e)) (pm_subscriptions pm @ new_subs es1) @ farewell e k"
    "\<forall>s \<in> set (pm_subscriptions pm @ new_subs es1). pm_buffer pm' s = Some (reported_status e)"
    by (auto split: if_splits)
  with s(1-3) show ?thesis by blast
qed

theorem background_ends_witness:
  "fresh_subs (pm_subscriptions new_manager @ new_subs [(OnSubscribe 1, ex_kill), (OnTeardown 2, ex_kill)]) new_manager \<and>
   (\<exists>pm'. background [(OnSubscribe 1, ex_kill), (OnTeardown 2, ex_kill)] new_manager = Return pm' \<and>
      pm_log pm' = [Notify 1 (- 1), SendSignal SIGTERM, SendSignal SIGKILL, Teardown_callback, Reply 2])"
proof -
  let ?es = "[(OnSubscribe 1, ex_kill), (OnTeardown 2, ex_kill)]"
  have f: "fresh_subs (pm_subscriptions new_manager @ new_subs ?es) new_manager"
    by (simp add: fresh_subs_def new_manager_def new_subs_def)
  have "\<exists>pm'. background ?es new_manager = Return pm' \<and>
      pm_log pm' = [Notify 1 (- 1), SendSignal SIGTERM, SendSignal SIGKILL, Teardown_callback, Reply 2]"
    by (simp add: background_select_def returning_def killProcess_eq stuck_env_def kill_signals_def ex_kill_def
        subscribed_def new_manager_def)
  then obtain pm' where b: "background ?es new_manager = Return pm'"
    "pm_log pm' = [Notify 1 (- 1), SendSignal SIGTERM, SendSignal SIGKILL, Teardown_callback, Reply 2]" by blast
  from background_ends [OF f b(1)] f b show ?thesis by blast
qed

end
