(* ===== verification/Executor.thy ===== *)
theory Executor
  imports Cepmd Process_Manager Explorer_Client
begin

text \<open>
  The executor, \<^verbatim>\<open>executor/executor.go\<close> and \<^verbatim>\<open>executor/node.go\<close>: the process beside each Riak node that
  configures and starts it, reports the state of its task and stops it. A call returns, panics or waits
  for ever; every call of the driver goes through one lock, which a call that waits for ever keeps.
\<close>

section \<open>State\<close>

datatype 'a outcome = Returns 'a | Panics panic | Blocks

text \<open>
  What the executor tells the slave: the state of a task, with the port of the Riak Explorer, or with the
  bytes of a generation.
\<close>

datatype UpdateData = NoData | Encoded string | Bytes "nat list"

record StatusUpdate_msg =
  su_TaskId :: string
  su_State :: TaskState
  su_Data :: UpdateData

text \<open>
  The node. Its \<open>finishChan\<close> is declared but never made, and so always the nil channel, on which a send
  and a receive wait for ever; it has no field here. The manager is the state of its goroutine.
\<close>

record RiakNode =
  rn_TaskId :: string
  rn_generation :: uint64
  rn_running :: bool
  rn_taskData :: TaskData
  rn_mgr :: MetadataManager
  rn_pm :: "ProcessManager loop option"
  rn_killStatus :: StatusUpdate_msg

text \<open>
  The executor, with what it has done: the updates it sent, the files it wrote, and whether it stopped
  the driver.
\<close>

record ExecutorCore =
  ec_locked :: bool
  ec_riakNode :: "RiakNode option"
  ec_Driver :: bool
  ec_updates :: "StatusUpdate_msg list"
  ec_files :: "string \<rightharpoonup> string"
  ec_stopped :: bool

definition newExecutor :: ExecutorCore where
  "newExecutor = \<lparr>ec_locked = False, ec_riakNode = None, ec_Driver = False, ec_updates = [], ec_files = Map.empty,
     ec_stopped = False\<rparr>"

type_synonym ('a, 'w) exec = "ExecutorCore \<Rightarrow> 'w \<Rightarrow> 'a outcome \<times> ExecutorCore \<times> 'w"

definition bind_e :: "('a, 'w) exec \<Rightarrow> ('a \<Rightarrow> ('b, 'w) exec) \<Rightarrow> ('b, 'w) exec" where
  "bind_e m f ex w =
     (case m ex w of
        (Returns x, ex1, w1) \<Rightarrow> f x ex1 w1
      | (Panics p, ex1, w1) \<Rightarrow> (Panics p, ex1, w1)
      | (Blocks, ex1, w1) \<Rightarrow> (Blocks, ex1, w1))"

definition return_e :: "'a \<Rightarrow> ('a, 'w) exec" where
  "return_e x ex w = (Returns x, ex, w)"

definition panic_e :: "panic \<Rightarrow> ('a, 'w) exec" where
  "panic_e p ex w = (Panics p, ex, w)"

definition update_e :: "(ExecutorCore \<Rightarrow> ExecutorCore) \<Rightarrow> (unit, 'w) exec" where
  "update_e f ex w = (Returns (), f ex, w)"

text \<open>An operation of the metadata manager.\<close>

definition zk_e :: "('a, 'w) io \<Rightarrow> ('a, 'w) exec" where
  "zk_e m ex w = (case m w of (Inl p, w1) \<Rightarrow> (Panics p, ex, w1) | (Inr x, w1) \<Rightarrow> (Returns x, ex, w1))"

definition result_e :: "'a result \<Rightarrow> ('a, 'w) exec" where
  "result_e r ex w = (case r of Inl p \<Rightarrow> (Panics p, ex, w) | Inr x \<Rightarrow> (Returns x, ex, w))"

text \<open>A callback under the lock: the deferred unlock runs at a return and at a panic.\<close>

definition with_lock :: "('a, 'w) exec \<Rightarrow> ('a, 'w) exec" where
  "with_lock m ex w =
     (if ec_locked ex then (Blocks, ex, w)
      else case m (ex\<lparr>ec_locked := True\<rparr>) w of
             (Returns x, ex1, w1) \<Rightarrow> (Returns x, ex1\<lparr>ec_locked := False\<rparr>, w1)
           | (Panics p, ex1, w1) \<Rightarrow> (Panics p, ex1\<lparr>ec_locked := False\<rparr>, w1)
           | (Blocks, ex1, w1) \<Rightarrow> (Blocks, ex1, w1))"

text \<open>
  Sending an update, \<open>send\<close> being the driver's answer. Callbacks use the driver they are called with, the
  node the one the executor remembers, which is nil until the executor has been given one.
\<close>

definition send_update :: "(StatusUpdate_msg \<Rightarrow> string option) \<Rightarrow> StatusUpdate_msg \<Rightarrow> (unit, 'w) exec" where
  "send_update send u ex w =
     (let ex1 = ex\<lparr>ec_updates := ec_updates ex @ [u]\<rparr>
      in case send u of None \<Rightarrow> (Returns (), ex1, w) | Some err \<Rightarrow> (Panics (LogPanic ''Got error''), ex1, w))"

definition node_send :: "(StatusUpdate_msg \<Rightarrow> string option) \<Rightarrow> StatusUpdate_msg \<Rightarrow> (unit, 'w) exec" where
  "node_send send u ex w = (if ec_Driver ex then send_update send u ex w else (Panics NilDereference, ex, w))"

definition plain_status :: "string \<Rightarrow> TaskState \<Rightarrow> StatusUpdate_msg" where
  "plain_status task st = \<lparr>su_TaskId = task, su_State = st, su_Data = NoData\<rparr>"

definition set_node :: "(RiakNode \<Rightarrow> RiakNode) \<Rightarrow> ExecutorCore \<Rightarrow> ExecutorCore" where
  "set_node f ex = ex\<lparr>ec_riakNode := map_option f (ec_riakNode ex)\<rparr>"

section \<open>Configuring Riak\<close>

record templateData =
  tpl_HTTPPort :: int64
  tpl_PBPort :: int64
  tpl_HandoffPort :: int64
  tpl_FullyQualifiedNodeName :: string
  tpl_DisterlPort :: int64

text \<open>
  The world around a launch: what fetching an address yields and what was
  read of it when reading failed, the template language (\<open>None\<close> when a text is
  no template; what filling it in writes, and whether it came to the end without an error), whether a file can be opened, the address
  the port mapper listens on, the name of the host, what installing the mapper meets, the working directory, and the
  selections of the process manager's start.
\<close>

record LaunchEnv =
  le_get :: transport
  le_partial :: "string \<Rightarrow> string"
  le_template :: "string \<Rightarrow> (templateData \<Rightarrow> string \<times> bool) option"
  le_advanced :: "string \<Rightarrow> (int64 \<Rightarrow> string \<times> bool) option"
  le_open :: "string \<Rightarrow> bool"
  le_listen :: "string option"
  le_hostname :: "string option"
  le_install :: InstallEnv
  le_wd :: "string option"
  le_select :: "nat \<Rightarrow> Select \<times> KillEnv"
  le_late :: KillEnv

text \<open>
  Fetching a configuration. An error of the request is logged and the response, which is nil then,
  used; an error of reading is logged and what was read used; the status of the response is not looked at.
\<close>

definition fetch_config :: "LaunchEnv \<Rightarrow> string \<Rightarrow> string result" where
  "fetch_config E uri =
     (case le_get E uri of
        BadURL e \<Rightarrow> Inl NilDereference
      | TransportError e \<Rightarrow> Inl NilDereference
      | ReadError e \<Rightarrow> Inr (le_partial E uri)
      | Response status body \<Rightarrow> Inr body)"

definition config_uri :: "TaskData \<Rightarrow> string \<Rightarrow> string" where
  "config_uri td what = td_URI td @ ''/api/v1/clusters/'' @ td_ClusterName td @ ''/'' @ what"

text \<open>Filling in a template and writing the file.\<close>

definition write_config ::
  "(string \<Rightarrow> ('v \<Rightarrow> string \<times> bool) option) \<Rightarrow> (string \<Rightarrow> bool) \<Rightarrow> string \<Rightarrow> string \<Rightarrow> 'v \<Rightarrow> (unit, 'w) exec" where
  "write_config template openable config file vars ex w =
     (case template config of
        None \<Rightarrow> (Panics (LogPanic ''template''), ex, w)
      | Some fill \<Rightarrow>
          if \<not> openable file then (Panics (LogPanic ''Unable to open file''), ex, w)
          else let (text, ok) = fill vars
               in (if ok then Returns () else Panics (LogPanic ''Got error''),
                   ex\<lparr>ec_files := (ec_files ex)(file \<mapsto> text)\<rparr>, w))"

definition template_vars :: "TaskData \<Rightarrow> templateData" where
  "template_vars td = \<lparr>tpl_HTTPPort = td_HTTPPort td, tpl_PBPort = td_PBPort td, tpl_HandoffPort = td_HandoffPort td,
     tpl_FullyQualifiedNodeName = td_FullyQualifiedNodeName td, tpl_DisterlPort = td_DisterlPort td\<rparr>"

definition configureRiak :: "LaunchEnv \<Rightarrow> TaskData \<Rightarrow> (templateData, 'w) exec" where
  "configureRiak E td =
     (case fetch_config E (config_uri td ''config'') of
        Inl p \<Rightarrow> panic_e p
      | Inr config \<Rightarrow>
          bind_e (write_config (le_template E) (le_open E) config ''root/riak/etc/riak.conf'' (template_vars td))
            (\<lambda>_. return_e (template_vars td)))"

definition configureAdvanced :: "LaunchEnv \<Rightarrow> TaskData \<Rightarrow> int64 \<Rightarrow> (unit, 'w) exec" where
  "configureAdvanced E td cepmdPort =
     (case fetch_config E (config_uri td ''advancedConfig'') of
        Inl p \<Rightarrow> panic_e p
      | Inr config \<Rightarrow> write_config (le_advanced E) (le_open E) config ''root/riak/etc/advanced.config'' cepmdPort)"

section \<open>The node's data in the store\<close>

definition coordinated_data :: "TaskData \<Rightarrow> templateData \<Rightarrow> CoordinatedData" where
  "coordinated_data td config = \<lparr>cd_FrameworkName = td_FrameworkName td, cd_ClusterName = td_ClusterName td,
     cd_NodeName = td_FullyQualifiedNodeName td, cd_DisterlPort = tpl_DisterlPort config, cd_PBPort = tpl_PBPort config,
     cd_HTTPPort = tpl_HTTPPort config, cd_Hostname = td_Host td\<rparr>"

text \<open>The result of an operation whose error is fatal.\<close>

definition or_panic :: "(zkerr + 'a, 'w) io \<Rightarrow> ('a, 'w) io" where
  "or_panic m = bind_io m (\<lambda>r w. case r of Inl e \<Rightarrow> (Inl (LogPanic ''zk''), w) | Inr x \<Rightarrow> (Inr x, w))"

definition getCoordinatedChild :: "('d, 'w) zk_conn \<Rightarrow> MetadataManager \<Rightarrow> string \<Rightarrow> ('d ZkNode, 'w) io" where
  "getCoordinatedChild Z mgr task =
     bind_io (GetRootNode Z mgr) (\<lambda>root.
     bind_io (CreateChildIfNotExists Z root ''coordinator'') (\<lambda>_.
     bind_io (or_panic (GetChild Z mgr root ''coordinator'')) (\<lambda>coordinator.
     bind_io (CreateChildIfNotExists Z coordinator ''coordinatedNodes'') (\<lambda>_.
     bind_io (or_panic (GetChild Z mgr coordinator ''coordinatedNodes'')) (\<lambda>nodes.
     or_panic (MakeChild Z mgr nodes task True))))))"

definition setCoordinatedData ::
  "(string, 'w) zk_conn \<Rightarrow> MetadataManager \<Rightarrow> TaskData \<Rightarrow> string ZkNode \<Rightarrow> templateData \<Rightarrow> (unit, 'w) io" where
  "setCoordinatedData Z mgr td child config =
     bind_io (SetData Z mgr (Some (CoordinatedData_Serialize (coordinated_data td config))) child) (\<lambda>_ w. (Inr (), w))"

section \<open>Running Riak\<close>

text \<open>
  The health check of the process manager: the content of the console log, \<open>None\<close> when it cannot be read.
  The source looks for the message in the data only when reading has failed, and there is no data then.
\<close>

definition contains_string :: "string \<Rightarrow> string \<Rightarrow> bool" where
  "contains_string s sub \<longleftrightarrow> list_ex (\<lambda>i. take (length sub) (drop i s) = sub) [0..<Suc (length s)]"

definition HealthCheckFun :: "string option \<Rightarrow> string option" where
  "HealthCheckFun console_log =
     (case console_log of
        None \<Rightarrow> if contains_string [] ''Wait complete for service riak_kv'' then None else Some ''Riak KV not yet started''
      | Some data \<Rightarrow> None)"

text \<open>
  The preparations between the configuration and the start. The file of the mapper's port is written when it can be;
  an error of that is not looked at.
\<close>

definition prepare :: "LaunchEnv \<Rightarrow> int64 \<Rightarrow> (unit, 'w) exec" where
  "prepare E port =
     (case in_kernelDirs (le_install E) of
        None \<Rightarrow> panic_e (LogFatal ''Could not find kernel directory'')
      | Some [] \<Rightarrow> panic_e IndexOutOfRange
      | Some (dir # _) \<Rightarrow>
          if InstallInto (in_restoreAssets (le_install E)) (dir @ ''/ebin'') \<noteq> None then panic_e (LogPanic ''InstallInto'')
          else if KillEPMD (in_epmdGlobs (le_install E)) (in_cp (le_install E)) \<noteq> None then panic_e (LogFatal ''Could not kill EPMd'')
          else bind_e (update_e (\<lambda>ex. ex\<lparr>ec_files := write_port_file (le_install E) dir port (ec_files ex)\<rparr>))
                 (\<lambda>_. if le_wd E = None then panic_e (LogPanic ''Could not get wd'') else return_e ()))"

text \<open>
  The mapper's loop runs beside the node from here on. \<open>Run\<close> yields the node of the
  store its loop is started with, or \<open>None\<close> when the process could not be started; a manager that starts up
  takes the checks of its health among the selections.
\<close>

definition start_riak :: "LaunchEnv \<Rightarrow> (ProcessManager option, 'w) exec" where
  "start_riak E ex w =
     (case NewProcessManager (le_select E) (le_late E) of
        None \<Rightarrow> (Blocks, ex, w)
      | Some (pm, err) \<Rightarrow> (Returns pm, ex, w))"

text \<open>What follows the start, with and without a manager.\<close>

definition Node_started ::
  "(string, 'w) zk_conn \<Rightarrow> (StatusUpdate_msg \<Rightarrow> string option) \<Rightarrow> RiakNode \<Rightarrow> templateData
     \<Rightarrow> ProcessManager option \<Rightarrow> (string ZkNode option, 'w) exec" where
  "Node_started Z send rn config started =
     (case started of
        None \<Rightarrow>
          bind_e (node_send send (plain_status (rn_TaskId rn) TASK_FAILED)) (\<lambda>_.
          bind_e (update_e (\<lambda>ex. ex\<lparr>ec_stopped := True\<rparr>)) (\<lambda>_. return_e None))
      | Some pm \<Rightarrow>
          bind_e (update_e (set_node (\<lambda>n. n\<lparr>rn_pm := Some (Again pm)\<rparr>))) (\<lambda>_.
          bind_e (zk_e (getCoordinatedChild Z (rn_mgr rn) (rn_TaskId rn))) (\<lambda>child.
          bind_e (zk_e (setCoordinatedData Z (rn_mgr rn) (rn_taskData rn) child config)) (\<lambda>_.
          bind_e (node_send send \<lparr>su_TaskId = rn_TaskId rn, su_State = TASK_RUNNING,
              su_Data = Encoded (TaskStatusData_Serialize \<lparr>tsd_RexPort = td_HTTPPort (rn_taskData rn)\<rparr>)\<rparr>) (\<lambda>_.
          bind_e (update_e (set_node (\<lambda>n. n\<lparr>rn_running := True\<rparr>))) (\<lambda>_. return_e (Some child)))))))"

definition Node_Run ::
  "(string, 'w) zk_conn \<Rightarrow> (StatusUpdate_msg \<Rightarrow> string option) \<Rightarrow> LaunchEnv
     \<Rightarrow> RiakNode \<Rightarrow> (string ZkNode option, 'w) exec" where
  "Node_Run Z send E rn =
     bind_e (configureRiak E (rn_taskData rn)) (\<lambda>config.
     bind_e (zk_e (NewCPMd Z (le_listen E) (le_hostname E) (rn_mgr rn))) (\<lambda>c.
     bind_e (result_e (GetPort c)) (\<lambda>port.
     bind_e (configureAdvanced E (rn_taskData rn) port) (\<lambda>_.
     bind_e (prepare E port) (\<lambda>_.
     bind_e (start_riak E) (\<lambda>started. Node_started Z send rn config started))))))"

text \<open>
  The node's loop after the manager has told it of the end; its other case receives from the nil channel
  and is never ready. It deletes its node in the store and stops the driver.
\<close>

definition runLoop ::
  "nat \<Rightarrow> ('d, 'w) zk_conn \<Rightarrow> 'w zk_delete \<Rightarrow> (StatusUpdate_msg \<Rightarrow> string option) \<Rightarrow> 'd ZkNode \<Rightarrow> (unit, 'w) exec" where
  "runLoop fuel Z delete send child ex w =
     (case ec_riakNode ex of
        None \<Rightarrow> (Panics NilDereference, ex, w)
      | Some rn \<Rightarrow>
          bind_e (node_send send (rn_killStatus rn)) (\<lambda>_ ex1 w1.
            case Node_Delete fuel Z delete child w1 of
              (None, w2) \<Rightarrow> (Blocks, ex1, w2)
            | (Some (Inl p), w2) \<Rightarrow> (Panics p, ex1, w2)
            | (Some (Inr _), w2) \<Rightarrow> (Returns (), ex1\<lparr>ec_stopped := True\<rparr>, w2)) ex w)"

section \<open>Callbacks\<close>

definition NewRiakNode :: "('d, 'w) zk_conn \<Rightarrow> TaskInfo \<Rightarrow> (RiakNode, 'w) io" where
  "NewRiakNode Z taskInfo =
     (let (td, err) = DeserializeTaskData (ti_Data taskInfo)
      in if err then (\<lambda>w. (Inl (LogPanic ''Got error''), w))
         else bind_io (NewMetadataManager Z (td_FrameworkName td) (td_Zookeepers td)) (\<lambda>mgr w.
         (Inr \<lparr>rn_TaskId = ti_TaskId taskInfo, rn_generation = 0, rn_running = False, rn_taskData = td, rn_mgr = mgr,
           rn_pm = None, rn_killStatus = plain_status (ti_TaskId taskInfo) TASK_FAILED\<rparr>, w)))"

definition Executor_Registered :: "(unit, 'w) exec" where
  "Executor_Registered = with_lock (return_e ())"

definition Executor_Reregistered :: "(unit, 'w) exec" where
  "Executor_Reregistered = with_lock (update_e (\<lambda>ex. ex\<lparr>ec_Driver := True\<rparr>))"

definition LaunchTask ::
  "(string, 'w) zk_conn \<Rightarrow> (StatusUpdate_msg \<Rightarrow> string option) \<Rightarrow> LaunchEnv
     \<Rightarrow> TaskInfo \<Rightarrow> (string ZkNode option, 'w) exec" where
  "LaunchTask Z send E taskInfo = with_lock (
     bind_e (send_update send (plain_status (ti_TaskId taskInfo) TASK_STARTING)) (\<lambda>_ ex w.
       if ec_riakNode ex \<noteq> None then (Panics (LogFatal ''Task being started, twice''), ex, w)
       else bind_e (zk_e (NewRiakNode Z taskInfo)) (\<lambda>rn.
            bind_e (update_e (\<lambda>ex. ex\<lparr>ec_riakNode := Some rn\<rparr>)) (\<lambda>_.
            Node_Run Z send E rn)) ex w))"

text \<open>Sending on the nil channel.\<close>

definition finish :: "(unit, 'w) exec" where
  "finish ex w = (case ec_riakNode ex of None \<Rightarrow> (Panics NilDereference, ex, w) | Some _ \<Rightarrow> (Blocks, ex, w))"

text \<open>
  Forcing the end: the status to report is set, and the manager torn down. The tear down returns when the
  manager has answered; \<open>es\<close> are the selections it takes before that one, and \<open>k\<close> what the process does
  when it is killed.
\<close>

definition ForceFinish :: "(Event \<times> KillEnv) list \<Rightarrow> KillEnv \<Rightarrow> (unit, 'w) exec" where
  "ForceFinish es k ex w =
     (case ec_riakNode ex of
        None \<Rightarrow> (Panics NilDereference, ex, w)
      | Some rn \<Rightarrow>
          let rn1 = rn\<lparr>rn_killStatus := plain_status (rn_TaskId rn) TASK_FINISHED\<rparr>; ex1 = ex\<lparr>ec_riakNode := Some rn1\<rparr>
          in case rn_pm rn of
               None \<Rightarrow> (Panics NilDereference, ex1, w)
             | Some m \<Rightarrow>
                 (case TearDown m 0 of
                    Inl p \<Rightarrow> (Panics p, ex1, w)
                  | Inr e \<Rightarrow>
                      (case m of
                         Again pm \<Rightarrow>
                           (case background (es @ [(e, k)]) pm of
                              Return pm' \<Rightarrow>
                                (if Reply 0 \<in> set (pm_log pm') then Returns () else Blocks,
                                 ex\<lparr>ec_riakNode := Some (rn1\<lparr>rn_pm := Some (Return pm')\<rparr>)\<rparr>, w)
                            | _ \<Rightarrow> (Blocks, ex1, w))
                       | _ \<Rightarrow> (Blocks, ex1, w))))"

definition KillTask_cb :: "(StatusUpdate_msg \<Rightarrow> string option) \<Rightarrow> (unit, 'w) exec" where
  "KillTask_cb send = with_lock (\<lambda>ex w.
     case ec_riakNode ex of
       None \<Rightarrow> (Panics NilDereference, ex, w)
     | Some rn \<Rightarrow> bind_e (send_update send (plain_status (rn_TaskId rn) TASK_KILLED)) (\<lambda>_. finish) ex w)"

definition Executor_FrameworkMessage :: "(Event \<times> KillEnv) list \<Rightarrow> KillEnv \<Rightarrow> string \<Rightarrow> (unit, 'w) exec" where
  "Executor_FrameworkMessage es k msg =
     with_lock (if msg = ''finish'' then ForceFinish es k else return_e ())"

definition Executor_Disconnected :: "(unit, 'w) exec" where
  "Executor_Disconnected = with_lock (return_e ())"

text \<open>The process ends here, without the lock.\<close>

definition Shutdown_cb :: "(unit, 'w) exec" where
  "Shutdown_cb = update_e (\<lambda>ex. ex\<lparr>ec_stopped := True\<rparr>)"

definition Executor_Error :: "(unit, 'w) exec" where
  "Executor_Error = with_lock (return_e ())"

text \<open>\<^verbatim>\<open>binary.PutUvarint\<close> into the four bytes of the source: seven bits a byte, the last one below 128.\<close>

fun uvarint :: "nat \<Rightarrow> nat list" where
  "uvarint x = (if x < 128 then [x] else (x mod 128 + 128) # uvarint (x div 128))"

declare uvarint.simps [simp del]

definition put_uvarint :: "nat \<Rightarrow> uint64 \<Rightarrow> nat list result" where
  "put_uvarint n x =
     (let bytes = uvarint (unat x)
      in if length bytes \<le> n then Inr (bytes @ replicate (n - length bytes) 0) else Inl IndexOutOfRange)"

definition Node_next :: "(StatusUpdate_msg \<Rightarrow> string option) \<Rightarrow> (unit, 'w) exec" where
  "Node_next send ex w =
     (case ec_riakNode ex of
        None \<Rightarrow> (Panics NilDereference, ex, w)
      | Some rn \<Rightarrow>
          with_lock (case put_uvarint 4 (rn_generation rn) of
              Inl p \<Rightarrow> panic_e p
            | Inr bin \<Rightarrow>
                bind_e (node_send send \<lparr>su_TaskId = rn_TaskId rn, su_State = TASK_RUNNING, su_Data = Bytes bin\<rparr>) (\<lambda>_.
                update_e (set_node (\<lambda>n. n\<lparr>rn_generation := rn_generation n + 1\<rparr>)))) ex w)"

datatype exec_signal = SIGUSR1 | SIGUSR2

fun signalWatcher :: "(StatusUpdate_msg \<Rightarrow> string option) \<Rightarrow> exec_signal \<Rightarrow> (unit, 'w) exec" where
  "signalWatcher send SIGUSR1 = finish"
| "signalWatcher send SIGUSR2 = Node_next send"

text \<open>
  \<open>main\<close>: a driver that could not be made is nil and starting it dereferences it; one that could not be
  started ends the program. The driver calls back as soon as it is started, and \<open>early\<close> are the
  callbacks that come before the executor is given its driver. The result is whether \<open>main\<close> goes on to wait for the driver.
\<close>

definition executor_main :: "string option \<Rightarrow> string option \<Rightarrow> (unit, 'w) exec \<Rightarrow> 'w \<Rightarrow> bool outcome \<times> ExecutorCore \<times> 'w" where
  "executor_main new_err start_err early w =
     (if new_err \<noteq> None then (Panics NilDereference, newExecutor, w)
      else if start_err \<noteq> None then (Returns False, newExecutor, w)
      else bind_e early (\<lambda>_. bind_e (update_e (\<lambda>ex. ex\<lparr>ec_Driver := True\<rparr>)) (\<lambda>_. return_e True)) newExecutor w)"

section \<open>Reasoning about callbacks\<close>

lemma bind_eE:
  assumes "bind_e m f ex w = (r, ex', w')"
  obtains (step) x ex1 w1 where "m ex w = (Returns x, ex1, w1)" "f x ex1 w1 = (r, ex', w')"
  | (panic) p where "m ex w = (Panics p, ex', w')" "r = Panics p"
  | (block) "m ex w = (Blocks, ex', w')" "r = Blocks"
  using assms by (auto simp: bind_e_def split: prod.splits outcome.splits)

text \<open>
  The computations that only touch files and the store: what the executor knows and has told stays, and
  they wait for ever only under \<open>S\<close>.
\<close>

definition same_but_files :: "ExecutorCore \<Rightarrow> ExecutorCore \<Rightarrow> bool" where
  "same_but_files ex ex' \<longleftrightarrow> ec_locked ex' = ec_locked ex \<and> ec_riakNode ex' = ec_riakNode ex \<and> ec_Driver ex' = ec_Driver ex \<and>
     ec_updates ex' = ec_updates ex \<and> ec_stopped ex' = ec_stopped ex"

definition keeps :: "bool \<Rightarrow> ('a, 'w) exec \<Rightarrow> bool" where
  "keeps S m \<longleftrightarrow> (\<forall>ex w r ex' w'. m ex w = (r, ex', w') \<longrightarrow> same_but_files ex ex' \<and> (r = Blocks \<longrightarrow> S))"

lemma keepsD: "keeps S m \<Longrightarrow> m ex w = (r, ex', w') \<Longrightarrow> same_but_files ex ex' \<and> (r = Blocks \<longrightarrow> S)"
  by (metis keeps_def)

lemma keeps_bind [intro]:
  assumes "keeps S m" and "\<And>x. keeps S (f x)"
  shows "keeps S (bind_e m f)"
  unfolding keeps_def
proof (intro allI impI)
  fix ex w r ex' w'
  assume "bind_e m f ex w = (r, ex', w')"
  then show "same_but_files ex ex' \<and> (r = Blocks \<longrightarrow> S)"
  proof (cases rule: bind_eE)
    case (step x ex1 w1)
    from keepsD [OF assms(1) step(1)] keepsD [OF assms(2) step(2)] show ?thesis by (simp add: same_but_files_def)
  qed (use keepsD [OF assms(1)] in blast)+
qed

lemma keeps_basic [intro]:
  "keeps S (return_e x)" "keeps S (panic_e p)" "keeps S (zk_e m)" "keeps S (write_config t q c f v)"
  "keeps S (update_e (\<lambda>ex. ex\<lparr>ec_files := write_port_file I d port (ec_files ex)\<rparr>))" "keeps S (result_e y)"
  by (auto simp: keeps_def return_e_def result_e_def panic_e_def zk_e_def update_e_def write_config_def Let_def same_but_files_def
      split: prod.splits sum.splits option.splits if_splits)

lemma keeps_steps [intro]:
  "keeps S (configureRiak E td)" "keeps S (configureAdvanced E td port)" "keeps S (prepare E port)"
  by (auto simp: configureRiak_def configureAdvanced_def prepare_def split: sum.splits option.splits list.splits)

lemma keeps_start [intro]: "keeps (NewProcessManager (le_select E) (le_late E) = None) (start_riak E)"
  by (auto simp: keeps_def start_riak_def same_but_files_def split: option.splits)

section \<open>Launching\<close>

definition coordinated_ns :: "MetadataManager \<Rightarrow> string \<Rightarrow> Namespace" where
  "coordinated_ns mgr task =
     makeSubSpace (makeSubSpace (makeSubSpace (mgr_namespace mgr) ''coordinator'') ''coordinatedNodes'') task"

lemma bind_io_Inr:
  "bind_io m f w = (Inr y, w') \<longleftrightarrow> (\<exists>x w1. m w = (Inr x, w1) \<and> f x w1 = (Inr y, w'))"
  by (auto simp: bind_io_def split: prod.splits sum.splits)

lemma or_panic_Inr: "or_panic m w = (Inr x, w') \<longleftrightarrow> m w = (Inr (Inr x), w')"
  by (auto simp: or_panic_def bind_io_def split: prod.splits sum.splits)

context zookeeper begin

lemma getNode_ns: "getNode Z mgr ns w = (Inr (Inr node), w') \<Longrightarrow> zn_ns node = ns"
  using getNode_tree [of mgr ns w "Inr (Inr node)" w'] by simp

lemma makeNode_ns:
  "makeNodeWithRetry Z' mgr ns e c m w = (Inr (Inr node), w') \<Longrightarrow> Z' = Z \<Longrightarrow> zn_ns node = ns"
proof (induction Z' mgr ns e c m w rule: makeNodeWithRetry.induct)
  case (1 Z' mgr ns e c m w)
  then show ?case
    by (subst (asm) (2) makeNodeWithRetry.simps)
      (auto split: prod.splits option.splits if_splits sum.splits dest: getNode_ns)
qed

lemma getCoordinatedChild_ns:
  "getCoordinatedChild Z mgr task w = (Inr child, w') \<Longrightarrow> zn_ns child = coordinated_ns mgr task"
  by (auto simp: getCoordinatedChild_def bind_io_Inr or_panic_Inr GetChild_def MakeChild_def makeNode_def coordinated_ns_def
      split: if_splits dest!: makeNode_ns [OF _ refl] getNode_ns dest: GetRootNode_tree)

end

definition running_status :: "RiakNode \<Rightarrow> StatusUpdate_msg" where
  "running_status rn = \<lparr>su_TaskId = rn_TaskId rn, su_State = TASK_RUNNING, su_Data = Encoded (TaskStatusData_Serialize \<lparr>tsd_RexPort = td_HTTPPort (rn_taskData rn)\<rparr>)\<rparr>"

lemmas exec_defs = bind_e_def return_e_def panic_e_def update_e_def zk_e_def node_send_def send_update_def
lemmas exec_splits = prod.splits sum.splits option.splits outcome.splits if_splits

text \<open>The same with the bytes of the program as data.\<close>

locale executor_store = zookeeper Z tree
  for Z :: "(string, 'w) zk_conn" and tree :: "'w \<Rightarrow> string \<Rightarrow> string option option"
begin

lemma setCoordinatedData_tree:
  assumes "setCoordinatedData Z mgr td child config w = (Inr u, w')"
  shows "tree w' (GetZKPath (zn_ns child)) = Some (Some (CoordinatedData_Serialize (coordinated_data td config)))"
proof -
  from assms obtain r where "SetData Z mgr (Some (CoordinatedData_Serialize (coordinated_data td config))) child w = (Inr r, w')"
    by (auto simp: setCoordinatedData_def bind_io_Inr)
  from SetData_tree [OF this] show ?thesis by (auto split: prod.splits)
qed

lemma Node_started_outcome:
  assumes "Node_started Z send rn config started ex w = (r, ex', w')"
  shows "ec_locked ex' = ec_locked ex \<and> ec_files ex' = ec_files ex \<and>
    (case r of
       Returns (Some child) \<Rightarrow> ec_updates ex' = ec_updates ex @ [running_status rn] \<and>
         zn_ns child = coordinated_ns (rn_mgr rn) (rn_TaskId rn) \<and>
         tree w' (GetZKPath (zn_ns child)) = Some (Some (CoordinatedData_Serialize (coordinated_data (rn_taskData rn) config))) \<and>
         started \<noteq> None \<and>
         ec_riakNode ex' = map_option (\<lambda>n. n\<lparr>rn_pm := map_option Again started, rn_running := True\<rparr>) (ec_riakNode ex)
     | Returns None \<Rightarrow> ec_updates ex' = ec_updates ex @ [plain_status (rn_TaskId rn) TASK_FAILED] \<and> started = None \<and>
         ec_stopped ex'
     | Panics p \<Rightarrow> \<exists>us. ec_updates ex' = ec_updates ex @ us \<and> (\<forall>u \<in> set us. send u \<noteq> None)
     | Blocks \<Rightarrow> False)"
proof (cases started)
  case None
  with assms show ?thesis by (auto simp: Node_started_def exec_defs Let_def split: exec_splits)
next
  case (Some pm)
  have "tree w2 (GetZKPath (coordinated_ns (rn_mgr rn) (rn_TaskId rn))) = Some (Some (CoordinatedData_Serialize (coordinated_data (rn_taskData rn) config)))"
    if "getCoordinatedChild Z (rn_mgr rn) (rn_TaskId rn) w = (Inr child, w1)"
      "setCoordinatedData Z (rn_mgr rn) (rn_taskData rn) child config w1 = (Inr u, w2)" for child u w1 w2
    using getCoordinatedChild_ns [OF that(1)] setCoordinatedData_tree [OF that(2)] by simp
  with Some assms getCoordinatedChild_ns [of "rn_mgr rn" "rn_TaskId rn"] show ?thesis
    by (auto simp: Node_started_def exec_defs Let_def running_status_def set_node_def option.map_comp comp_def split: exec_splits)
qed

end

text \<open>The configuration file holds the text that was served, with the ports of the task filled in.\<close>

definition configured :: "LaunchEnv \<Rightarrow> TaskData \<Rightarrow> ExecutorCore \<Rightarrow> bool" where
  "configured E td ex \<longleftrightarrow> (\<exists>config fill text. fetch_config E (config_uri td ''config'') = Inr config \<and> le_template E config = Some fill \<and>
     fill (template_vars td) = (text, True) \<and> ec_files ex ''root/riak/etc/riak.conf'' = Some text)"

lemma configureRiak_configured:
  "configureRiak E td ex w = (Returns config, ex', w') \<Longrightarrow> configured E td ex' \<and> config = template_vars td"
  by (auto simp: configureRiak_def configured_def exec_defs write_config_def Let_def split: exec_splits)

lemma configured_cong: "ec_files ex' ''root/riak/etc/riak.conf'' = ec_files ex ''root/riak/etc/riak.conf'' \<Longrightarrow> configured E td ex' = configured E td ex"
  by (simp add: configured_def)

lemma other_files:
  "configureAdvanced E td port ex w = (r, ex', w') \<Longrightarrow> ec_files ex' ''root/riak/etc/riak.conf'' = ec_files ex ''root/riak/etc/riak.conf''"
  "prepare E port ex w = (r, ex', w') \<Longrightarrow> ec_files ex' ''root/riak/etc/riak.conf'' = ec_files ex ''root/riak/etc/riak.conf''"
  "start_riak E ex w = (q, ex', w') \<Longrightarrow> ec_files ex' = ec_files ex"
  "zk_e m ex w = (s, ex', w') \<Longrightarrow> ec_files ex' = ec_files ex"
proof -
  have "''root/riak/etc/riak.conf'' \<noteq> dir @ ''/priv/cepmd_port''" for dir
    by (rule notI, drule arg_cong [of _ _ last]) simp
  then show "prepare E port ex w = (r, ex', w') \<Longrightarrow> ec_files ex' ''root/riak/etc/riak.conf'' = ec_files ex ''root/riak/etc/riak.conf''"
    by (auto simp: prepare_def write_port_file_def exec_defs split: exec_splits list.splits)
qed (auto simp: configureAdvanced_def write_config_def start_riak_def exec_defs Let_def split: exec_splits)

lemma bind_e_Returns:
  "bind_e m f ex w = (Returns y, ex', w') \<longleftrightarrow> (\<exists>x ex1 w1. m ex w = (Returns x, ex1, w1) \<and> f x ex1 w1 = (Returns y, ex', w'))"
  by (auto simp: bind_e_def split: prod.splits outcome.splits)

lemma bind_e_assoc: "bind_e (bind_e m f) g = bind_e m (\<lambda>x. bind_e (f x) g)"
  by (intro ext) (auto simp: bind_e_def split: prod.splits outcome.splits)

lemma bind_e_return: "bind_e (return_e x) f = f x"
  by (intro ext) (simp add: bind_e_def return_e_def)

lemma result_e_Returns: "result_e r ex w = (Returns x, ex', w') \<longleftrightarrow> r = Inr x \<and> ex' = ex \<and> w' = w"
  by (auto simp: result_e_def split: sum.splits)

text \<open>Everything up to the start, with the ports and the manager it ends with.\<close>

definition up_to_start ::
  "(string, 'w) zk_conn \<Rightarrow> LaunchEnv \<Rightarrow> MetadataManager \<Rightarrow> TaskData \<Rightarrow> (templateData \<times> ProcessManager option, 'w) exec" where
  "up_to_start Z E mgr td =
     bind_e (configureRiak E td) (\<lambda>config. bind_e (zk_e (NewCPMd Z (le_listen E) (le_hostname E) mgr)) (\<lambda>c.
     bind_e (result_e (GetPort c)) (\<lambda>port. bind_e (configureAdvanced E td port) (\<lambda>_.
     bind_e (prepare E port) (\<lambda>_. bind_e (start_riak E) (\<lambda>started. return_e (config, started)))))))"

lemma Node_Run_eq:
  "Node_Run Z send E rn =
     bind_e (up_to_start Z E (rn_mgr rn) (rn_taskData rn)) (\<lambda>(config, started). Node_started Z send rn config started)"
  by (simp add: Node_Run_def up_to_start_def bind_e_assoc bind_e_return)

lemma up_to_start_keeps: "keeps (NewProcessManager (le_select E) (le_late E) = None) (up_to_start Z E mgr td)"
  unfolding up_to_start_def by (intro keeps_bind keeps_steps keeps_start keeps_basic)

lemma up_to_start_configured:
  assumes "up_to_start Z E mgr td ex w = (Returns (config, started), ex', w')"
  shows "config = template_vars td \<and> configured E td ex' \<and> (\<exists>err. NewProcessManager (le_select E) (le_late E) = Some (started, err))"
proof -
  from assms obtain ex1 w1 cp ex2 w2 port ex3 w3 ex4 w4 where c: "configureRiak E td ex w = (Returns config, ex1, w1)"
    "zk_e (NewCPMd Z (le_listen E) (le_hostname E) mgr) ex1 w1 = (Returns cp, ex2, w2)"
    "configureAdvanced E td port ex2 w2 = (Returns (), ex3, w3)"
    "prepare E port ex3 w3 = (Returns (), ex4, w4)" "start_riak E ex4 w4 = (Returns started, ex', w')"
    by (auto simp: up_to_start_def bind_e_Returns return_e_def result_e_Returns)
  then have "ec_files ex' ''root/riak/etc/riak.conf'' = ec_files ex1 ''root/riak/etc/riak.conf''"
    by (simp add: other_files(1) [OF c(3)] other_files(2) [OF c(4)] other_files(3) [OF c(5)] other_files(4) [OF c(2)])
  with configured_cong [OF this] configureRiak_configured [OF c(1)] c(5) show ?thesis
    by (auto simp: start_riak_def split: option.splits)
qed

definition node_of :: "TaskInfo \<Rightarrow> RiakNode" where
  "node_of taskInfo = \<lparr>rn_TaskId = ti_TaskId taskInfo, rn_generation = 0, rn_running = False, rn_taskData = task_data taskInfo,
     rn_mgr = \<lparr>mgr_frameworkID = td_FrameworkName (task_data taskInfo), mgr_zookeepers = td_Zookeepers (task_data taskInfo)\<rparr>,
     rn_pm = None, rn_killStatus = plain_status (ti_TaskId taskInfo) TASK_FAILED\<rparr>"

lemma NewRiakNode_node: "NewRiakNode Z taskInfo w = (Inr rn, w') \<Longrightarrow> rn = node_of taskInfo"
  by (auto simp: NewRiakNode_def NewMetadataManager_def bind_io_Inr Let_def node_of_def task_data_def split: prod.splits if_splits)

context executor_store begin

lemma Node_Run_outcome:
  assumes "Node_Run Z send E rn ex w = (r, ex', w')" and "ec_riakNode ex = Some rn"
  shows "case r of
      Returns (Some child) \<Rightarrow> ec_locked ex' = ec_locked ex \<and> ec_updates ex' = ec_updates ex @ [running_status rn] \<and>
        configured E (rn_taskData rn) ex' \<and> zn_ns child = coordinated_ns (rn_mgr rn) (rn_TaskId rn) \<and>
        tree w' (GetZKPath (zn_ns child)) = Some (Some (CoordinatedData_Serialize (coordinated_data (rn_taskData rn) (template_vars (rn_taskData rn))))) \<and>
        (\<exists>pm err. NewProcessManager (le_select E) (le_late E) = Some (Some pm, err) \<and>
           ec_riakNode ex' = Some (rn\<lparr>rn_pm := Some (Again pm), rn_running := True\<rparr>))
    | Returns None \<Rightarrow> ec_locked ex' = ec_locked ex \<and> ec_stopped ex' \<and>
        ec_updates ex' = ec_updates ex @ [plain_status (rn_TaskId rn) TASK_FAILED] \<and>
        (\<exists>err. NewProcessManager (le_select E) (le_late E) = Some (None, err))
    | Panics p \<Rightarrow> ec_locked ex' = ec_locked ex \<and> (\<exists>us. ec_updates ex' = ec_updates ex @ us \<and> (\<forall>u \<in> set us. send u \<noteq> None))
    | Blocks \<Rightarrow> ec_locked ex' = ec_locked ex \<and> ec_updates ex' = ec_updates ex \<and> NewProcessManager (le_select E) (le_late E) = None"
  using assms(1) unfolding Node_Run_eq
proof (cases rule: bind_eE)
  case (step x ex1 w1)
  obtain config started where x: "x = (config, started)" by force
  have s: "Node_started Z send rn config started ex1 w1 = (r, ex', w')" using step(2) by (simp add: x)
  have c: "config = template_vars (rn_taskData rn)" "configured E (rn_taskData rn) ex1"
    "\<exists>err. NewProcessManager (le_select E) (le_late E) = Some (started, err)"
    using up_to_start_configured [OF step(1) [unfolded x]] by simp_all
  have k: "same_but_files ex ex1" using keepsD [OF up_to_start_keeps step(1)] by simp
  from Node_started_outcome [OF s] c k assms(2) configured_cong [of ex' ex1] show ?thesis
    by (auto simp: same_but_files_def split: outcome.splits option.splits)
qed (use keepsD [OF up_to_start_keeps] in \<open>fastforce simp: same_but_files_def\<close>)+

end

interpretation bytes: executor_store mem_zk mem_tree
  by (rule executor_store.intro) (rule mem.zookeeper_axioms)

lemma LaunchTask_outcome:
  assumes "zookeeper Z tree" and "\<not> ec_locked ex" and "ec_riakNode ex = None"
    and "LaunchTask Z send E taskInfo ex w = (r, ex', w')"
  shows "case r of
      Returns (Some child) \<Rightarrow> \<not> ec_locked ex' \<and> configured E (task_data taskInfo) ex' \<and>
        ec_updates ex' = ec_updates ex @ [plain_status (ti_TaskId taskInfo) TASK_STARTING, running_status (node_of taskInfo)] \<and>
        zn_ns child = coordinated_ns (rn_mgr (node_of taskInfo)) (ti_TaskId taskInfo) \<and>
        tree w' (GetZKPath (zn_ns child)) =
          Some (Some (CoordinatedData_Serialize (coordinated_data (task_data taskInfo) (template_vars (task_data taskInfo))))) \<and>
        (\<exists>pm err. NewProcessManager (le_select E) (le_late E) = Some (Some pm, err) \<and>
           ec_riakNode ex' = Some ((node_of taskInfo)\<lparr>rn_pm := Some (Again pm), rn_running := True\<rparr>))
    | Returns None \<Rightarrow> \<not> ec_locked ex' \<and> ec_stopped ex' \<and>
        ec_updates ex' = ec_updates ex @ [plain_status (ti_TaskId taskInfo) TASK_STARTING, plain_status (ti_TaskId taskInfo) TASK_FAILED] \<and>
        (\<exists>err. NewProcessManager (le_select E) (le_late E) = Some (None, err))
    | Panics p \<Rightarrow> \<not> ec_locked ex' \<and> (\<exists>us. (\<forall>u \<in> set us. send u \<noteq> None) \<and>
        ec_updates ex' = ec_updates ex @ plain_status (ti_TaskId taskInfo) TASK_STARTING # us)
    | Blocks \<Rightarrow> ec_locked ex' \<and> ec_updates ex' = ec_updates ex @ [plain_status (ti_TaskId taskInfo) TASK_STARTING] \<and>
        NewProcessManager (le_select E) (le_late E) = None"
proof -
  let ?u = "plain_status (ti_TaskId taskInfo) TASK_STARTING"
  let ?ex = "ex\<lparr>ec_locked := True, ec_updates := ec_updates ex @ [?u]\<rparr>"
  let ?run = "\<lambda>rn. Node_Run Z send E rn (?ex\<lparr>ec_riakNode := Some rn\<rparr>)"
  have launch: "LaunchTask Z send E taskInfo ex w =
    (case send ?u of
       Some e \<Rightarrow> (Panics (LogPanic ''Got error''), ?ex\<lparr>ec_locked := False\<rparr>, w)
     | None \<Rightarrow> (case NewRiakNode Z taskInfo w of
         (Inl p, w1) \<Rightarrow> (Panics p, ?ex\<lparr>ec_locked := False\<rparr>, w1)
       | (Inr rn, w1) \<Rightarrow> (case ?run rn w1 of
           (Returns x, ex1, w1) \<Rightarrow> (Returns x, ex1\<lparr>ec_locked := False\<rparr>, w1)
         | (Panics p, ex1, w1) \<Rightarrow> (Panics p, ex1\<lparr>ec_locked := False\<rparr>, w1)
         | (Blocks, ex1, w1) \<Rightarrow> (Blocks, ex1, w1))))"
    using assms(2,3) by (simp add: LaunchTask_def with_lock_def exec_defs Let_def split: option.splits prod.splits sum.splits)
  show ?thesis
  proof (cases "send ?u = None \<and> \<not> isl (fst (NewRiakNode Z taskInfo w))")
    case True
    then obtain rn w1 where n: "NewRiakNode Z taskInfo w = (Inr rn, w1)" 
      by (metis isl_def old.prod.exhaust old.sum.exhaust fst_conv)
    note rn = NewRiakNode_node [OF n]
    obtain q ex1 w2 where run: "?run rn w1 = (q, ex1, w2)" by (cases "?run rn w1") auto
    have "ec_riakNode (?ex\<lparr>ec_riakNode := Some rn\<rparr>) = Some rn" by simp
    from executor_store.Node_Run_outcome [OF executor_store.intro [OF assms(1)] run this] assms(4) launch True n run show ?thesis
      by (auto simp: rn node_of_def configured_def split: outcome.splits option.splits)
  next
    case False
    with assms(4) launch show ?thesis by (auto split: option.splits prod.splits sum.splits)
  qed
qed

text \<open>
  C12: Launching a task. When the callback returns with a running Riak, the slave has been told STARTING and
  then RUNNING, and before RUNNING was sent the configuration served for the cluster, with the ports of the
  task filled in, was in the file Riak reads, and the store held the node's address under its task id. When
  Riak could not be started the slave has been told STARTING and FAILED and the driver is stopped. After a
  panic nothing more than STARTING has been reported to a slave that accepted it, and the lock is free. The
  callback waits for ever only when a killed process is never reported as ended.
\<close>

theorem launch_reports:
  assumes "zookeeper Z tree" and "\<not> ec_locked ex" and "ec_riakNode ex = None"
    and "LaunchTask Z send E taskInfo ex w = (r, ex', w')"
  shows "case r of
      Returns (Some child) \<Rightarrow> \<not> ec_locked ex' \<and> configured E (task_data taskInfo) ex' \<and>
        ec_updates ex' = ec_updates ex @ [plain_status (ti_TaskId taskInfo) TASK_STARTING, running_status (node_of taskInfo)] \<and>
        zn_ns child = coordinated_ns (rn_mgr (node_of taskInfo)) (ti_TaskId taskInfo) \<and>
        tree w' (GetZKPath (zn_ns child)) =
          Some (Some (CoordinatedData_Serialize (coordinated_data (task_data taskInfo) (template_vars (task_data taskInfo))))) \<and>
        (\<exists>pm err. NewProcessManager (le_select E) (le_late E) = Some (Some pm, err) \<and>
           ec_riakNode ex' = Some ((node_of taskInfo)\<lparr>rn_pm := Some (Again pm), rn_running := True\<rparr>))
    | Returns None \<Rightarrow> \<not> ec_locked ex' \<and> ec_stopped ex' \<and>
        ec_updates ex' = ec_updates ex @ [plain_status (ti_TaskId taskInfo) TASK_STARTING, plain_status (ti_TaskId taskInfo) TASK_FAILED] \<and>
        (\<exists>err. NewProcessManager (le_select E) (le_late E) = Some (None, err))
    | Panics p \<Rightarrow> \<not> ec_locked ex' \<and> (\<exists>us. (\<forall>u \<in> set us. send u \<noteq> None) \<and>
        ec_updates ex' = ec_updates ex @ plain_status (ti_TaskId taskInfo) TASK_STARTING # us)
    | Blocks \<Rightarrow> ec_locked ex' \<and> ec_updates ex' = ec_updates ex @ [plain_status (ti_TaskId taskInfo) TASK_STARTING] \<and>
        NewProcessManager (le_select E) (le_late E) = None"
  using assms by (rule LaunchTask_outcome)

definition ex_launch_env :: LaunchEnv where
  "ex_launch_env = \<lparr>le_get = (\<lambda>u. Response 200 ''nodename''), le_partial = (\<lambda>_. []),
     le_template = (\<lambda>t. Some (\<lambda>v. (t @ '' = '' @ tpl_FullyQualifiedNodeName v, True))),
     le_advanced = (\<lambda>t. Some (\<lambda>p. (t, True))), le_open = (\<lambda>_. True), le_listen = Some ''127.0.0.1:31'', le_hostname = Some ''host'',
     le_install = \<lparr>in_kernelDirs = Some [''root/riak/lib/kernel-2.16''], in_restoreAssets = (\<lambda>_. None),
       in_epmdGlobs = Some [''root/riak/erts-5.10.3/bin/epmd''], in_cp = (\<lambda>_. None), in_writable = (\<lambda>_. True)\<rparr>, le_wd = Some ''/sandbox'',
     le_select = (\<lambda>i. (After (if i < 2 then Some ''Riak KV not yet started'' else None), ex_kill)), le_late = ex_kill\<rparr>"

definition ex_task_data :: TaskData where
  "ex_task_data = zero_TaskData\<lparr>td_FullyQualifiedNodeName := ''riak-1@host'', td_Zookeepers := [''zk1:2181''],
     td_FrameworkName := ''fw'', td_ClusterName := ''c'', td_URI := ''http://host:9090'', td_HTTPPort := 31\<rparr>"

definition ex_task :: TaskInfo where
  "ex_task = \<lparr>ti_Name = ''riak'', ti_TaskId = ''c-1'', ti_SlaveId = None,
     ti_Executor = \<lparr>ei_ExecutorId = ''c-1'', ei_Name = [], ei_Source = [],
       ei_Command = \<lparr>ci_Value = ''executor'', ci_Uris = [], ci_Shell = False, ci_Arguments = []\<rparr>, ei_Resources = []\<rparr>,
     ti_Resources = [],
     ti_Data = TaskData_Serialize ex_task_data\<rparr>"

theorem launch_reports_witness:
  "zookeeper mem_zk (mem_tree :: string mem_world \<Rightarrow> _) \<and>
   (\<exists>child ex' w'. LaunchTask mem_zk (\<lambda>_. None) ex_launch_env ex_task
        (newExecutor\<lparr>ec_Driver := True\<rparr>) no_nodes = (Returns (Some child), ex', w') \<and>
      map su_State (ec_updates ex') = [TASK_STARTING, TASK_RUNNING] \<and>
      mem_tree w' (GetZKPath (zn_ns child)) = Some (Some (CoordinatedData_Serialize (coordinated_data ex_task_data (template_vars ex_task_data)))))"
proof -
  let ?l = "LaunchTask mem_zk (\<lambda>_. None) ex_launch_env ex_task (newExecutor\<lparr>ec_Driver := True\<rparr>) no_nodes"
  have "case fst ?l of Returns (Some _) \<Rightarrow> True | _ \<Rightarrow> False" by code_simp
  then obtain child ex' w' where l: "?l = (Returns (Some child), ex', w')"
    by (cases ?l) (auto split: outcome.splits option.splits)
  have "\<not> ec_locked (newExecutor\<lparr>ec_Driver := True\<rparr>)" "ec_riakNode (newExecutor\<lparr>ec_Driver := True\<rparr>) = None"
    "ec_updates (newExecutor\<lparr>ec_Driver := True\<rparr>) = []" by (simp_all add: newExecutor_def)
  with launch_reports [OF mem.zookeeper_axioms _ _ l] l mem.zookeeper_axioms show ?thesis
    by (auto simp: plain_status_def running_status_def ex_task_def task_data_def TaskData_roundtrip)
qed

text \<open>
  A task that is launched before \<open>main\<close> has given the executor its driver never runs: its node cannot report and the
  program panics, whatever the slave, the store and Riak do.
\<close>

lemma Node_started_no_driver:
  "\<not> ec_Driver ex \<Longrightarrow> Node_started Z send rn config started ex w \<noteq> (Returns c, ex', w')"
  by (auto simp: Node_started_def exec_defs set_node_def split: exec_splits)

lemma Node_Run_no_driver:
  assumes "\<not> ec_Driver ex"
  shows "Node_Run Z send E rn ex w \<noteq> (Returns c, ex', w')"
proof
  assume "Node_Run Z send E rn ex w = (Returns c, ex', w')"
  then obtain x ex1 w1 where u: "up_to_start Z E (rn_mgr rn) (rn_taskData rn) ex w = (Returns x, ex1, w1)"
    and s: "(case x of (config, started) \<Rightarrow> Node_started Z send rn config started) ex1 w1 = (Returns c, ex', w')"
    by (auto simp: Node_Run_eq bind_e_Returns)
  from keepsD [OF up_to_start_keeps u] assms have n: "\<not> ec_Driver ex1" by (simp add: same_but_files_def)
  from s show False by (cases x) (simp add: Node_started_no_driver [OF n])
qed

theorem launch_before_driver:
  "executor_main None None (bind_e (LaunchTask Z send E taskInfo) (\<lambda>_. return_e ())) w \<noteq> (Returns b, ex', w')"
proof
  assume "executor_main None None (bind_e (LaunchTask Z send E taskInfo) (\<lambda>_. return_e ())) w = (Returns b, ex', w')"
  then obtain c ex1 w1 where "LaunchTask Z send E taskInfo newExecutor w = (Returns c, ex1, w1)"
    by (auto simp: executor_main_def bind_e_Returns)
  then obtain rn ex2 w2 ex3 w3 where r: "Node_Run Z send E rn ex2 w2 = (Returns c, ex3, w3)" and n: "\<not> ec_Driver ex2"
    by (auto simp: LaunchTask_def with_lock_def newExecutor_def bind_e_Returns zk_e_def update_e_def send_update_def Let_def
        split: prod.splits sum.splits outcome.splits option.splits if_splits)
  from r show False by (simp add: Node_Run_no_driver [OF n])
qed

section \<open>Ending\<close>

lemma background_teardown:
  assumes "\<forall>x \<in> set es. \<not> ends (fst x)" and "fresh_subs (pm_subscriptions pm @ new_subs es) pm" and "\<not> stuck_env k"
  shows "\<exists>pm'. background (es @ [(OnTeardown r, k)]) pm = Return pm' \<and> Reply r \<in> set (pm_log pm') \<and>
    (\<forall>s \<in> set (pm_subscriptions pm @ new_subs es). pm_buffer pm' s = Some (- 1))"
proof -
  have "background (es @ [(OnTeardown r, k)]) pm =
    background_select (OnTeardown r) k (pm\<lparr>pm_subscriptions := pm_subscriptions pm @ new_subs es\<rparr>)"
    using assms(1)
  proof (induction es arbitrary: pm)
    case Nil
    have "pm\<lparr>pm_subscriptions := pm_subscriptions pm\<rparr> = pm" by simp
    then show ?case by (auto split: loop.splits simp: background_select_def returning_def option.splits)
  next
    case (Cons x es)
    then obtain s k' where x: "x = (OnSubscribe s, k')" by (cases x; cases "fst x") auto
    with Cons show ?case by (simp add: background_select_def subscribed_def)
  qed
  moreover have "fresh_subs (pm_subscriptions (pm\<lparr>pm_subscriptions := pm_subscriptions pm @ new_subs es\<rparr>))
      (pm\<lparr>pm_subscriptions := pm_subscriptions pm @ new_subs es\<rparr>)"
    using assms(2) by (simp add: fresh_subs_def)
  ultimately show ?thesis using assms(3) by (simp add: background_select_ends)
qed

lemma runLoop_reports:
  assumes "ec_riakNode ex = Some rn" and "ec_Driver ex" and "send (rn_killStatus rn) = None"
    and "Node_Delete fuel Z delete child w = (Some (Inr ()), w')"
  shows "runLoop fuel Z delete send child ex w =
    (Returns (), ex\<lparr>ec_updates := ec_updates ex @ [rn_killStatus rn], ec_stopped := True\<rparr>, w')"
  using assms by (simp add: runLoop_def exec_defs)

text \<open>
  C13: The message \<open>finish\<close>, with which the scheduler ends a task. The callback returns when the process manager has
  ended the process and told its subscribers; the node's loop then reports FINISHED, deletes the node's address
  from the store and stops the driver. Without the message, when the process ends by itself, the loop reports
  the status the node was made with. A second message is answered by a panic, since the manager's channel is
  closed.
\<close>

theorem finish_reports:
  assumes "\<not> ec_locked ex" and "ec_riakNode ex = Some rn" and "rn_pm rn = Some (Again pm)" and "ec_Driver ex"
    and "\<forall>x \<in> set es. \<not> ends (fst x)" and "fresh_subs (pm_subscriptions pm @ new_subs es) pm" and "\<not> stuck_env k"
    and "\<forall>u. send u = None" and "Node_Delete fuel Z delete child w = (Some (Inr ()), w')"
  shows "\<exists>ex1 ex2 pm'. Executor_FrameworkMessage es k ''finish'' ex w = (Returns (), ex1, w) \<and>
    ec_riakNode ex1 = Some (rn\<lparr>rn_killStatus := plain_status (rn_TaskId rn) TASK_FINISHED, rn_pm := Some (Return pm')\<rparr>) \<and>
    (\<forall>s \<in> set (pm_subscriptions pm @ new_subs es). pm_buffer pm' s = Some (- 1)) \<and>
    runLoop fuel Z delete send child ex1 w = (Returns (), ex2, w') \<and> ec_stopped ex2 \<and> \<not> ec_locked ex2 \<and>
    ec_updates ex2 = ec_updates ex @ [plain_status (rn_TaskId rn) TASK_FINISHED] \<and>
    ec_updates (fst (snd (runLoop fuel Z delete send child ex w))) = ec_updates ex @ [rn_killStatus rn] \<and>
    fst (Executor_FrameworkMessage es' k' ''finish'' ex2 w') = Panics (LogPanic ''send on closed channel'')"
proof -
  obtain pm' where b: "background (es @ [(OnTeardown 0, k)]) pm = Return pm'" "Reply 0 \<in> set (pm_log pm')"
    "\<forall>s \<in> set (pm_subscriptions pm @ new_subs es). pm_buffer pm' s = Some (- 1)"
    using background_teardown [OF assms(5-7)] by blast
  let ?rn = "rn\<lparr>rn_killStatus := plain_status (rn_TaskId rn) TASK_FINISHED, rn_pm := Some (Return pm')\<rparr>"
  let ?ex = "ex\<lparr>ec_riakNode := Some ?rn\<rparr>"
  have m: "Executor_FrameworkMessage es k ''finish'' ex w = (Returns (), ?ex, w)"
    using assms(1-3) b(1,2)
    by (simp add: Executor_FrameworkMessage_def with_lock_def ForceFinish_def TearDown_def send_to_manager_def Let_def)
  let ?ex2 = "?ex\<lparr>ec_updates := ec_updates ex @ [plain_status (rn_TaskId rn) TASK_FINISHED], ec_stopped := True\<rparr>"
  have l: "runLoop fuel Z delete send child ?ex w = (Returns (), ?ex2, w')"
    using runLoop_reports [of ?ex ?rn send fuel Z delete child w w'] assms(4,8,9) by simp
  have again: "fst (Executor_FrameworkMessage es' k' ''finish'' ?ex2 w') = Panics (LogPanic ''send on closed channel'')"
    using assms(1) by (simp add: Executor_FrameworkMessage_def with_lock_def ForceFinish_def TearDown_def send_to_manager_def Let_def)
  have alone: "runLoop fuel Z delete send child ex w =
      (Returns (), ex\<lparr>ec_updates := ec_updates ex @ [rn_killStatus rn], ec_stopped := True\<rparr>, w')"
    using runLoop_reports [OF assms(2,4) _ assms(9), of send] assms(8) by simp
  show ?thesis
    by (rule exI [of _ ?ex], rule exI [of _ ?ex2], rule exI [of _ pm']) (simp add: m l b(3) again alone assms(1))
qed

definition running_executor :: ExecutorCore where
  "running_executor = newExecutor\<lparr>ec_Driver := True, ec_riakNode := Some ((node_of ex_task)\<lparr>rn_pm := Some (Again new_manager), rn_running := True\<rparr>)\<rparr>"

theorem finish_reports_witness:
  "\<exists>ex1 ex2 w'. Executor_FrameworkMessage [(OnSubscribe 1, ex_kill)] ex_kill ''finish'' running_executor (ex_world []) = (Returns (), ex1, ex_world []) \<and>
     runLoop 11 mem_zk mem_delete (\<lambda>_. None) ex_zk_node ex1 (ex_world []) = (Returns (), ex2, w') \<and>
     ec_updates ex2 = [plain_status ''c-1'' TASK_FINISHED]"
proof -
  let ?rn = "(node_of ex_task)\<lparr>rn_pm := Some (Again new_manager), rn_running := True\<rparr>"
  obtain w' where d: "Node_Delete 11 mem_zk mem_delete ex_zk_node (ex_world []) = (Some (Inr ()), w')"
    by (simp add: Node_Delete_def DeleteChildren_def eval_nat_numeral mem_delete_def mem_call_def mem_zk_def ex_world_def ex_path)
  have ex: "\<not> ec_locked running_executor" "ec_riakNode running_executor = Some ?rn" "rn_pm ?rn = Some (Again new_manager)" "ec_Driver running_executor"
    "ec_updates running_executor = []" by (simp_all add: running_executor_def newExecutor_def)
  have "\<forall>x \<in> set [(OnSubscribe 1, ex_kill)]. \<not> ends (fst x)" by simp
  moreover have "fresh_subs (pm_subscriptions new_manager @ new_subs [(OnSubscribe 1, ex_kill)]) new_manager"
    by (simp add: fresh_subs_def new_manager_def)
  moreover have "\<not> stuck_env ex_kill" by (simp add: stuck_env_def ex_kill_def)
  ultimately have "\<exists>ex1 ex2 pm'. Executor_FrameworkMessage [(OnSubscribe 1, ex_kill)] ex_kill ''finish'' running_executor (ex_world []) =
      (Returns (), ex1, ex_world []) \<and> runLoop 11 mem_zk mem_delete (\<lambda>_. None) ex_zk_node ex1 (ex_world []) = (Returns (), ex2, w') \<and>
      ec_updates ex2 = ec_updates running_executor @ [plain_status (rn_TaskId ?rn) TASK_FINISHED]"
    using finish_reports [OF ex(1-4) _ _ _ _ d, of "[(OnSubscribe 1, ex_kill)]" ex_kill "\<lambda>_. None" "[]" ex_kill] by blast
  then show ?thesis by (auto simp: ex(5) node_of_def ex_task_def)
qed

text \<open>A callback on an executor whose lock is taken waits for ever and changes nothing.\<close>

lemma locked_blocks: "ec_locked ex \<Longrightarrow> with_lock m ex w = (Blocks, ex, w)"
  by (simp add: with_lock_def)



section \<open>Generations\<close>

text \<open>Reading a number back from its bytes.\<close>

fun read_uvarint :: "nat list \<Rightarrow> nat" where
  "read_uvarint [] = 0"
| "read_uvarint (b # bs) = (if b < 128 then b else b - 128 + 128 * read_uvarint bs)"

lemma read_uvarint_uvarint: "read_uvarint (uvarint x @ bs) = x"
proof (induction x rule: uvarint.induct)
  case (1 x)
  show ?case
  proof (cases "x < 128")
    case True
    then show ?thesis by (simp add: uvarint.simps [of x])
  next
    case False
    with 1 show ?thesis by (simp add: uvarint.simps [of x])
  qed
qed

lemma length_uvarint: "length (uvarint x) \<le> Suc n \<longleftrightarrow> x < 128 ^ Suc n"
proof (induction n arbitrary: x)
  case 0
  show ?case by (cases "uvarint (x div 128)") (auto simp: uvarint.simps [of x] uvarint.simps [of "x div 128"] split: if_splits)
next
  case (Suc n)
  have "x div 128 < 128 ^ Suc n \<longleftrightarrow> x < 128 ^ Suc (Suc n)"
    using div_less_iff_less_mult [of 128 x "128 ^ Suc n"] by (simp add: mult.commute)
  moreover have "x < 128 \<Longrightarrow> x < 128 ^ Suc (Suc n)"
    by (rule less_le_trans [of _ 128]) simp_all
  ultimately show ?case using Suc.IH [of "x div 128"] by (simp add: uvarint.simps [of x])
qed

text \<open>
  The generation of a node, which a signal counts up, is reported in four bytes. The bytes hold the generation
  as long as it is below 2 to the power of 28; from there on the report is a panic, nothing is sent and the
  count stands still, since the number takes a fifth byte.
\<close>

theorem generation_bytes:
  assumes "\<not> ec_locked ex" and "ec_riakNode ex = Some rn" and "ec_Driver ex" and "\<forall>u. send u = None"
  shows "(\<exists>bin. Node_next send ex w = (Returns (), ex\<lparr>ec_riakNode := Some (rn\<lparr>rn_generation := rn_generation rn + 1\<rparr>),
        ec_updates := ec_updates ex @ [\<lparr>su_TaskId = rn_TaskId rn, su_State = TASK_RUNNING, su_Data = Bytes bin\<rparr>]\<rparr>, w) \<and>
        length bin = 4 \<and> read_uvarint bin = unat (rn_generation rn) \<and> unat (rn_generation rn) < 2 ^ 28) \<or>
    (Node_next send ex w = (Panics IndexOutOfRange, ex, w) \<and> 2 ^ 28 \<le> unat (rn_generation rn))"
proof -
  have l: "length (uvarint (unat (rn_generation rn))) \<le> 4 \<longleftrightarrow> unat (rn_generation rn) < 2 ^ 28"
    using length_uvarint [of "unat (rn_generation rn)" 3] by simp
  show ?thesis
  proof (cases "unat (rn_generation rn) < 2 ^ 28")
    case True
    with l assms show ?thesis
      by (intro disjI1 exI [of _ "uvarint (unat (rn_generation rn)) @ replicate (4 - length (uvarint (unat (rn_generation rn)))) 0"])
        (simp add: Node_next_def with_lock_def put_uvarint_def Let_def exec_defs set_node_def read_uvarint_uvarint)
  next
    case False
    with l assms show ?thesis
      by (simp add: Node_next_def with_lock_def put_uvarint_def Let_def exec_defs)
  qed
qed

theorem generation_bytes_witness:
  "\<exists>ex' bin. Node_next (\<lambda>_. None) running_executor () = (Returns (), ex', ()) \<and>
     ec_updates ex' = [\<lparr>su_TaskId = ''c-1'', su_State = TASK_RUNNING, su_Data = Bytes bin\<rparr>] \<and> read_uvarint bin = 0"
proof -
  let ?rn = "(node_of ex_task)\<lparr>rn_pm := Some (Again new_manager), rn_running := True\<rparr>"
  have "\<not> ec_locked running_executor" "ec_riakNode running_executor = Some ?rn" "ec_Driver running_executor" "ec_updates running_executor = []"
    by (simp_all add: running_executor_def newExecutor_def)
  with generation_bytes [of running_executor ?rn "\<lambda>_. None" "()"] show ?thesis by (auto simp: node_of_def ex_task_def)
qed

end
