(* ===== verification/Example_Launch.thy ===== *)
theory Example_Launch
  imports Example_Scheduler Executor
begin

text \<open>
  The example node launched: an executor whose network, files and store answer, and which gets its configuration from the
  example scheduler. Whatever ports its task names, the launch returns with a running Riak.
\<close>

definition served_env :: LaunchEnv where
  "served_env = ex_launch_env\<lparr>le_get := (\<lambda>_. Response 200 (frc_RiakConfig ex_cluster))\<rparr>"

definition ex_child :: "(string ZkNode, string mem_world) io" where
  "ex_child =
     bind_io (NewMetadataManager mem_zk ''riak'' [''zk1:2181'']) (\<lambda>mgr.
     bind_io (NewCPMd mem_zk (le_listen served_env) (le_hostname served_env) mgr) (\<lambda>c.
     bind_io (\<lambda>w. (GetPort c, w)) (\<lambda>_. getCoordinatedChild mem_zk mgr ''riak-c1-1'')))"

lemma ex_child_made: "case ex_child no_nodes of
    (Inr child, w) \<Rightarrow> mw_faults w = [] \<and> fmlookup (mw_nodes w) (GetZKPath (zn_ns child)) \<noteq> None \<and> zn_stat child \<noteq> None
  | _ \<Rightarrow> False"
  by code_simp

lemma ex_manager_started: "case NewProcessManager (le_select served_env) (le_late served_env) of Some (Some _, _) \<Rightarrow> True | _ \<Rightarrow> False"
  by code_simp

lemma mem_SetData:
  assumes "mw_faults w = []" and "fmlookup (mw_nodes w) (GetZKPath (zn_ns node)) \<noteq> None" and "zn_stat node \<noteq> None"
  shows "\<exists>node' w'. SetData mem_zk mgr data node w = (Inr (node', None), w')"
  using assms by (auto simp: SetData_def SetDataWithRetry.simps set_data_attempt_def mem_zk_def mem_call_def)

lemma ex_prepares:
  "\<exists>ex'. configureRiak served_env td ex w = (Returns (template_vars td), ex', w) \<and> same_but_files ex ex'"
  "\<exists>ex'. configureAdvanced served_env td port ex w = (Returns (), ex', w) \<and> same_but_files ex ex'"
  "\<exists>ex'. prepare served_env port ex w = (Returns (), ex', w) \<and> same_but_files ex ex'"
  by (simp_all add: configureRiak_def configureAdvanced_def prepare_def fetch_config_def write_config_def exec_defs served_env_def
      ex_launch_env_def InstallInto_def KillEPMD_def same_but_files_def Let_def)

lemma ex_launch_returns:
  assumes "ti_TaskId t = ''riak-c1-1''" and "ti_Data t = TaskData_Serialize td" and "td_FrameworkName td = ''riak''"
    and "td_Zookeepers td = [''zk1:2181'']"
  obtains child ex' w' where
    "LaunchTask mem_zk (\<lambda>_. None) served_env t (newExecutor\<lparr>ec_Driver := True\<rparr>) no_nodes = (Returns (Some child), ex', w')"
proof -
  let ?mgr = "\<lparr>mgr_frameworkID = ''riak'', mgr_zookeepers = [''zk1:2181'']\<rparr>"
  let ?E = served_env
  from ex_child_made obtain mgr w1 c w2 port child w3 where w: "NewMetadataManager mem_zk ''riak'' [''zk1:2181''] no_nodes = (Inr mgr, w1)"
    "NewCPMd mem_zk (le_listen ?E) (le_hostname ?E) mgr w1 = (Inr c, w2)" "GetPort c = Inr port"
    "getCoordinatedChild mem_zk mgr ''riak-c1-1'' w2 = (Inr child, w3)"
    "mw_faults w3 = []" "fmlookup (mw_nodes w3) (GetZKPath (zn_ns child)) \<noteq> None" "zn_stat child \<noteq> None"
    by (auto simp: ex_child_def bind_io_def split: prod.splits sum.splits)
  from ex_manager_started obtain pm err where pm: "NewProcessManager (le_select ?E) (le_late ?E) = Some (Some pm, err)"
    by (auto split: option.splits)
  obtain node' w4 where sd: "SetData mem_zk mgr (Some (CoordinatedData_Serialize (coordinated_data td (template_vars td)))) child w3 = (Inr (node', None), w4)"
    using mem_SetData [OF w(5-7)] by blast
  define rn where "rn = node_of t"
  have mgr: "mgr = ?mgr" using w(1) by (auto simp: NewMetadataManager_def bind_io_Inr Let_def)
  have td: "task_data t = td" using assms(2) by (rule task_data_serialized)
  have n: "NewRiakNode mem_zk t no_nodes = (Inr rn, w1)"
    using w(1) by (simp add: NewRiakNode_def assms TaskData_roundtrip bind_io_def rn_def node_of_def td mgr)
  have rn: "rn_mgr rn = mgr" "rn_taskData rn = td" "rn_TaskId rn = ''riak-c1-1''" by (simp_all add: rn_def node_of_def td assms mgr)
  have run: "\<exists>ex' w'. Node_Run mem_zk (\<lambda>_. None) ?E rn ex w1 = (Returns (Some child), ex', w')" if ex: "ec_Driver ex" for ex
  proof -
    obtain ex1 where e1: "configureRiak ?E td ex w1 = (Returns (template_vars td), ex1, w1)" "same_but_files ex ex1" using ex_prepares(1) [of td ex w1] by auto
    obtain ex2 where e2: "configureAdvanced ?E td port ex1 w2 = (Returns (), ex2, w2)" "same_but_files ex1 ex2" using ex_prepares(2) [of td port ex1 w2] by auto
    obtain ex3 where e3: "prepare ?E port ex2 w2 = (Returns (), ex3, w2)" "same_but_files ex2 ex3" using ex_prepares(3) [of port ex2 w2] by auto
    from e1(2) e2(2) e3(2) ex have d: "ec_Driver ex3" by (simp add: same_but_files_def)
    show ?thesis
      using e1(1) e2(1) e3(1) w(2-4) pm sd d
      by (simp add: Node_Run_def Node_started_def rn exec_defs result_e_def start_riak_def set_node_def setCoordinatedData_def bind_io_def Let_def)
  qed
  show thesis
    using run [of "(newExecutor\<lparr>ec_Driver := True, ec_locked := True, ec_updates := [plain_status ''riak-c1-1'' TASK_STARTING], ec_riakNode := Some rn\<rparr>)"] n
    by (auto simp: LaunchTask_def with_lock_def exec_defs newExecutor_def assms(1) Let_def intro: that)
qed
end
