(* ===== verification/Reaper.thy ===== *)
theory Reaper
  imports Go_Prelude
begin

text \<open>
  The reaper of \<^verbatim>\<open>process_manager/manager_reaper.go\<close>, which waits for the children of the process and passes
  their ends on to subscribers.
\<close>

section \<open>The reaper\<close>

text \<open>
  A subscription is a process id with the channel to tell, which buffers one notification. A signal
  SIGCHLD makes the reaper wait for one child: \<open>Some\<close> of its id and status, or an error.
\<close>

record Reaper =
  rp_subscriptions :: "(int, nat) fmap"
  rp_buffer :: "nat \<Rightarrow> (int \<times> int) option"

datatype ReaperEvent =
    SubscribePid int nat
  | UnsubscribePid int
  | SigChld "(int \<times> int) option"

definition processManagerLoop_select :: "ReaperEvent \<Rightarrow> Reaper \<Rightarrow> Reaper result" where
  "processManagerLoop_select e rp =
     (case e of
        SubscribePid pid chan \<Rightarrow>
          (case fmlookup (rp_subscriptions rp) pid of
             None \<Rightarrow> Inr (rp\<lparr>rp_subscriptions := fmupd pid chan (rp_subscriptions rp)\<rparr>)
           | Some _ \<Rightarrow> Inl (LogPanic ''Duplicate subscription for a PID''))
      | UnsubscribePid pid \<Rightarrow> Inr (rp\<lparr>rp_subscriptions := fmdrop pid (rp_subscriptions rp)\<rparr>)
      | SigChld None \<Rightarrow> Inr rp
      | SigChld (Some (waitPid, wstatus)) \<Rightarrow>
          (case fmlookup (rp_subscriptions rp) waitPid of
             None \<Rightarrow> Inr rp
           | Some chan \<Rightarrow>
               if rp_buffer rp chan = None
               then Inr (rp\<lparr>rp_buffer := (rp_buffer rp)(chan := Some (waitPid, wstatus))\<rparr>)
               else Inr (rp\<lparr>rp_subscriptions := fmdrop waitPid (rp_subscriptions rp)\<rparr>)))"

fun processManagerLoop :: "ReaperEvent list \<Rightarrow> Reaper \<Rightarrow> Reaper result" where
  "processManagerLoop [] rp = Inr rp"
| "processManagerLoop (e # es) rp = bind_result (processManagerLoop_select e rp) (processManagerLoop es)"

lemma processManagerLoop_append:
  "processManagerLoop (xs @ ys) rp = bind_result (processManagerLoop xs rp) (processManagerLoop ys)"
  by (induction xs arbitrary: rp) (simp_all add: bind_result_def split: sum.splits)

text \<open>A stretch of events that is no business of a process: neither its end nor its subscription.\<close>

fun other_pid :: "int \<Rightarrow> nat \<Rightarrow> ReaperEvent \<Rightarrow> bool" where
  "other_pid pid chan (SubscribePid p c) \<longleftrightarrow> p \<noteq> pid \<and> c \<noteq> chan"
| "other_pid pid chan (UnsubscribePid p) \<longleftrightarrow> p \<noteq> pid"
| "other_pid pid chan (SigChld r) \<longleftrightarrow> (case r of None \<Rightarrow> True | Some (p, _) \<Rightarrow> p \<noteq> pid)"

text \<open>The channel of a process belongs to it alone.\<close>

definition own_channel :: "int \<Rightarrow> nat \<Rightarrow> Reaper \<Rightarrow> bool" where
  "own_channel pid chan rp \<longleftrightarrow> (\<forall>p. fmlookup (rp_subscriptions rp) p = Some chan \<longrightarrow> p = pid)"

lemma other_select:
  assumes "other_pid pid chan e" and "own_channel pid chan rp" and "processManagerLoop_select e rp = Inr rp'"
  shows "fmlookup (rp_subscriptions rp') pid = fmlookup (rp_subscriptions rp) pid \<and>
    rp_buffer rp' chan = rp_buffer rp chan \<and> own_channel pid chan rp'"
  using assms
  by (cases e)
    (auto simp: processManagerLoop_select_def own_channel_def split: option.splits if_splits prod.splits)

lemma other_loop:
  assumes "\<forall>e \<in> set es. other_pid pid chan e" and "own_channel pid chan rp" and "processManagerLoop es rp = Inr rp'"
  shows "fmlookup (rp_subscriptions rp') pid = fmlookup (rp_subscriptions rp) pid \<and>
    rp_buffer rp' chan = rp_buffer rp chan \<and> own_channel pid chan rp'"
  using assms
proof (induction es arbitrary: rp)
  case (Cons e es)
  from Cons.prems(3) obtain rp1 where r: "processManagerLoop_select e rp = Inr rp1" "processManagerLoop es rp1 = Inr rp'" by auto
  from Cons.prems(1) have "other_pid pid chan e" "\<forall>e \<in> set es. other_pid pid chan e" by simp_all
  with other_select [OF this(1) Cons.prems(2) r(1)] Cons.IH [OF this(2) _ r(2)] show ?case by simp
qed simp

text \<open>
  C38: The end of a subscribed process reaches its subscriber. Between the subscription on a fresh channel
  and the end of the process anything may happen to other processes; the reaper then holds the exit
  status of exactly this process in that channel.
\<close>

theorem reaper_delivers:
  assumes "own_channel pid chan rp" and "rp_buffer rp chan = None"
    and "\<forall>e \<in> set es. other_pid pid chan e"
    and "processManagerLoop (SubscribePid pid chan # es @ [SigChld (Some (pid, status))]) rp = Inr rp'"
  shows "rp_buffer rp' chan = Some (pid, status)"
proof -
  from assms(4) obtain rp1 rp2 where r: "processManagerLoop_select (SubscribePid pid chan) rp = Inr rp1"
    "processManagerLoop es rp1 = Inr rp2" "processManagerLoop_select (SigChld (Some (pid, status))) rp2 = Inr rp'"
    by (auto simp: processManagerLoop_append)
  from r(1) assms(1) have "rp_buffer rp1 chan = rp_buffer rp chan" "fmlookup (rp_subscriptions rp1) pid = Some chan"
    "own_channel pid chan rp1"
    by (auto simp: processManagerLoop_select_def own_channel_def split: option.splits if_splits)
  with other_loop [OF assms(3) _ r(2)] r(3) assms(2) show ?thesis
    by (auto simp: processManagerLoop_select_def)
qed

definition ex_reaper :: Reaper where
  "ex_reaper = \<lparr>rp_subscriptions = fmempty, rp_buffer = (\<lambda>_. None)\<rparr>"

theorem reaper_delivers_witness:
  "own_channel 7 1 ex_reaper \<and> (\<exists>rp'. processManagerLoop (SubscribePid 7 1 # [SigChld (Some (8, 0))] @ [SigChld (Some (7, 3))]) ex_reaper
     = Inr rp' \<and> rp_buffer rp' 1 = Some (7, 3))"
proof -
  have p: "own_channel 7 1 ex_reaper" "rp_buffer ex_reaper 1 = None" "\<forall>e \<in> set [SigChld (Some (8, 0))]. other_pid 7 1 e"
    by (simp_all add: own_channel_def ex_reaper_def)
  obtain rp' where r: "processManagerLoop (SubscribePid 7 1 # [SigChld (Some (8, 0))] @ [SigChld (Some (7, 3))]) ex_reaper = Inr rp'"
    by (auto simp: processManagerLoop_select_def ex_reaper_def)
  from reaper_delivers [OF p r] p(1) r show ?thesis by blast
qed

text \<open>
  A process that ends before its manager has subscribed is lost: the reaper collects it, tells nobody,
  and the channel subscribed afterwards stays empty however long its manager waits.
\<close>

theorem early_exit_lost:
  assumes "fmlookup (rp_subscriptions rp) pid = None" and "own_channel pid chan rp" and "rp_buffer rp chan = None"
    and "\<forall>e \<in> set es. other_pid pid chan e"
    and "processManagerLoop (SigChld (Some (pid, status)) # SubscribePid pid chan # es) rp = Inr rp'"
  shows "rp_buffer rp' chan = None"
proof -
  from assms(5,1) obtain rp1 where r: "processManagerLoop_select (SubscribePid pid chan) rp = Inr rp1"
    "processManagerLoop es rp1 = Inr rp'"
    by (auto simp: processManagerLoop_select_def [of "SigChld _"])
  from r(1) assms(2) have "rp_buffer rp1 chan = rp_buffer rp chan" "own_channel pid chan rp1"
    by (auto simp: processManagerLoop_select_def own_channel_def split: option.splits if_splits)
  with other_loop [OF assms(4) _ r(2)] assms(3) show ?thesis by simp
qed

theorem early_exit_lost_witness:
  "\<exists>rp'. processManagerLoop (SigChld (Some (7, 3)) # SubscribePid 7 1 # [SigChld (Some (8, 0))]) ex_reaper = Inr rp' \<and>
     rp_buffer rp' 1 = None"
proof -
  have p: "fmlookup (rp_subscriptions ex_reaper) 7 = None" "own_channel 7 1 ex_reaper" "rp_buffer ex_reaper 1 = None"
    "\<forall>e \<in> set [SigChld (Some (8, 0))]. other_pid 7 1 e"
    by (simp_all add: own_channel_def ex_reaper_def)
  obtain rp' where r: "processManagerLoop (SigChld (Some (7, 3)) # SubscribePid 7 1 # [SigChld (Some (8, 0))]) ex_reaper = Inr rp'"
    by (auto simp: processManagerLoop_select_def ex_reaper_def)
  from early_exit_lost [OF p r] r show ?thesis by blast
qed

end
