(* ===== verification/Process_Attributes.thy ===== *)
theory Process_Attributes
  imports Go_Prelude
begin

text \<open>
  What a process is started with, \<^verbatim>\<open>process_manager/manager_linux.go\<close>: its environment, in which PATH names the
  usual directories and HOME is set, and the limit on the files it may open.
\<close>

section \<open>The environment\<close>

text \<open>\<^verbatim>\<open>os.Getenv\<close>: the value of the first entry for the name, which ends at its first equality sign.\<close>

fun getenv :: "string list \<Rightarrow> string \<Rightarrow> string" where
  "getenv [] name = []"
| "getenv (entry # env) name =
     (let key = takeWhile (\<lambda>c. c \<noteq> CHR ''='') entry
      in if key = name \<and> CHR ''='' \<in> set entry then drop (length key + 1) entry else getenv env name)"

definition usual_dirs :: "string list" where
  "usual_dirs = [''/usr/local/sbin'', ''/usr/local/bin'', ''/usr/sbin'', ''/usr/bin'', ''/sbin:/bin'', ''/usr/games'',
     ''/usr/local/games'']"

definition extend_path :: "string \<Rightarrow> string" where
  "extend_path path = ''PATH='' @ join_strings (split_at CHR '':'' path @ usual_dirs) '':''"

text \<open>
  The loop over the entries: the first one named PATH is replaced. The source takes the second part of the
  entry, so a value is cut at an equality sign, and an entry without one is an index out of range.
\<close>

fun fix_path :: "string list \<Rightarrow> (string list \<times> bool) result" where
  "fix_path [] = Inr ([], False)"
| "fix_path (val # env) =
     (let splitArray = split_at CHR ''='' val
      in if hd splitArray = ''PATH'' then
           (if length splitArray < 2 then Inl IndexOutOfRange else Inr (extend_path (splitArray ! 1) # env, True))
         else bind_result (fix_path env) (\<lambda>(env', found). Inr (val # env', found)))"

record ProcAttr =
  pa_Env :: "string list"
  pa_Dir :: string
  pa_Setpgid :: bool

text \<open>\<open>getwd\<close> is the working directory, \<open>None\<close> when it cannot be told.\<close>

definition GetProcAttributes :: "string list \<Rightarrow> string option \<Rightarrow> ProcAttr result" where
  "GetProcAttributes environ getwd =
     bind_result
       (if getenv environ ''HOME'' = [] then
          (case getwd of
             None \<Rightarrow> Inl (LogFatal ''Could not get current working directory'')
           | Some wd \<Rightarrow> Inr (environ @ [''HOME='' @ wd], wd))
        else Inr (environ, []))
       (\<lambda>(env, dir). bind_result (fix_path env) (\<lambda>(env', pathDetected).
          Inr \<lparr>pa_Env = (if pathDetected then env'
                 else env' @ [''PATH=/usr/local/sbin:/usr/local/bin:/usr/sbin:/usr/bin:/sbin:/bin:/usr/games:/usr/local/games'']),
               pa_Dir = dir, pa_Setpgid = True\<rparr>))"

section \<open>The limit on open files\<close>

record Rlimit =
  rl_Cur :: uint64
  rl_Max :: uint64

text \<open>
  \<open>getrlimit\<close> is the limit in force or an error, \<open>setrlimit\<close> the error of setting one. The result is the
  limit in force afterwards, where it is known, and the error.
\<close>

definition setOpenFilesLimit ::
  "string + Rlimit \<Rightarrow> (Rlimit \<Rightarrow> string option) \<Rightarrow> uint64 \<Rightarrow> uint64 \<Rightarrow> Rlimit option \<times> string option" where
  "setOpenFilesLimit getrlimit setrlimit cur hard =
     (case getrlimit of
        Inl err \<Rightarrow> (None, Some err)
      | Inr rLimit \<Rightarrow>
          if rl_Cur rLimit < cur \<or> rl_Max rLimit < hard then
            let rLimit1 = (if cur > rl_Cur rLimit then rLimit\<lparr>rl_Cur := cur\<rparr> else rLimit);
                rLimit2 = (if hard > rl_Max rLimit1 then rLimit1\<lparr>rl_Max := hard\<rparr> else rLimit1)
            in (case setrlimit rLimit2 of
                  Some err \<Rightarrow> (Some rLimit, Some err)
                | None \<Rightarrow> (Some rLimit2, None))
          else (Some rLimit, None))"

definition openFilesLimit :: uint64 where
  "openFilesLimit = 65536"

section \<open>Starting\<close>

text \<open>
  \<^verbatim>\<open>filepath.Join\<close>: the path is cleaned, that is, empty and dot components are dropped and two dots take the component
  before them away.
\<close>

fun clean_components :: "bool \<Rightarrow> string list \<Rightarrow> string list \<Rightarrow> string list" where
  "clean_components rooted seen [] = rev seen"
| "clean_components rooted seen (c # cs) =
     (if c = [] \<or> c = ''.'' then clean_components rooted seen cs
      else if c = ''..'' then
        (case seen of
           [] \<Rightarrow> clean_components rooted (if rooted then [] else [''..'']) cs
         | d # ds \<Rightarrow> clean_components rooted (if d = ''..'' then ''..'' # seen else ds) cs)
      else clean_components rooted (c # seen) cs)"

definition clean_path :: "string \<Rightarrow> string" where
  "clean_path path =
     (let rooted = (take 1 path = ''/''); parts = clean_components rooted [] (split_at CHR ''/'' path)
      in if rooted then ''/'' @ join_strings parts ''/'' else if parts = [] then ''.'' else join_strings parts ''/'')"

definition join_path :: "string list \<Rightarrow> string" where
  "join_path elems =
     (case filter (\<lambda>e. e \<noteq> []) elems of [] \<Rightarrow> [] | parts \<Rightarrow> clean_path (join_strings parts ''/''))"

text \<open>
  What starting a process meets: the limits, the environment and the directory, and the kernel's \<open>fork\<close>, which yields the
  process id.
\<close>

record StartEnv =
  se_getrlimit :: "string + Rlimit"
  se_setrlimit :: "Rlimit \<Rightarrow> string option"
  se_environ :: "string list"
  se_getwd :: "string option"
  se_fork :: "string \<Rightarrow> string list \<Rightarrow> ProcAttr \<Rightarrow> int option"

text \<open>\<open>doStart\<close>: an error of the limit is only logged; when the start fails the goroutine panics.\<close>

definition doStart :: "StartEnv \<Rightarrow> string \<Rightarrow> string list \<Rightarrow> ProcAttr \<Rightarrow> (int \<times> Rlimit option) result" where
  "doStart E executablePath args procattr =
     (let (limit, err) = setOpenFilesLimit (se_getrlimit E) (se_setrlimit E) openFilesLimit openFilesLimit
      in case se_fork E executablePath args procattr of
           None \<Rightarrow> Inl (LogPanic ''Error starting process'')
         | Some pid \<Rightarrow> Inr (pid, limit))"

definition maybeChroot :: "StartEnv \<Rightarrow> string \<Rightarrow> string list \<Rightarrow> string option \<Rightarrow> bool \<Rightarrow> (int \<times> Rlimit option) result" where
  "maybeChroot E executablePath args chroot useSuperChroot =
     (case chroot of
        None \<Rightarrow> Inl NilDereference
      | Some jail \<Rightarrow>
          let path = join_path [jail, executablePath]
          in bind_result (GetProcAttributes (se_environ E) (se_getwd E)) (\<lambda>procattr. doStart E path (path # args) procattr))"

definition process_start :: "StartEnv \<Rightarrow> string \<Rightarrow> string list \<Rightarrow> string option \<Rightarrow> bool \<Rightarrow> (int \<times> Rlimit option) result" where
  "process_start E executablePath args chroot useSuperChroot = maybeChroot E executablePath args chroot useSuperChroot"

section \<open>What they guarantee\<close>

definition entry_name :: "string \<Rightarrow> string" where
  "entry_name entry = hd (split_at CHR ''='' entry)"

definition named :: "string \<Rightarrow> bool" where
  "named entry \<longleftrightarrow> CHR ''='' \<in> set entry"

lemma named_split:
  assumes "named entry"
  obtains v where "split_at CHR ''='' entry = entry_name entry # v" "v \<noteq> []" "entry = entry_name entry @ CHR ''='' # join_strings v ''=''"
proof -
  from assms obtain p s where e: "entry = p @ CHR ''='' # s" "CHR ''='' \<notin> set p"
    unfolding named_def by (meson split_list_first)
  then have "split_at CHR ''='' entry = p # split_at CHR ''='' s" by (simp add: split_at_part)
  then show thesis using e(1) join_split_at [of "CHR ''=''" s]
    by (intro that [of "split_at CHR ''='' s"]) (simp_all add: entry_name_def)
qed

text \<open>The directories of a PATH entry, and those every entry has after the loop.\<close>

definition path_dirs :: "string \<Rightarrow> string set" where
  "path_dirs entry = set (split_at CHR '':'' (drop 5 entry))"

definition needed_dirs :: "string set" where
  "needed_dirs = {''/usr/local/sbin'', ''/usr/local/bin'', ''/usr/sbin'', ''/usr/bin'', ''/sbin'', ''/bin'', ''/usr/games'', ''/usr/local/games''}"

lemma extend_path_dirs: "path_dirs (extend_path p) = set (split_at CHR '':'' p) \<union> needed_dirs"
proof -
  let ?u = "[''/usr/local/sbin'', ''/usr/local/bin'', ''/usr/sbin'', ''/usr/bin'', ''/sbin'', ''/bin'', ''/usr/games'', ''/usr/local/games'']"
  have u: "join_strings usual_dirs '':'' = join_strings ?u '':''" by (simp add: usual_dirs_def)
  have j: "xs \<noteq> [] \<Longrightarrow> ys \<noteq> [] \<Longrightarrow> join_strings (xs @ ys) s = join_strings xs s @ s @ join_strings ys s" for xs ys s
    by (induction xs s rule: join_strings.induct) (auto simp: neq_Nil_conv)
  have "join_strings (split_at CHR '':'' p @ usual_dirs) '':'' = join_strings (split_at CHR '':'' p @ ?u) '':''"
    by (subst (1 2) j) (simp_all add: u, simp add: usual_dirs_def)
  moreover have "split_at CHR '':'' (join_strings (split_at CHR '':'' p @ ?u) '':'') = split_at CHR '':'' p @ ?u"
    by (rule split_at_join) (auto dest: split_at_no_sep)
  ultimately show ?thesis by (simp add: path_dirs_def extend_path_def needed_dirs_def)
qed

lemma fix_path_named:
  assumes "\<forall>e \<in> set env. named e"
  shows "\<exists>env' found. fix_path env = Inr (env', found) \<and>
    filter (\<lambda>e. entry_name e \<noteq> ''PATH'') env' = filter (\<lambda>e. entry_name e \<noteq> ''PATH'') env \<and> length env' = length env \<and>
    (if found then \<exists>e \<in> set env'. needed_dirs \<subseteq> path_dirs e \<and> entry_name e = ''PATH''
     else env' = env \<and> ''PATH'' \<notin> entry_name ` set env)"
  using assms
proof (induction env)
  case (Cons val env)
  have "named val" using Cons.prems by simp
  then obtain v where v: "split_at CHR ''='' val = entry_name val # v" "v \<noteq> []" by (rule named_split)
  show ?case
  proof (cases "entry_name val = ''PATH''")
    case True
    have n: "entry_name (extend_path p) = ''PATH''" for p
      unfolding entry_name_def extend_path_def using split_at_part [of "CHR ''=''" "''PATH''"] by simp
    have "fix_path (val # env) = Inr (extend_path (v ! 0) # env, True)"
      using True v by (simp add: Let_def)
    with n True show ?thesis by (auto simp: extend_path_dirs)
  next
    case False
    from Cons obtain env' found where "fix_path env = Inr (env', found)"
      "filter (\<lambda>e. entry_name e \<noteq> ''PATH'') env' = filter (\<lambda>e. entry_name e \<noteq> ''PATH'') env" "length env' = length env"
      "if found then \<exists>e \<in> set env'. needed_dirs \<subseteq> path_dirs e \<and> entry_name e = ''PATH''
       else env' = env \<and> ''PATH'' \<notin> entry_name ` set env" by auto
    with False v show ?thesis by (auto simp: Let_def split: if_splits)
  qed
qed auto

text \<open>
  C40: For an environment of named entries and a known working directory, a process gets a PATH that holds
  all the usual directories, HOME is set, and every other variable is passed on as it is, in its order.
\<close>

theorem process_attributes:
  assumes "\<forall>e \<in> set environ. named e" and "wd \<noteq> []"
  shows "\<exists>pa. GetProcAttributes environ (Some wd) = Inr pa \<and>
    (\<exists>e \<in> set (pa_Env pa). entry_name e = ''PATH'' \<and> needed_dirs \<subseteq> path_dirs e) \<and>
    filter (\<lambda>e. entry_name e \<noteq> ''PATH'') (pa_Env pa) = filter (\<lambda>e. entry_name e \<noteq> ''PATH'') environ @
      (if getenv environ ''HOME'' = [] then [''HOME='' @ wd] else [])"
proof -
  define env dir where "env = environ @ (if getenv environ ''HOME'' = [] then [''HOME='' @ wd] else [])"
    and "dir = (if getenv environ ''HOME'' = [] then wd else [])"
  have "named (''HOME='' @ wd)" by (simp add: named_def)
  with assms(1) have "\<forall>e \<in> set env. named e" by (auto simp: env_def)
  then obtain env' found where f: "fix_path env = Inr (env', found)"
    "filter (\<lambda>e. entry_name e \<noteq> ''PATH'') env' = filter (\<lambda>e. entry_name e \<noteq> ''PATH'') env"
    "if found then \<exists>e \<in> set env'. needed_dirs \<subseteq> path_dirs e \<and> entry_name e = ''PATH'' else env' = env"
    using fix_path_named [of env] by auto
  let ?default = "''PATH=/usr/local/sbin:/usr/local/bin:/usr/sbin:/usr/bin:/sbin:/bin:/usr/games:/usr/local/games''"
  let ?pa = "\<lparr>pa_Env = (if found then env' else env' @ [?default]), pa_Dir = dir, pa_Setpgid = True\<rparr>"
  have g: "GetProcAttributes environ (Some wd) = Inr ?pa"
    using f(1) by (simp add: GetProcAttributes_def env_def dir_def split: if_splits)
  have h: "entry_name (''HOME='' @ wd) = ''HOME''"
    unfolding entry_name_def using split_at_part [of "CHR ''=''" "''HOME''" wd] by simp
  have d: "entry_name ?default = ''PATH''" "needed_dirs \<subseteq> path_dirs ?default"
    by (simp_all add: entry_name_def path_dirs_def needed_dirs_def)
  have "\<exists>e \<in> set (pa_Env ?pa). entry_name e = ''PATH'' \<and> needed_dirs \<subseteq> path_dirs e"
    using f(3) d by auto
  moreover have "filter (\<lambda>e. entry_name e \<noteq> ''PATH'') (pa_Env ?pa) = filter (\<lambda>e. entry_name e \<noteq> ''PATH'') environ @
      (if getenv environ ''HOME'' = [] then [''HOME='' @ wd] else [])"
    using f(2) d(1) h by (simp add: env_def)
  ultimately show ?thesis using g by blast
qed

theorem process_attributes_witness:
  "\<exists>pa. GetProcAttributes [''HOME=/root'', ''PATH=/opt/bin'', ''LANG=C''] (Some ''/mnt'') = Inr pa \<and>
     filter (\<lambda>e. entry_name e \<noteq> ''PATH'') (pa_Env pa) = [''HOME=/root'', ''LANG=C'']"
proof -
  let ?env = "[''HOME=/root'', ''PATH=/opt/bin'', ''LANG=C'']"
  have n: "\<forall>e \<in> set ?env. named e" by (simp add: named_def)
  have "''/mnt'' \<noteq> []" by simp
  from process_attributes [OF n this] obtain pa where "GetProcAttributes ?env (Some ''/mnt'') = Inr pa"
    "filter (\<lambda>e. entry_name e \<noteq> ''PATH'') (pa_Env pa) = filter (\<lambda>e. entry_name e \<noteq> ''PATH'') ?env @
      (if getenv ?env ''HOME'' = [] then [''HOME='' @ ''/mnt''] else [])" by blast
  moreover have "filter (\<lambda>e. entry_name e \<noteq> ''PATH'') ?env = [''HOME=/root'', ''LANG=C'']" "getenv ?env ''HOME'' \<noteq> []"
    by (simp_all add: entry_name_def)
  ultimately show ?thesis by auto
qed

text \<open>
  The limit on open files is only ever raised. Without an error both limits are at least what was asked
  for and at least what they were, the hard limit is still no lower than the soft one, and nothing was set
  when they were high enough; with an error the limit in force has not changed.
\<close>

theorem open_files_limit:
  assumes "setOpenFilesLimit (Inr rl) setrlimit cur hard = (Some rl', err)"
  shows "(err = None \<longrightarrow> cur \<le> rl_Cur rl' \<and> hard \<le> rl_Max rl' \<and> rl_Cur rl \<le> rl_Cur rl' \<and> rl_Max rl \<le> rl_Max rl' \<and>
      (cur \<le> hard \<longrightarrow> rl_Cur rl \<le> rl_Max rl \<longrightarrow> rl_Cur rl' \<le> rl_Max rl')) \<and>
    (err \<noteq> None \<or> cur \<le> rl_Cur rl \<and> hard \<le> rl_Max rl \<longrightarrow> rl' = rl)"
  using assms by (auto simp: setOpenFilesLimit_def Let_def split: if_splits option.splits)

theorem open_files_limit_witness:
  "\<exists>rl'. setOpenFilesLimit (Inr \<lparr>rl_Cur = 1024, rl_Max = 4096\<rparr>) (\<lambda>_. None) 65536 65536 = (Some rl', None) \<and>
     65536 \<le> rl_Cur rl' \<and> 65536 \<le> rl_Max rl'"
proof -
  obtain rl' where s: "setOpenFilesLimit (Inr \<lparr>rl_Cur = 1024, rl_Max = 4096\<rparr>) (\<lambda>_. None) 65536 65536 = (Some rl', None)"
    by (simp add: setOpenFilesLimit_def)
  from open_files_limit [OF s] s show ?thesis by blast
qed

end
