(* ===== verification/Http_Router.thy ===== *)
theory Http_Router
  imports Http_Server
begin

text \<open>
  The routes of the scheduler's HTTP server, the second half of \<^verbatim>\<open>ServeExecutorArtifact\<close> in \<^verbatim>\<open>scheduler/server.go\<close>.
  The router itself is the package \<^verbatim>\<open>gorilla/mux\<close>, whose matching of a pattern is an argument; its
  documented behaviour is the interface \<open>mux\<close> below.
\<close>

section \<open>Routes\<close>

datatype Segment = Lit string | Var

datatype Pattern = PathPrefix string | Path "Segment list"

datatype Endpoint =
    Static | Debug | ServeClusters | CreateCluster | RestartCluster | RemoveCluster | GetCluster | ServeNodes | RemoveNode_ep
  | NodeAAE | NodeStatus | NodeRingready | NodeTransfers | NodeCreateType | NodeTypes | SetConfig | GetConfig
  | SetAdvancedConfig | GetAdvancedConfig | CreateNode_ep | Healthcheck

text \<open>A route has the methods it is for, all where the list is empty.\<close>

record Route =
  rt_methods :: "string list"
  rt_pattern :: Pattern
  rt_endpoint :: Endpoint

definition route :: "string list \<Rightarrow> Segment list \<Rightarrow> Endpoint \<Rightarrow> Route" where
  "route ms path e = \<lparr>rt_methods = ms, rt_pattern = Path path, rt_endpoint = e\<rparr>"

definition clusters :: "Segment list" where
  "clusters = [Lit ''api'', Lit ''v1'', Lit ''clusters'']"

definition routes :: "Route list" where
  "routes =
     [\<lparr>rt_methods = [], rt_pattern = PathPrefix ''/static/'', rt_endpoint = Static\<rparr>,
      \<lparr>rt_methods = [], rt_pattern = PathPrefix ''/debug'', rt_endpoint = Debug\<rparr>,
      route [] clusters ServeClusters,
      route [''POST'', ''PUT''] (clusters @ [Var]) CreateCluster,
      route [''POST''] (clusters @ [Var, Lit ''restart'']) RestartCluster,
      route [''DELETE''] (clusters @ [Var]) RemoveCluster,
      route [''GET''] (clusters @ [Var]) GetCluster,
      route [''GET''] (clusters @ [Var, Lit ''nodes'']) ServeNodes,
      route [''DELETE''] (clusters @ [Var, Lit ''nodes'', Var]) RemoveNode_ep,
      route [''GET''] (clusters @ [Var, Lit ''nodes'', Var, Lit ''aae'']) NodeAAE,
      route [''GET''] (clusters @ [Var, Lit ''nodes'', Var, Lit ''status'']) NodeStatus,
      route [''GET''] (clusters @ [Var, Lit ''nodes'', Var, Lit ''ringready'']) NodeRingready,
      route [''GET''] (clusters @ [Var, Lit ''nodes'', Var, Lit ''transfers'']) NodeTransfers,
      route [''POST''] (clusters @ [Var, Lit ''nodes'', Var, Lit ''types'', Var]) NodeCreateType,
      route [''GET''] (clusters @ [Var, Lit ''nodes'', Var, Lit ''types'']) NodeTypes,
      route [''POST''] (clusters @ [Var, Lit ''config'']) SetConfig,
      route [''GET''] (clusters @ [Var, Lit ''config'']) GetConfig,
      route [''POST''] (clusters @ [Var, Lit ''advancedConfig'']) SetAdvancedConfig,
      route [''GET''] (clusters @ [Var, Lit ''advancedConfig'']) GetAdvancedConfig,
      route [''POST''] (clusters @ [Var, Lit ''nodes'']) CreateNode_ep,
      route [''GET''] [Lit ''healthcheck''] Healthcheck]"

text \<open>
  What \<open>matches\<close> yields are the variables of the path, in their order. The first route that is for the method and
  matches the path is taken.
\<close>

definition takes :: "(Pattern \<Rightarrow> string \<Rightarrow> string list option) \<Rightarrow> string \<Rightarrow> string \<Rightarrow> Route \<Rightarrow> bool" where
  "takes matches verb path r \<longleftrightarrow> (rt_methods r = [] \<or> verb \<in> set (rt_methods r)) \<and> matches (rt_pattern r) path \<noteq> None"

definition dispatch :: "(Pattern \<Rightarrow> string \<Rightarrow> string list option) \<Rightarrow> string \<Rightarrow> string \<Rightarrow> (Endpoint \<times> string list) option" where
  "dispatch matches verb path =
     (case find (takes matches verb path) routes of
        None \<Rightarrow> None
      | Some r \<Rightarrow> map_option (\<lambda>vars. (rt_endpoint r, vars)) (matches (rt_pattern r) path))"

text \<open>What a request brings beside its path, and what it meets.\<close>

record RequestEnv =
  rq_asset :: "string \<rightharpoonup> string"
  rq_uuid :: string
  rq_net :: transport
  rq_put :: "string \<Rightarrow> string \<Rightarrow> http_outcome"
  rq_body :: "string + string"

text \<open>The handlers. Files and profiles are served by other packages: \<open>None\<close>.\<close>

definition handler_of ::
  "(SchedulerData, 'w) zk_conn \<Rightarrow> RequestEnv \<Rightarrow> Endpoint \<Rightarrow> string list \<Rightarrow> (HttpResponse, 'w) handler option" where
  "handler_of Z q e vars =
     (case vars of
        [] \<Rightarrow> (case e of ServeClusters \<Rightarrow> Some serveClusters | Healthcheck \<Rightarrow> Some healthcheck | _ \<Rightarrow> None)
      | [c] \<Rightarrow>
          (case e of
             CreateCluster \<Rightarrow> Some (createCluster Z (rq_asset q) c)
           | RestartCluster \<Rightarrow> Some (restartCluster Z c)
           | RemoveCluster \<Rightarrow> Some (removeCluster Z c)
           | GetCluster \<Rightarrow> Some (getCluster c)
           | ServeNodes \<Rightarrow> Some (serveNodes c)
           | SetConfig \<Rightarrow> Some (setConfig Z c (rq_body q))
           | GetConfig \<Rightarrow> Some (getConfig c)
           | SetAdvancedConfig \<Rightarrow> Some (setAdvancedConfig Z c (rq_body q))
           | GetAdvancedConfig \<Rightarrow> Some (getAdvancedConfig c)
           | CreateNode_ep \<Rightarrow> Some (createNode Z (rq_uuid q) c)
           | _ \<Rightarrow> None)
      | [c, n] \<Rightarrow>
          (case e of
             RemoveNode_ep \<Rightarrow> Some (removeNode Z c n)
           | NodeAAE \<Rightarrow> Some (nodeAAE (rq_net q) c n)
           | NodeStatus \<Rightarrow> Some (nodeStatus (rq_net q) c n)
           | NodeRingready \<Rightarrow> Some (nodeRingready (rq_net q) c n)
           | NodeTransfers \<Rightarrow> Some (nodeTransfers (rq_net q) c n)
           | NodeTypes \<Rightarrow> Some (nodeTypes (rq_net q) c n)
           | _ \<Rightarrow> None)
      | [c, n, t] \<Rightarrow> (case e of NodeCreateType \<Rightarrow> Some (nodeCreateType (rq_put q) c n t (rq_body q)) | _ \<Rightarrow> None)
      | _ \<Rightarrow> None)"

definition ServeHTTP ::
  "(Pattern \<Rightarrow> string \<Rightarrow> string list option) \<Rightarrow> (SchedulerData, 'w) zk_conn \<Rightarrow> RequestEnv \<Rightarrow> string \<Rightarrow> string
     \<Rightarrow> (HttpResponse, 'w) handler option" where
  "ServeHTTP matches Z q verb path =
     (case dispatch matches verb path of
        None \<Rightarrow> Some (respond 404 (Text (''404 page not found'' @ [CHR 0x0A])))
      | Some (e, vars) \<Rightarrow> handler_of Z q e vars)"

section \<open>The router\<close>

text \<open>A variable of a pattern stands for one segment that is not empty.\<close>

fun match_segments :: "Segment list \<Rightarrow> string list \<Rightarrow> string list option" where
  "match_segments [] [] = Some []"
| "match_segments (Lit l # ps) (s # ss) = (if l = s then match_segments ps ss else None)"
| "match_segments (Var # ps) (s # ss) = (if s = [] then None else map_option ((#) s) (match_segments ps ss))"
| "match_segments _ _ = None"

definition segments :: "string \<Rightarrow> string list" where
  "segments path = tl (split_at CHR ''/'' path)"

locale mux =
  fixes matches :: "Pattern \<Rightarrow> string \<Rightarrow> string list option"
  assumes path_match: "take 1 path = ''/'' \<Longrightarrow> matches (Path ps) path = match_segments ps (segments path)"
    and prefix_match: "matches (PathPrefix p) path = (if take (length p) path = p then Some [] else None)"

text \<open>What is fixed of a path that a pattern matches: one check for each segment.\<close>

definition prefix_name :: "string \<Rightarrow> string" where
  "prefix_name p = takeWhile (\<lambda>c. c \<noteq> CHR ''/'') (tl p)"

fun compatible :: "Segment list \<Rightarrow> Segment list \<Rightarrow> bool" where
  "compatible [] [] = True"
| "compatible (Lit a # ps) (Lit b # qs) \<longleftrightarrow> a = b \<and> compatible ps qs"
| "compatible (p # ps) (q # qs) \<longleftrightarrow> compatible ps qs"
| "compatible _ _ = False"

fun can_both :: "Pattern \<Rightarrow> Pattern \<Rightarrow> bool" where
  "can_both (Path ps) (Path qs) = compatible ps qs"
| "can_both (PathPrefix p) (Path (Lit s # qs)) = (take (length (prefix_name p)) s = prefix_name p)"
| "can_both (Path (Lit s # qs)) (PathPrefix p) = (take (length (prefix_name p)) s = prefix_name p)"
| "can_both (PathPrefix p) (PathPrefix q) = (take (min (length (prefix_name p)) (length (prefix_name q))) (prefix_name p) =
     take (min (length (prefix_name p)) (length (prefix_name q))) (prefix_name q))"
| "can_both _ _ = True"

definition methods_meet :: "string list \<Rightarrow> string list \<Rightarrow> bool" where
  "methods_meet ms ns \<longleftrightarrow> ms = [] \<or> ns = [] \<or> list_ex (\<lambda>m. List.member ns m) ms"

fun separate :: "Route list \<Rightarrow> bool" where
  "separate [] = True"
| "separate (r # rs) \<longleftrightarrow>
     list_all (\<lambda>r'. \<not> (methods_meet (rt_methods r) (rt_methods r') \<and> can_both (rt_pattern r) (rt_pattern r'))) rs \<and> separate rs"

lemma separate_routes: "separate routes"
  by code_simp

lemma take_common:
  assumes "take (length a) h = a" and "take (length b) h = b"
  shows "take (min (length a) (length b)) a = take (min (length a) (length b)) b"
proof -
  have "take n c = take n h" if "take (length c) h = c" "n \<le> length c" for n c
    using that by (metis min.absorb1 take_take)
  with assms show ?thesis by simp
qed

lemma match_length: "match_segments ps ss = Some vars \<Longrightarrow> length ss = length ps"
  by (induction ps ss arbitrary: vars rule: match_segments.induct) (auto split: if_splits)

lemma match_compatible: "match_segments ps ss \<noteq> None \<Longrightarrow> match_segments qs ss \<noteq> None \<Longrightarrow> compatible ps qs"
proof (induction ps qs arbitrary: ss rule: list_induct2')
  case (4 p ps q qs)
  then show ?case by (cases ss; cases p; cases q) (auto split: if_splits)
qed (auto dest!: match_length)

lemma hd_split_at: "hd (split_at sep s) = takeWhile (\<lambda>c. c \<noteq> sep) s"
  by (induction s) (auto split: list.splits)

lemma prefix_segment:
  assumes "take (length p) path = p" and "take 1 p = ''/''"
  shows "segments path \<noteq> [] \<and> take (length (prefix_name p)) (hd (segments path)) = prefix_name p"
proof -
  from assms obtain q where p: "p = CHR ''/'' # q" by (cases p) auto
  with assms(1) obtain x where x: "path = CHR ''/'' # x" "take (length q) x = q" by (cases path) auto
  let ?n = "prefix_name p"
  have n: "?n = takeWhile (\<lambda>c. c \<noteq> CHR ''/'') q" by (simp add: prefix_name_def p)
  obtain r where "x = q @ r" using x(2) by (metis append_take_drop_id)
  moreover obtain t where "q = ?n @ t" unfolding n by (metis takeWhile_dropWhile_id)
  ultimately have "x = ?n @ t @ r" by simp
  moreover have "\<forall>c \<in> set ?n. c \<noteq> CHR ''/''" unfolding n by (auto dest: set_takeWhileD)
  ultimately have "takeWhile (\<lambda>c. c \<noteq> CHR ''/'') x = ?n @ takeWhile (\<lambda>c. c \<noteq> CHR ''/'') (t @ r)"
    by (simp add: takeWhile_append)
  moreover have "segments path = split_at CHR ''/'' x" by (simp add: segments_def x(1))
  ultimately show ?thesis by (simp add: hd_split_at)
qed

definition concrete_mux :: "Pattern \<Rightarrow> string \<Rightarrow> string list option" where
  "concrete_mux p path =
     (case p of PathPrefix s \<Rightarrow> if take (length s) path = s then Some [] else None
      | Path ps \<Rightarrow> match_segments ps (segments path))"

interpretation gorilla: mux concrete_mux
  by unfold_locales (simp_all add: concrete_mux_def)

context mux begin

text \<open>Two routes that a request can take are one and the same.\<close>

lemma patterns_meet:
  assumes "take 1 path = ''/''" and "matches p path \<noteq> None" and "matches q path \<noteq> None"
    and "\<forall>s. p = PathPrefix s \<or> q = PathPrefix s \<longrightarrow> take 1 s = ''/''"
  shows "can_both p q"
proof (cases p; cases q)
  fix ps qs assume "p = Path ps" "q = Path qs"
  with assms(2,3) match_compatible show ?thesis by (simp add: path_match [OF assms(1)])
next
  fix s qs assume e: "p = PathPrefix s" "q = Path qs"
  from e assms prefix_segment [of s path] have "segments path \<noteq> []" "take (length (prefix_name s)) (hd (segments path)) = prefix_name s"
    by (auto simp: prefix_match split: if_splits)
  with e assms(3) show ?thesis
    by (cases qs; cases "hd qs"; cases "segments path") (auto simp: path_match [OF assms(1)] split: if_splits)
next
  fix s ps assume e: "p = Path ps" "q = PathPrefix s"
  from e assms prefix_segment [of s path] have "segments path \<noteq> []" "take (length (prefix_name s)) (hd (segments path)) = prefix_name s"
    by (auto simp: prefix_match split: if_splits)
  with e assms(2) show ?thesis
    by (cases ps; cases "hd ps"; cases "segments path") (auto simp: path_match [OF assms(1)] split: if_splits)
next
  fix s t assume e: "p = PathPrefix s" "q = PathPrefix t"
  from e assms prefix_segment [of s path] prefix_segment [of t path]
  have "take (length (prefix_name s)) (hd (segments path)) = prefix_name s" "take (length (prefix_name t)) (hd (segments path)) = prefix_name t"
    by (auto simp: prefix_match split: if_splits)
  with e take_common show ?thesis by simp
qed

end

lemma methods_meetI:
  "rt_methods r = [] \<or> verb \<in> set (rt_methods r) \<Longrightarrow> rt_methods r' = [] \<or> verb \<in> set (rt_methods r') \<Longrightarrow>
    methods_meet (rt_methods r) (rt_methods r')"
  by (auto simp: methods_meet_def list_ex_iff)

lemma routes_prefixes: "\<forall>r \<in> set routes. \<forall>s. rt_pattern r = PathPrefix s \<longrightarrow> take 1 s = ''/''"
  by (simp add: routes_def route_def)

lemma find_separate:
  assumes "separate rs" and "r \<in> set rs" and "P r"
    and "\<And>r1 r2. r1 \<in> set rs \<Longrightarrow> r2 \<in> set rs \<Longrightarrow> P r1 \<Longrightarrow> P r2 \<Longrightarrow>
      methods_meet (rt_methods r1) (rt_methods r2) \<and> can_both (rt_pattern r1) (rt_pattern r2)"
  shows "find P rs = Some r"
  using assms
proof (induction rs)
  case (Cons r1 rs)
  show ?case
  proof (cases "P r1")
    case True
    then have "r = r1" using Cons.prems by (auto simp: list_all_iff)
    with True show ?thesis by simp
  next
    case False
    with Cons show ?thesis by auto
  qed
qed simp

fun vars_in :: "Segment list \<Rightarrow> nat" where
  "vars_in [] = 0"
| "vars_in (Var # ps) = Suc (vars_in ps)"
| "vars_in (Lit _ # ps) = vars_in ps"

lemma match_vars: "match_segments ps ss = Some vars \<Longrightarrow> length vars = vars_in ps"
  by (induction ps ss arbitrary: vars rule: match_segments.induct) (auto split: if_splits)

text \<open>
  C33: Every request that fits a route reaches its handler, with a value for every variable of its path: no route of the
  table shadows another, so the order in which they are registered does not matter. Only files and profiles
  are left to other packages.
\<close>

theorem route_reached:
  assumes "mux matches" and "r \<in> set routes" and "take 1 path = ''/''"
    and "rt_methods r = [] \<or> verb \<in> set (rt_methods r)" and "matches (rt_pattern r) path = Some vars"
  shows "dispatch matches verb path = Some (rt_endpoint r, vars) \<and>
    (ServeHTTP matches Z q verb path = None \<longleftrightarrow> rt_endpoint r = Static \<or> rt_endpoint r = Debug) \<and>
    ServeHTTP matches Z q verb path = handler_of Z q (rt_endpoint r) vars"
proof -
  have "find (takes matches verb path) routes = Some r"
  proof (rule find_separate [OF separate_routes assms(2)])
    show "takes matches verb path r" using assms(4,5) by (simp add: takes_def)
  next
    fix r1 r2 assume r: "r1 \<in> set routes" "r2 \<in> set routes" "takes matches verb path r1" "takes matches verb path r2"
    then show "methods_meet (rt_methods r1) (rt_methods r2) \<and> can_both (rt_pattern r1) (rt_pattern r2)"
      using mux.patterns_meet [OF assms(1,3), of "rt_pattern r1" "rt_pattern r2"] methods_meetI [of r1 verb r2] routes_prefixes
      unfolding takes_def by blast
  qed
  then have d: "dispatch matches verb path = Some (rt_endpoint r, vars)" using assms(5) by (simp add: dispatch_def)
  have v: "\<forall>ps. rt_pattern r = Path ps \<longrightarrow> length vars = vars_in ps"
    using assms(5) mux.path_match [OF assms(1,3)] match_vars by auto
  have "handler_of Z q (rt_endpoint r) vars = None \<longleftrightarrow> rt_endpoint r = Static \<or> rt_endpoint r = Debug"
    using assms(2) v unfolding routes_def route_def clusters_def
    by (auto simp: handler_of_def length_Suc_conv split: list.splits)
  with d show ?thesis by (simp add: ServeHTTP_def)
qed

theorem route_reached_witness:
  "dispatch concrete_mux ''DELETE'' ''/api/v1/clusters/c1/nodes/n1'' = Some (RemoveNode_ep, [''c1'', ''n1''])"
proof -
  let ?r = "route [''DELETE''] (clusters @ [Var, Lit ''nodes'', Var]) RemoveNode_ep"
  have "?r \<in> set routes" by (simp add: routes_def)
  moreover have "concrete_mux (rt_pattern ?r) ''/api/v1/clusters/c1/nodes/n1'' = Some [''c1'', ''n1'']" by code_simp
  ultimately show ?thesis
    using route_reached [OF gorilla.mux_axioms, of ?r "''/api/v1/clusters/c1/nodes/n1''" "''DELETE''" "[''c1'', ''n1'']", THEN conjunct1]
    by (simp add: route_def)
qed

end
