(* ===== verification/Registry.thy ===== *)
theory Registry
  imports Scheduler_System Http_Router
begin

text \<open>
  What the scheduler promises to those who use it over HTTP: a registry of clusters, with their
  configurations and whether they are on their way out. Requests act on the registry, offers, status updates and the loss
  of the process do not touch it, and a reconciliation pass only drops clusters that are on their way out. The
  last section shows that the scheduler with its store implements this.
\<close>

section \<open>The registry\<close>

record Entry =
  en_config :: string
  en_advanced :: string
  en_going :: bool

type_synonym Registry = "(string, Entry) fmap"

datatype Content = Nothing | Words string | Shown Entry | Listing Registry | Unspecified

datatype Reply = HttpReply int Content

datatype event =
    Http Endpoint "string list" RequestEnv
  | Register_ev "string option"
  | Reregister_ev
  | Offers_ev "nat \<Rightarrow> OfferChoice" "Offer list"
  | Status_ev "string \<Rightarrow> int \<Rightarrow> transport" "string list" "string list" "string list" TaskStatus
  | Pass_ev driver PassChoice
  | Restart_ev "string option" "string option"

definition fresh_entry :: "(string \<rightharpoonup> string) \<Rightarrow> Entry" where
  "fresh_entry asset = \<lparr>en_config = GetValue (asset ''riak.conf''), en_advanced = GetValue (asset ''advanced.config''), en_going = False\<rparr>"

definition unknown_cluster :: "Endpoint \<Rightarrow> string \<Rightarrow> Reply" where
  "unknown_cluster e k =
     HttpReply 404 (Words (if e = GetCluster then ''404 page not found'' @ [CHR 0x0A] else ''Cluster '' @ k @ '' not found''))"

text \<open>Writing a configuration, whose text may not have been readable.\<close>

definition registry_write :: "string + string \<Rightarrow> (string \<Rightarrow> Registry) \<Rightarrow> Registry \<Rightarrow> Reply \<Rightarrow> Registry \<Rightarrow> bool" where
  "registry_write body upd R r R' \<longleftrightarrow>
     (case body of
        Inl err \<Rightarrow> R' = R \<and> r = HttpReply 503 (Words (''Unable to read file:  '' @ err @ [CHR 0x0A]))
      | Inr text \<Rightarrow> R' = upd text \<and> r = HttpReply 200 (Words ''Success!''))"

fun registry_known :: "Endpoint \<Rightarrow> string \<Rightarrow> RequestEnv \<Rightarrow> Entry \<Rightarrow> Registry \<Rightarrow> Reply \<Rightarrow> Registry \<Rightarrow> bool" where
  "registry_known CreateCluster k q en R r R' \<longleftrightarrow> R' = R \<and> r = HttpReply 409 Nothing"
| "registry_known RemoveCluster k q en R r R' \<longleftrightarrow> R' = fmupd k (en\<lparr>en_going := True\<rparr>) R \<and> r = HttpReply 202 Nothing"
| "registry_known RestartCluster k q en R r R' \<longleftrightarrow> R' = R \<and> r = HttpReply 202 (Shown en)"
| "registry_known GetCluster k q en R r R' \<longleftrightarrow> R' = R \<and> r = HttpReply 200 (Shown en)"
| "registry_known GetConfig k q en R r R' \<longleftrightarrow> R' = R \<and> r = HttpReply 200 (Words (en_config en))"
| "registry_known GetAdvancedConfig k q en R r R' \<longleftrightarrow> R' = R \<and> r = HttpReply 200 (Words (en_advanced en))"
| "registry_known SetConfig k q en R r R' \<longleftrightarrow>
     registry_write (rq_body q) (\<lambda>text. fmupd k (en\<lparr>en_config := text\<rparr>) R) R r R'"
| "registry_known SetAdvancedConfig k q en R r R' \<longleftrightarrow>
     registry_write (rq_body q) (\<lambda>text. fmupd k (en\<lparr>en_advanced := text\<rparr>) R) R r R'"
| "registry_known _ k q en R r R' \<longleftrightarrow> R' = R"

definition registry_ask :: "Endpoint \<Rightarrow> string list \<Rightarrow> RequestEnv \<Rightarrow> Registry \<Rightarrow> Reply \<Rightarrow> Registry \<Rightarrow> bool" where
  "registry_ask e vars q R r R' \<longleftrightarrow>
     (case vars of
        [] \<Rightarrow> R' = R \<and> (e = ServeClusters \<longrightarrow> r = HttpReply 200 (Listing R))
      | k # _ \<Rightarrow>
          (case fmlookup R k of
             None \<Rightarrow>
               if e = CreateCluster then R' = fmupd k (fresh_entry (rq_asset q)) R \<and> r = HttpReply 200 (Shown (fresh_entry (rq_asset q)))
               else R' = R \<and> r = unknown_cluster e k
           | Some en \<Rightarrow> registry_known e k q en R r R'))"

text \<open>A pass may drop clusters that are on their way out.\<close>

definition registry_pass :: "Registry \<Rightarrow> Registry \<Rightarrow> bool" where
  "registry_pass R R' \<longleftrightarrow>
     (\<forall>k. fmlookup R' k = fmlookup R k \<or> fmlookup R' k = None \<and> (\<exists>en. fmlookup R k = Some en \<and> en_going en))"

fun registry_event :: "event \<Rightarrow> Registry \<Rightarrow> Reply option \<Rightarrow> Registry \<Rightarrow> bool" where
  "registry_event (Http e vars q) R r R' \<longleftrightarrow> (\<exists>x. r = Some x \<and> registry_ask e vars q R x R')"
| "registry_event (Pass_ev drv ch) R r R' \<longleftrightarrow> r = None \<and> registry_pass R R'"
| "registry_event _ R r R' \<longleftrightarrow> r = None \<and> R' = R"

fun registry_history :: "event list \<Rightarrow> Registry \<Rightarrow> Reply option list \<Rightarrow> Registry \<Rightarrow> bool" where
  "registry_history [] R rs R' \<longleftrightarrow> rs = [] \<and> R' = R"
| "registry_history (e # es) R rs R' \<longleftrightarrow>
     (\<exists>r rs' R1. rs = r # rs' \<and> registry_event e R r R1 \<and> registry_history es R1 rs' R')"

section \<open>The scheduler\<close>

definition entry_of :: "FrameworkRiakCluster \<Rightarrow> Entry" where
  "entry_of c = \<lparr>en_config = frc_RiakConfig c, en_advanced = frc_AdvancedConfig c, en_going = frc_IsKilled c\<rparr>"

definition registry :: "SchedulerCore \<Rightarrow> Registry" where
  "registry sc = fmmap entry_of (ss_Clusters (sc_state sc))"

fun content_of :: "Body \<Rightarrow> Content" where
  "content_of NoBody = Nothing"
| "content_of (Text t) = Words t"
| "content_of (EncodedCluster c) = Shown (entry_of c)"
| "content_of (EncodedClusters m) = Listing (fmmap entry_of m)"
| "content_of _ = Unspecified"

definition reply_of :: "HttpResponse \<Rightarrow> Reply" where
  "reply_of rsp = HttpReply (rsp_code rsp) (content_of (rsp_body rsp))"

text \<open>One event and its reply, where nothing panics; and the sequences of them.\<close>

inductive performs ::
  "(SchedulerData, 'w) zk_conn \<Rightarrow> mesosutil \<Rightarrow> event \<Rightarrow> SchedulerCore \<Rightarrow> 'w \<Rightarrow> Reply option \<Rightarrow> SchedulerCore \<Rightarrow> 'w \<Rightarrow> bool"
  for Z U where
  request: "performs Z U (Http e vars q) sc w (Some (reply_of rsp)) sc' w'"
    if "handler_of Z q e vars = Some h" and "h sc w = (Inr rsp, sc', w')"
| registering: "performs Z U (Register_ev fid) sc w None sc' w'" if "Registered Z fid sc w = (Inr (), sc', w')"
| reregistering: "performs Z U Reregister_ev sc w None sc' w'" if "Reregistered sc w = (Inr (), sc', w')"
| offered: "performs Z U (Offers_ev ch offers) sc w None sc' w'"
    if "offers_ok ch offers sc" and "ResourceOffers Z U ch offers sc w = (Inr ops, sc', w')"
| updated: "performs Z U (Status_ev net cks nks gks status) sc w None sc' w'"
    if "StatusUpdate Z net cks nks gks status sc w = (Inr out, sc', w')"
| passing: "performs Z U (Pass_ev drv ch) sc w None sc' w'"
    if "pass_ok ch sc" and "driver_running drv" and "reconcile Z U drv ch sc w = (Inr calls, sc', w')"
| restarted: "performs Z U (Restart_ev listen hostname) sc w None sc' w'"
    if "NewSchedulerCore Z listen hostname (sc_conf sc) w = (Inr sc', w')"

inductive history ::
  "(SchedulerData, 'w) zk_conn \<Rightarrow> mesosutil \<Rightarrow> event list \<Rightarrow> SchedulerCore \<Rightarrow> 'w \<Rightarrow> Reply option list \<Rightarrow> SchedulerCore \<Rightarrow> 'w \<Rightarrow> bool"
  for Z U where
  nothing: "history Z U [] sc w [] sc w"
| step: "history Z U (e # es) sc w (r # rs) sc' w'" if "performs Z U e sc w r sc1 w1" and "history Z U es sc1 w1 rs sc' w'"

section \<open>What leaves the registry alone\<close>

lemma entry_of_simps [simp]:
  "entry_of (erase_cluster c) = entry_of c" "entry_of (c\<lparr>frc_Nodes := ns\<rparr>) = entry_of c"
  "entry_of (c\<lparr>frc_Graveyard := ns\<rparr>) = entry_of c" "entry_of (c\<lparr>frc_IsRestarting := b\<rparr>) = entry_of c"
  "entry_of (c\<lparr>frc_Generation := g\<rparr>) = entry_of c"
  by (simp_all add: entry_of_def erase_cluster_def)

lemma fmmap_erased [simp]: "fmmap entry_of (fmmap erase_cluster m) = fmmap entry_of m"
  by (rule fmap_ext) (simp add: option.map_comp comp_def)

lemma registry_lookup: "fmlookup (registry sc) k = map_option entry_of (fmlookup (ss_Clusters (sc_state sc)) k)"
  by (simp add: registry_def)

lemma registry_upd:
  "ss_Clusters (sc_state sc') = fmupd k c (ss_Clusters (sc_state sc)) \<Longrightarrow> registry sc' = fmupd k (entry_of c) (registry sc)"
  by (rule fmap_ext) (simp add: registry_def)

lemma registry_same:
  assumes "ss_Clusters (sc_state sc') = fmupd k c' (ss_Clusters (sc_state sc))" and "fmlookup (ss_Clusters (sc_state sc)) k = Some c"
    and "entry_of c' = entry_of c"
  shows "registry sc' = registry sc"
  unfolding registry_upd [OF assms(1)] assms(3) by (rule fmap_ext) (auto simp: registry_lookup assms(2))


text \<open>Handlers after which the registry is what it was, whether they return or panic.\<close>

definition registry_kept :: "('a, 'w) handler \<Rightarrow> bool" where
  "registry_kept h \<longleftrightarrow> (\<forall>sc w r sc' w'. h sc w = (r, sc', w') \<longrightarrow> registry sc' = registry sc)"

lemma registry_keptD: "registry_kept h \<Longrightarrow> h sc w = (r, sc', w') \<Longrightarrow> registry sc' = registry sc"
  by (metis registry_kept_def)

lemma registry_kept_bind [intro]:
  assumes "registry_kept m" and "\<And>x. registry_kept (f x)"
  shows "registry_kept (bind_h m f)"
  unfolding registry_kept_def
proof (intro allI impI)
  fix sc w r sc' w'
  assume "bind_h m f sc w = (r, sc', w')"
  then show "registry sc' = registry sc"
    by (cases rule: bind_h_cases) (auto dest!: registry_keptD [OF assms(1)] registry_keptD [OF assms(2)])
qed

lemma registry_kept_Persist [intro]: "registry_kept (Persist Z)"
  by (auto simp: registry_kept_def Persist_def registry_def split: prod.splits sum.splits)

lemma registry_kept_after:
  assumes "bind_h (Persist Z) f sc1 w = (r, sc', w')" and "\<And>x. registry_kept (f x)"
  shows "registry sc' = registry sc1"
  using registry_keptD [OF registry_kept_bind [OF registry_kept_Persist assms(2)] assms(1)] .

lemma registry_kept_return [intro]: "registry_kept (\<lambda>sc w. (Inr x, sc, w))" "registry_kept (\<lambda>sc w. (Inl p, sc, w))" "registry_kept (respond st b)"
  by (auto simp: registry_kept_def respond_def)

lemma registry_update:
  "fmlookup (ss_Clusters (sc_state sc)) k = Some c \<Longrightarrow> entry_of c' = entry_of c \<Longrightarrow> registry (update_cluster k c' sc) = registry sc"
  by (rule registry_same [of _ k c']) (simp_all add: update_cluster_def)

subsection \<open>Offers\<close>

lemma Cluster_ApplyOffer_entry: "Cluster_ApplyOffer U rnd conf ks h c = Inr (c', h', d, n) \<Longrightarrow> entry_of c' = entry_of c"
  by (auto simp: Cluster_ApplyOffer_def bind_result_Inr_iff split: prod.splits)

lemma ApplyOffer_registry:
  assumes "fmlookup (ss_Clusters (sc_state sc)) k = Some c" and "ApplyOffer Z U ch k c h sc w = (r, sc', w')"
  shows "registry sc' = registry sc"
proof -
  have "registry sc' = registry (update_cluster k c' sc)"
    if "bind_h (Persist Z) (\<lambda>err sc2 w2. (Inr x, sc2, w2)) (update_cluster k c' sc) w = (r, sc', w')" for c' x
    using registry_kept_after [OF that] by auto
  with assms show ?thesis
    by (fastforce simp: ApplyOffer_def Let_def dest: Cluster_ApplyOffer_entry registry_update [OF assms(1)]
        split: sum.splits prod.splits if_splits)
qed

lemma offer_clusters_registry: "offer_clusters Z U ch ks h needs sc w = (r, sc', w') \<Longrightarrow> registry sc' = registry sc"
proof (induction ks arbitrary: h needs sc w)
  case (Cons k ks)
  show ?case
  proof (cases "fmlookup (ss_Clusters (sc_state sc)) k")
    case None
    with Cons show ?thesis by simp
  next
    case (Some c)
    with Cons.prems have "bind_h (ApplyOffer Z U ch k c h) (\<lambda>(h', need). offer_clusters Z U ch ks h' (needs \<or> need)) sc w = (r, sc', w')"
      by simp
    then show ?thesis
    proof (cases rule: bind_h_cases)
      case (panicked p)
      from ApplyOffer_registry [OF Some panicked(1)] show ?thesis .
    next
      case (returned x sc1 w1)
      with Cons.IH ApplyOffer_registry [OF Some returned(1)] show ?thesis by (cases x) auto
    qed
  qed
qed simp

lemma ResourceOffers_registry: "registry_kept (ResourceOffers Z U ch offers)"
proof -
  have o: "registry_kept (offer_clusters Z U c ks h needs)" for c ks h needs
    by (auto simp: registry_kept_def dest: offer_clusters_registry)
  have "registry_kept (operations_for_offer Z U c offer)" for c offer
  proof (cases "NewOfferHelper U offer")
    case (Inl p)
    then show ?thesis by (auto simp: registry_kept_def operations_for_offer_def)
  next
    case (Inr h)
    have "registry_kept (bind_h (offer_clusters Z U c (oc_clusters c) h False) (\<lambda>(h, needs) sc1 w1.
        case (if needs then Inr h else MaybeUnreserve U h) of Inl p \<Rightarrow> (Inl p, sc1, w1) | Inr h1 \<Rightarrow> (Inr (Operations U h1), sc1, w1)))"
      by (rule registry_kept_bind [OF o]) (auto simp: registry_kept_def split: sum.splits if_splits)
    then show ?thesis by (simp add: registry_kept_def operations_for_offer_def Inr)
  qed
  moreover have "registry_kept (createOperationsForOffers Z U ch i offers ops)"
    if "\<And>c offer. registry_kept (operations_for_offer Z U c offer)" for i ops
  proof (induction offers arbitrary: i ops)
    case Nil
    then show ?case by (simp add: registry_kept_def)
  next
    case (Cons offer offers)
    from registry_kept_bind [OF that Cons.IH] show ?case by (simp add: registry_kept_def)
  qed
  ultimately show ?thesis
    unfolding ResourceOffers_def by (intro registry_kept_bind) auto
qed

subsection \<open>Status updates\<close>

lemma HandleNodeStatusUpdate_entry: "HandleNodeStatusUpdate net ks status c = Inr (c', sent) \<Longrightarrow> entry_of c' = entry_of c"
  by (auto simp: HandleNodeStatusUpdate_def Let_def split: if_splits option.splits prod.splits)

lemma StatusUpdate_registry:
  assumes "StatusUpdate Z net cks nks gks status sc w = (r, sc', w')"
  shows "registry sc' = registry sc"
proof -
  have "registry sc' = registry (update_cluster k c' sc)"
    if "bind_h (Persist Z) (\<lambda>err sc2 w2. (Inr x, sc2, w2)) (update_cluster k c' sc) w = (r, sc', w')" for k c' x
    using registry_kept_after [OF that] by auto
  with assms show ?thesis
    by (fastforce simp: StatusUpdate_def dest: HandleNodeStatusUpdate_entry registry_update split: option.splits sum.splits prod.splits)
qed

subsection \<open>Passes\<close>

lemma remove_nodes_entry: "entry_of (remove_nodes m ks c) = entry_of c"
  by (induction m ks c rule: remove_nodes.induct) (auto simp: RemoveNode_def split: option.splits)

lemma GetNodesToRestart_entry: "GetNodesToRestart ks c = (c', m, d) \<Longrightarrow> entry_of c' = entry_of c"
  by (auto simp: GetNodesToRestart_def Let_def split: if_splits option.splits prod.splits)

lemma kill_cluster_entry:
  assumes "kill_cluster U drv ch k c = Inr (c', removed, dirty, calls)"
  shows "entry_of c' = entry_of c \<and> (removed \<longrightarrow> frc_IsKilled c)"
proof -
  obtain toKill m where g: "GetNodesToKillOrRemove (pc_nodes ch k) c = (toKill, m)"
    by (cases "GetNodesToKillOrRemove (pc_nodes ch k) c") auto
  obtain c2 m' d where rs: "GetNodesToRestart (pc_restart ch k) (remove_nodes m (pc_remove ch k) c) = (c2, m', d)"
    by (cases "GetNodesToRestart (pc_restart ch k) (remove_nodes m (pc_remove ch k) c)") auto
  from assms g rs have r: "removed = Cluster_CanBeRemoved (remove_nodes m (pc_remove ch k) c)" and c: "c' = c2"
    by (auto simp: kill_cluster_def bind_result_Inr_iff Let_def)
  from remove_nodes_entry [of m "pc_remove ch k" c] have "frc_IsKilled (remove_nodes m (pc_remove ch k) c) = frc_IsKilled c"
    by (simp add: entry_of_def)
  with r c GetNodesToRestart_entry [OF rs] show ?thesis by (simp add: remove_nodes_entry Cluster_CanBeRemoved_def)
qed


lemma registry_pass_refl [simp]: "registry_pass R R"
  by (simp add: registry_pass_def)

lemma registry_pass_trans: "registry_pass R R1 \<Longrightarrow> registry_pass R1 R2 \<Longrightarrow> registry_pass R R2"
  unfolding registry_pass_def by metis

lemma put_cluster_registry:
  assumes "fmlookup (ss_Clusters (sc_state sc)) k = Some c" and "frc_Name c' = k" and "entry_of c' = entry_of c"
    and "removed \<longrightarrow> frc_IsKilled c"
  shows "registry_pass (registry sc) (registry (put_cluster k removed c' sc))"
  unfolding registry_pass_def using assms by (auto simp: registry_lookup put_cluster_lookup [OF assms(2)] entry_of_def)

lemma kill_loop_registry:
  assumes "driver_running drv" and "core_ok sc" and "distinct ks"
    and "\<And>k c. k \<in> set ks \<Longrightarrow> fmlookup (ss_Clusters (sc_state sc)) k = Some c \<Longrightarrow> pass_cluster_ok ch k c"
    and "kill_loop U drv ch ks dirty calls sc w = (r, sc', w')"
  shows "registry_pass (registry sc) (registry sc')"
  using assms(2-5)
proof (induction ks arbitrary: dirty calls sc)
  case (Cons k ks)
  show ?case
  proof (cases "fmlookup (ss_Clusters (sc_state sc)) k")
    case None
    with Cons show ?thesis by simp
  next
    case (Some c)
    let ?fw = "sc_frameworkName (sc_conf sc)"
    from Cons.prems(1) Some have k: "frc_Name c = k" "cluster_ok ?fw c"
      by (auto simp: core_ok_def data_ok_def dest: clusters_okD)
    obtain c' removed d cs where kc: "kill_cluster U drv ch k c = Inr (c', removed, d, cs)" "cluster_ok ?fw c'"
      "pass_cluster U c c' removed d cs"
      using k(2) Cons.prems(3) [OF _ Some] assms(1) by (rule kill_cluster_spec [where U = U]) simp_all
    have n: "frc_Name c' = k" using kc(3) k(1) by (simp add: pass_cluster_def)
    let ?sc = "put_cluster k removed c' sc"
    have "registry_pass (registry sc) (registry ?sc)"
      using kill_cluster_entry [OF kc(1)] by (intro put_cluster_registry [OF Some n]) simp_all
    moreover have "registry_pass (registry ?sc) (registry sc')"
    proof (rule Cons.IH)
      show "core_ok ?sc" using Cons.prems(1) n kc(2) by (rule put_cluster_ok)
      show "distinct ks" using Cons.prems(2) by simp
      show "kill_loop U drv ch ks (dirty \<or> d) (calls @ cs) ?sc w = (r, sc', w')" using Cons.prems(4) Some kc(1) by simp
      show "pass_cluster_ok ch j c1" if "j \<in> set ks" "fmlookup (ss_Clusters (sc_state ?sc)) j = Some c1" for j c1
        using that Cons.prems(2,3) by (auto simp: put_cluster_lookup [OF n] split: if_splits)
    qed
    ultimately show ?thesis by (rule registry_pass_trans)
  qed
qed simp


lemma registry_serialize: "registry sc = fmmap entry_of (ss_Clusters (serialize (sc_state sc)))"
  by (simp add: registry_def serialize_def)

context scheduler_store
begin

lemma killTasks_registry:
  assumes "core_ok sc" and "pass_ok ch sc" and "driver_running drv" and "killTasks Z U drv ch sc w = (r, sc', w')"
  shows "registry_pass (registry sc) (registry sc')"
proof -
  have en: "enumerates (pc_clusters ch) (ss_Clusters (sc_state sc))" using assms(2) by (simp add: pass_ok_def)
  have loop: "registry_pass (registry sc) (registry sc1)"
    if "kill_loop U drv ch (pc_clusters ch) False [] sc w = (r1, sc1, w1)" for r1 sc1 w1
    using assms(1,2) by (intro kill_loop_registry [OF assms(3) _ enumeratesD(1) [OF en] _ that]) (simp_all add: pass_ok_def)
  from assms(4) show ?thesis
    unfolding killTasks_def
  proof (cases rule: bind_h_cases)
    case (panicked p)
    from loop [OF panicked(1)] show ?thesis .
  next
    case (returned x sc1 w1)
    obtain d cs where x: "x = (d, cs)" by force
    from returned(2) have "registry sc' = registry sc1"
      by (cases d) (auto simp: x dest!: registry_kept_after)
    with loop [OF returned(1)] show ?thesis by simp
  qed
qed

lemma reconcile_registry:
  assumes "core_ok sc" and "pass_ok ch sc" and "driver_running drv" and "reconcile Z U drv ch sc w = (r, sc', w')"
  shows "registry_pass (registry sc) (registry sc')"
  using assms
proof (cases rule: reconcile_cases)
  case (asked calls)
  then show ?thesis by (simp add: registry_serialize)
next
  case killed
  with assms(1-3) show ?thesis by (rule killTasks_registry)
qed simp

end

section \<open>Requests act on the registry\<close>

lemmas ask_defs = registry_ask_def registry_lookup unknown_cluster_def reply_of_def cluster_not_found_def node_not_found_def
  respond_def println2_def registry_write_def

context scheduler_store
begin

lemma createCluster_registry:
  assumes "core_ok sc" and "createCluster Z (rq_asset q) k sc w = (Inr rsp, sc', w')"
  shows "registry_ask CreateCluster [k] q (registry sc) (reply_of rsp) (registry sc')"
proof (cases "fmlookup (ss_Clusters (sc_state sc)) k")
  case None
  let ?c = "NewFrameworkRiakCluster (rq_asset q) k"
  from None assms(2) have b: "bind_h (Persist Z) (\<lambda>_. respond 200 (EncodedCluster (erase_cluster ?c))) (update_cluster k ?c sc) w = (Inr rsp, sc', w')"
    by (simp add: createCluster_def Let_def)
  have n: "frc_Name ?c = k" by (simp add: NewFrameworkRiakCluster_def)
  note p = change_cluster [OF assms(1) n cluster_ok_new b]
  have "registry sc' = fmupd k (entry_of ?c) (registry sc)" by (rule registry_upd) (simp add: p(3) respond_def)
  moreover have "rsp = \<lparr>rsp_code = 200, rsp_body = EncodedCluster (erase_cluster ?c)\<rparr>" using p(2) by (simp add: respond_def)
  moreover have "entry_of ?c = fresh_entry (rq_asset q)" by (simp add: entry_of_def NewFrameworkRiakCluster_def fresh_entry_def)
  ultimately show ?thesis using None by (simp add: ask_defs)
qed (use assms in \<open>auto simp: createCluster_def ask_defs\<close>)

lemma restartCluster_registry:
  assumes "core_ok sc" and "restartCluster Z k sc w = (Inr rsp, sc', w')"
  shows "registry_ask RestartCluster [k] q (registry sc) (reply_of rsp) (registry sc')"
proof (cases "fmlookup (ss_Clusters (sc_state sc)) k")
  case (Some c)
  note c = cluster_of [OF assms(1) Some]
  let ?c = "RollingRestart c"
  from Some assms(2) have b: "bind_h (Persist Z) (\<lambda>_. respond 202 (EncodedCluster (erase_cluster ?c))) (update_cluster k ?c sc) w = (Inr rsp, sc', w')"
    by (simp add: restartCluster_def Let_def)
  have ok: "frc_Name ?c = k" "cluster_ok (sc_frameworkName (sc_conf sc)) ?c"
    using c(1) cluster_ok_flags [OF c(2)] by (simp_all add: RollingRestart_def)
  have e: "entry_of ?c = entry_of c" by (simp add: RollingRestart_def)
  note p = change_cluster [OF assms(1) ok b]
  have "registry sc' = registry sc" by (rule registry_same [OF _ Some e]) (simp add: p(3) respond_def)
  moreover have "rsp = \<lparr>rsp_code = 202, rsp_body = EncodedCluster (erase_cluster ?c)\<rparr>" using p(2) by (simp add: respond_def)
  ultimately show ?thesis using Some by (simp add: ask_defs e)
qed (use assms in \<open>auto simp: restartCluster_def ask_defs\<close>)

lemma removeCluster_registry:
  assumes "core_ok sc" and "removeCluster Z k sc w = (Inr rsp, sc', w')"
  shows "registry_ask RemoveCluster [k] q (registry sc) (reply_of rsp) (registry sc')"
proof (cases "fmlookup (ss_Clusters (sc_state sc)) k")
  case (Some c)
  note p = removeCluster_cases [OF assms Some]
  have "entry_of (killed_cluster c) = (entry_of c)\<lparr>en_going := True\<rparr>"
    by (simp add: entry_of_def killed_cluster_def Cluster_KillNext_def)
  with registry_upd [OF p(2)] p(4) [of rsp] Some show ?thesis by (simp add: ask_defs)
qed (use assms in \<open>auto simp: removeCluster_def ask_defs\<close>)

lemma setConfig_registry:
  assumes "core_ok sc" and "setConfig Z k (rq_body q) sc w = (Inr rsp, sc', w')"
  shows "registry_ask SetConfig [k] q (registry sc) (reply_of rsp) (registry sc')"
proof (cases "fmlookup (ss_Clusters (sc_state sc)) k"; cases "rq_body q")
  fix c t assume c: "fmlookup (ss_Clusters (sc_state sc)) k = Some c" and b: "rq_body q = Inr t"
  note p = setConfig_cases [OF assms(1) assms(2) [unfolded b] c]
  have "entry_of (c\<lparr>frc_RiakConfig := t\<rparr>) = (entry_of c)\<lparr>en_config := t\<rparr>" by (simp add: entry_of_def)
  with registry_upd [OF p(2)] p(3) [of rsp] c b show ?thesis by (simp add: ask_defs)
qed (use assms in \<open>auto simp: setConfig_def ask_defs\<close>)

lemma setAdvancedConfig_registry:
  assumes "core_ok sc" and "setAdvancedConfig Z k (rq_body q) sc w = (Inr rsp, sc', w')"
  shows "registry_ask SetAdvancedConfig [k] q (registry sc) (reply_of rsp) (registry sc')"
proof (cases "fmlookup (ss_Clusters (sc_state sc)) k"; cases "rq_body q")
  fix c t assume c: "fmlookup (ss_Clusters (sc_state sc)) k = Some c" and b: "rq_body q = Inr t"
  note p = setAdvancedConfig_cases [OF assms(1) assms(2) [unfolded b] c]
  have "entry_of (c\<lparr>frc_AdvancedConfig := t\<rparr>) = (entry_of c)\<lparr>en_advanced := t\<rparr>" by (simp add: entry_of_def)
  with registry_upd [OF p(2)] p(3) [of rsp] c b show ?thesis by (simp add: ask_defs)
qed (use assms in \<open>auto simp: setAdvancedConfig_def ask_defs\<close>)

lemma createNode_registry:
  assumes "core_ok sc" and "createNode Z uuid k sc w = (Inr rsp, sc', w')"
  shows "registry_ask CreateNode_ep [k] q (registry sc) (reply_of rsp) (registry sc')" and "handled tree up sc w (Inr rsp) sc' w'"
proof -
  have "registry_ask CreateNode_ep [k] q (registry sc) (reply_of rsp) (registry sc') \<and> handled tree up sc w (Inr rsp) sc' w'"
  proof (cases "fmlookup (ss_Clusters (sc_state sc)) k")
    case (Some c)
    from assms(2) Some obtain c' n where n: "CreateNode (sc_conf sc) uuid c = Inr (c', n)"
      by (auto simp: createNode_def split: sum.splits)
    note p = createNode_cases [OF assms Some n]
    have "entry_of c' = entry_of c" using n by (auto simp: CreateNode_def bind_result_Inr_iff Let_def)
    with registry_same [OF p(2) Some] p(1) Some show ?thesis by (simp add: ask_defs)
  qed (use assms in \<open>auto simp: createNode_def ask_defs\<close>)
  then show "registry_ask CreateNode_ep [k] q (registry sc) (reply_of rsp) (registry sc')" "handled tree up sc w (Inr rsp) sc' w'"
    by simp_all
qed

lemma removeNode_registry:
  assumes "core_ok sc" and "removeNode Z k i sc w = (Inr rsp, sc', w')"
  shows "registry_ask RemoveNode_ep [k, i] q (registry sc) (reply_of rsp) (registry sc')"
proof (cases "fmlookup (ss_Clusters (sc_state sc)) k")
  case (Some c)
  show ?thesis
  proof (cases "fmlookup (frc_Nodes c) i")
    case n: (Some n)
    from registry_same [OF removeNode_cases(2) [OF assms Some n] Some] Some show ?thesis by (simp add: ask_defs)
  qed (use Some assms in \<open>auto simp: removeNode_def ask_defs\<close>)
qed (use assms in \<open>auto simp: removeNode_def ask_defs\<close>)

end


text \<open>A request that returned: the scheduler has kept what handlers keep and the registry has answered.\<close>

definition request_ok ::
  "('w \<Rightarrow> string \<Rightarrow> SchedulerData option option) \<Rightarrow> ('w \<Rightarrow> bool) \<Rightarrow> Endpoint \<Rightarrow> string list \<Rightarrow> RequestEnv
     \<Rightarrow> SchedulerCore \<Rightarrow> 'w \<Rightarrow> HttpResponse \<Rightarrow> SchedulerCore \<Rightarrow> 'w \<Rightarrow> bool" where
  "request_ok tree up e vars q sc w rsp sc' w' \<longleftrightarrow>
     handled tree up sc w (Inr rsp) sc' w' \<and> registry_ask e vars q (registry sc) (reply_of rsp) (registry sc')"

lemma ask_node_ok:
  assumes "core_ok sc" and "ask_node question k i sc w = (Inr rsp, sc', w')"
    and "e \<in> {NodeAAE, NodeStatus, NodeRingready, NodeTransfers, NodeTypes}"
  shows "request_ok tree up e [k, i] q sc w rsp sc' w'"
  using assms by (auto simp: request_ok_def ask_node_def ask_defs split: option.splits prod.splits)

context scheduler_store
begin

lemma changing_requests_ok:
  assumes "core_ok sc"
  shows "createCluster Z (rq_asset q) k sc w = (Inr rsp, sc', w') \<Longrightarrow> request_ok tree up CreateCluster [k] q sc w rsp sc' w'"
    and "restartCluster Z k sc w = (Inr rsp, sc', w') \<Longrightarrow> request_ok tree up RestartCluster [k] q sc w rsp sc' w'"
    and "removeCluster Z k sc w = (Inr rsp, sc', w') \<Longrightarrow> request_ok tree up RemoveCluster [k] q sc w rsp sc' w'"
    and "setConfig Z k (rq_body q) sc w = (Inr rsp, sc', w') \<Longrightarrow> request_ok tree up SetConfig [k] q sc w rsp sc' w'"
    and "setAdvancedConfig Z k (rq_body q) sc w = (Inr rsp, sc', w') \<Longrightarrow> request_ok tree up SetAdvancedConfig [k] q sc w rsp sc' w'"
    and "createNode Z (rq_uuid q) k sc w = (Inr rsp, sc', w') \<Longrightarrow> request_ok tree up CreateNode_ep [k] q sc w rsp sc' w'"
    and "removeNode Z k i sc w = (Inr rsp, sc', w') \<Longrightarrow> request_ok tree up RemoveNode_ep [k, i] q sc w rsp sc' w'"
  unfolding request_ok_def
  by (blast intro: createCluster_ok [OF assms] createCluster_registry [OF assms] restartCluster_ok [OF assms] restartCluster_registry [OF assms]
      removeCluster_ok [OF assms] removeCluster_registry [OF assms] setConfig_ok [OF assms] setConfig_registry [OF assms]
      setAdvancedConfig_ok [OF assms] setAdvancedConfig_registry [OF assms] createNode_registry [OF assms]
      removeNode_ok [OF assms] removeNode_registry [OF assms])+

lemma reading_requests_ok:
  assumes "core_ok sc"
  shows "serveClusters sc w = (Inr rsp, sc', w') \<Longrightarrow> request_ok tree up ServeClusters [] q sc w rsp sc' w'"
    and "healthcheck sc w = (Inr rsp, sc', w') \<Longrightarrow> request_ok tree up Healthcheck [] q sc w rsp sc' w'"
    and "getCluster k sc w = (Inr rsp, sc', w') \<Longrightarrow> request_ok tree up GetCluster [k] q sc w rsp sc' w'"
    and "getConfig k sc w = (Inr rsp, sc', w') \<Longrightarrow> request_ok tree up GetConfig [k] q sc w rsp sc' w'"
    and "getAdvancedConfig k sc w = (Inr rsp, sc', w') \<Longrightarrow> request_ok tree up GetAdvancedConfig [k] q sc w rsp sc' w'"
    and "serveNodes k sc w = (Inr rsp, sc', w') \<Longrightarrow> request_ok tree up ServeNodes [k] q sc w rsp sc' w'"
    and "nodeCreateType put k i t body sc w = (Inr rsp, sc', w') \<Longrightarrow> request_ok tree up NodeCreateType [k, i, t] q sc w rsp sc' w'"
  using assms
  by (auto simp: request_ok_def ask_defs serveClusters_def healthcheck_def getCluster_def getConfig_def getAdvancedConfig_def
      serveNodes_def nodeCreateType_def registry_def entry_of_def erase_cluster_def split: option.splits sum.splits prod.splits)

lemmas requests_ok = changing_requests_ok reading_requests_ok ask_node_ok

lemma request_refines:
  assumes "core_ok sc" and "handler_of Z q e vars = Some h" and "h sc w = (Inr rsp, sc', w')"
  shows "request_ok tree up e vars q sc w rsp sc' w'"
  using assms(2,3)
  by (auto simp: handler_of_def nodeAAE_def nodeStatus_def nodeRingready_def nodeTransfers_def nodeTypes_def
      intro: requests_ok [OF assms(1)] split: list.splits Endpoint.splits)

end


section \<open>The scheduler implements the registry\<close>

text \<open>A scheduler in order: well-formed, set up from its configuration, and with its state in the store.\<close>

definition in_order :: "('w \<Rightarrow> string \<Rightarrow> SchedulerData option option) \<Rightarrow> SchedulerCore \<Rightarrow> 'w \<Rightarrow> bool" where
  "in_order tree sc w \<longleftrightarrow> core_ok sc \<and> stored_ok tree sc w \<and> saved tree sc w \<and> sc_mgr sc = conf_mgr (sc_conf sc)"

lemma handled_in_order: "handled tree up sc w (Inr x) sc' w' \<Longrightarrow> in_order tree sc w \<Longrightarrow> in_order tree sc' w'"
  using handled_saved [of tree up sc w x sc' w'] by (simp add: handled_def in_order_def same_setup_def)

context scheduler_store
begin

lemma restart_registry:
  assumes "in_order tree sc w" and "NewSchedulerCore Z listen hostname (sc_conf sc) w = (Inr sc', w')"
  shows "in_order tree sc' w' \<and> registry sc' = registry sc"
proof -
  from assms(1) obtain mm where t: "tree w (state_path (conf_mgr (sc_conf sc))) = Some (Some (serialize ((sc_state sc)\<lparr>ss_MesosMaster := mm\<rparr>)))"
    by (auto simp: in_order_def saved_def)
  have "core_ok sc' \<and> stored_ok tree sc' w' \<and> saved tree sc' w' \<and> unreconciled sc'"
    using assms(1) by (intro NewSchedulerCore_ok [OF assms(2)]) (simp add: in_order_def stored_ok_def)
  moreover from t have "sc_conf sc' = sc_conf sc \<and> sc_mgr sc' = conf_mgr (sc_conf sc) \<and>
      (\<exists>n. sc_state sc' = with_node n (serialize ((sc_state sc)\<lparr>ss_MesosMaster := mm\<rparr>)))"
    by (cases rule: NewSchedulerCore_cases [OF assms(2)]) auto
  moreover have "fmmap entry_of (ss_Clusters (with_node n (serialize ((sc_state sc)\<lparr>ss_MesosMaster := mm\<rparr>)))) = registry sc" for n
    by (simp add: with_node_def serialize_def registry_def)
  ultimately show ?thesis by (auto simp: in_order_def registry_def)
qed

end

context scheduling
begin

lemma performs_refines:
  assumes "performs Z U ev sc w r sc' w'" and "in_order tree sc w"
  shows "in_order tree sc' w' \<and> registry_event ev (registry sc) r (registry sc')"
proof -
  have ok: "core_ok sc" using assms(2) by (simp add: in_order_def)
  note order = handled_in_order [OF _ assms(2)]
  from assms(1) show ?thesis
  proof cases
    case (request q e vars h rsp)
    from request_refines [OF ok request(3,4)] show ?thesis using request(1,2) order by (auto simp: request_ok_def)
  next
    case (registering fid)
    have "registry sc' = registry (sc\<lparr>sc_state := (sc_state sc)\<lparr>ss_FrameworkID := fid\<rparr>\<rparr>)"
      by (rule registry_kept_after [OF registering(3) [unfolded Registered_def]]) (simp add: registry_kept_def registry_def enable_def)
    with Registered_ok(1) [OF ok registering(3)] show ?thesis using registering(1,2) order by (simp add: registry_def)
  next
    case reregistering
    then show ?thesis using assms(2) by (auto simp: Reregistered_def in_order_def registry_def enable_def core_ok_def stored_ok_def saved_def)
  next
    case (offered ch offers ops)
    from registry_keptD [OF ResourceOffers_registry offered(4)] offers.handles [OF ok offered(3,4)] show ?thesis
      using offered(1,2) order by simp
  next
    case (updated net cks nks gks status out)
    from StatusUpdate_registry [OF updated(3)] StatusUpdate_ok [OF ok updated(3)] show ?thesis using updated(1,2) order by simp
  next
    case (passing ch drv calls)
    from reconcile_registry [OF ok passing(3-5)] reconcile_ok [OF ok passing(3-5)] show ?thesis using passing(1,2) order by simp
  next
    case (restarted listen hostname)
    from restart_registry [OF assms(2) restarted(3)] show ?thesis using restarted(1,2) by simp
  qed
qed

lemma history_refines:
  "history Z U es sc w rs sc' w' \<Longrightarrow> in_order tree sc w \<Longrightarrow>
    in_order tree sc' w' \<and> registry_history es (registry sc) rs (registry sc')"
proof (induction rule: history.induct)
  case (step e sc w r sc1 w1 es rs sc' w')
  from performs_refines [OF step(1) step.prems] step.IH show ?case by auto
qed simp

end

end
