(* ===== verification/Explorer_Replies.thy ===== *)
theory Explorer_Replies
  imports Explorer_Client Structs Float64
begin

text \<open>
  The rest of the client of Riak Explorer, \<^verbatim>\<open>riak_explorer/client.go\<close>: the commands whose replies hold more than a success and
  an error. The client ignores the error of decoding, so a reply that is not of the expected form is decoded as
  far as it goes.
\<close>

record RiakExplorerClient =
  rec_Host :: string

definition NewRiakExplorerClient :: "string \<Rightarrow> RiakExplorerClient" where
  "NewRiakExplorerClient host = \<lparr>rec_Host = host\<rparr>"

text \<open>The replies of the commands that have one of the common form; they differ in the tag of the nested struct only.\<close>

type_synonym StagedJoinReply = CommandReply
type_synonym LeaveReply = CommandReply
type_synonym StagedLeaveReply = CommandReply
type_synonym ForceRemoveReply = CommandReply
type_synonym ReplaceReply = CommandReply
type_synonym StagedReplaceReply = CommandReply
type_synonym ForceReplaceReply = CommandReply
type_synonym CommitReply = CommandReply
type_synonym ClearReply = CommandReply

section \<open>Numbers\<close>

text \<open>
  \<^verbatim>\<open>float32\<close>, as the rational number it denotes: the value of a decimal text, rounded to 24 significant bits.
\<close>

definition decimal :: "string \<Rightarrow> rat" where
  "decimal s =
     (let negative = (take 1 s = ''-''); t = (if negative then tl s else s);
          whole = takeWhile json_digit t; t1 = dropWhile json_digit t;
          frac = (if take 1 t1 = ''.'' then takeWhile json_digit (tl t1) else []);
          t2 = (if take 1 t1 = ''.'' then dropWhile json_digit (tl t1) else t1);
          e = (if t2 = [] then 0 else case parse_int (tl t2) of None \<Rightarrow> 0 | Some i \<Rightarrow> i);
          m = of_nat (undigits (whole @ frac)) * 10 powi (e - int (length frac))
      in if negative then - m else m)"

definition float32_of :: "rat \<Rightarrow> rat" where
  "float32_of x =
     (if x = 0 then 0 else let u = 2 powi (exponent \<bar>x\<bar> - 23) in of_int (round_half_even (x / u)) * u)"

definition float32_field :: "string \<Rightarrow> json option \<Rightarrow> rat" where
  "float32_field name j = (case member name j of Some (JNumber s) \<Rightarrow> float32_of (decimal s) | _ \<Rightarrow> 0)"

definition int_field :: "string \<Rightarrow> json option \<Rightarrow> int64" where
  "int_field name j = or_zero 0 (dec_int (member name j))"

definition bool_field :: "string \<Rightarrow> json option \<Rightarrow> bool" where
  "bool_field name j = or_zero False (dec_bool (member name j))"

definition strings_field :: "string \<Rightarrow> json option \<Rightarrow> string list" where
  "strings_field name j = fst (dec_strings (member name j))"

definition elements :: "json option \<Rightarrow> json list" where
  "elements j = (case j of Some (JArray vs) \<Rightarrow> vs | _ \<Rightarrow> [])"

definition links_of :: "json option \<Rightarrow> Links" where
  "links_of j = \<lparr>lk_Self = string_field ''self'' (member ''links'' j), lk_Related = string_field ''related'' (member ''links'' j)\<rparr>"

section \<open>Commands\<close>

text \<open>A command with a decoder: the reply of an error is the reply of nothing.\<close>

definition decoded :: "transport \<Rightarrow> string \<Rightarrow> (json option \<Rightarrow> 'r) \<Rightarrow> string \<Rightarrow> 'r \<times> string option" where
  "decoded net host decode commandURI =
     (let (v, err) = doGet net host commandURI
      in case err of Some e \<Rightarrow> (decode None, Some e) | None \<Rightarrow> (decode (parse_json v), None))"

record PingReply =
  pr_ID :: string
  pr_Message :: string
  pr_Links :: Links

definition decode_ping :: "json option \<Rightarrow> PingReply" where
  "decode_ping j = \<lparr>pr_ID = string_field ''id'' (member ''ping'' j), pr_Message = string_field ''message'' (member ''ping'' j),
     pr_Links = links_of j\<rparr>"

definition Ping :: "transport \<Rightarrow> string \<Rightarrow> PingReply \<times> string option" where
  "Ping net host = decoded net host decode_ping ''explore/ping''"

record NodeChangeReply =
  nc_Node :: string
  nc_Action :: string
  nc_Target :: string

definition decode_change :: "json \<Rightarrow> NodeChangeReply" where
  "decode_change v = \<lparr>nc_Node = string_field ''node'' (Some v), nc_Action = string_field ''action'' (Some v),
     nc_Target = string_field ''target'' (Some v)\<rparr>"

record PlanReply =
  pl_Changes :: "NodeChangeReply list"
  pl_Error :: string
  pl_Links :: Links

definition decode_plan :: "json option \<Rightarrow> PlanReply" where
  "decode_plan j = \<lparr>pl_Changes = map decode_change (elements (member ''changes'' (member ''plan'' j))),
     pl_Error = string_field ''error'' (member ''plan'' j), pl_Links = links_of j\<rparr>"

definition Plan :: "transport \<Rightarrow> string \<Rightarrow> string \<Rightarrow> PlanReply \<times> string option" where
  "Plan net host node = decoded net host decode_plan (''control/nodes/'' @ node @ ''/plan'')"

text \<open>The error count of a repair is read from the member \<open>failure\<close>.\<close>

record RepairReply =
  rr_Success :: int64
  rr_Error :: int64
  rr_Links :: Links

definition decode_repair :: "json option \<Rightarrow> RepairReply" where
  "decode_repair j = \<lparr>rr_Success = int_field ''success'' (member ''repair'' j), rr_Error = int_field ''failure'' (member ''repair'' j),
     rr_Links = links_of j\<rparr>"

definition Repair :: "transport \<Rightarrow> string \<Rightarrow> string \<Rightarrow> RepairReply \<times> string option" where
  "Repair net host node = decoded net host decode_repair (''control/nodes/'' @ node @ ''/repair'')"

record NodeStatusReply =
  ns_ID :: string
  ns_Status :: string
  ns_RingPercentage :: rat
  ns_PendingPercentage :: rat

definition decode_node_status :: "json \<Rightarrow> NodeStatusReply" where
  "decode_node_status v = \<lparr>ns_ID = string_field ''id'' (Some v), ns_Status = string_field ''status'' (Some v),
     ns_RingPercentage = float32_field ''ring_percentage'' (Some v), ns_PendingPercentage = float32_field ''pending_percentage'' (Some v)\<rparr>"

record StatusReply =
  sr_Nodes :: "NodeStatusReply list"
  sr_Valid :: int64
  sr_Leaving :: int64
  sr_Exiting :: int64
  sr_Joining :: int64
  sr_Down :: int64
  sr_Links :: Links

definition decode_status :: "json option \<Rightarrow> StatusReply" where
  "decode_status j =
     (let st = member ''status'' j
      in \<lparr>sr_Nodes = map decode_node_status (elements (member ''nodes'' st)), sr_Valid = int_field ''valid'' st,
          sr_Leaving = int_field ''leaving'' st, sr_Exiting = int_field ''exiting'' st, sr_Joining = int_field ''joining'' st,
          sr_Down = int_field ''down'' st, sr_Links = links_of j\<rparr>)"

definition Status :: "transport \<Rightarrow> string \<Rightarrow> string \<Rightarrow> StatusReply \<times> string option" where
  "Status net host node = decoded net host decode_status (''control/nodes/'' @ node @ ''/status'')"

record RingReadyReply =
  rg_Ready :: bool
  rg_Nodes :: "string list"
  rg_Error :: string
  rg_Links :: Links

definition decode_ringready :: "json option \<Rightarrow> RingReadyReply" where
  "decode_ringready j =
     (let rg = member ''ringready'' j
      in \<lparr>rg_Ready = bool_field ''ready'' rg, rg_Nodes = strings_field ''nodes'' rg, rg_Error = string_field ''error'' rg,
          rg_Links = links_of j\<rparr>)"

definition RingReady :: "transport \<Rightarrow> string \<Rightarrow> string \<Rightarrow> RingReadyReply \<times> string option" where
  "RingReady net host node = decoded net host decode_ringready (''control/nodes/'' @ node @ ''/ringready'')"

section \<open>Correctness\<close>

lemma decoded_ok:
  assumes "net (admin_url host uri) = Response status (print_json j)" and "200 \<le> status" and "status < 300" and "plain_json j"
  shows "decoded net host decode uri = (decode (Some j), None)"
  using assms by (simp add: decoded_def doGet_def read_response_def parse_print)

lemma decoded_error:
  "snd (decoded net host decode uri) \<noteq> None \<longleftrightarrow> \<not> (\<exists>status body. net (admin_url host uri) = Response status body \<and> 200 \<le> status \<and> status < 300)"
  "snd (decoded net host decode uri) \<noteq> None \<Longrightarrow> fst (decoded net host decode uri) = decode None"
  by (auto simp: decoded_def doGet_def read_response_def split: http_outcome.splits if_splits)

text \<open>The text of a reply as the Explorer sends it.\<close>

definition ring_ready_json :: "bool \<Rightarrow> string list \<Rightarrow> string \<Rightarrow> json" where
  "ring_ready_json ready nodes err = JObject [(''ringready'', JObject [(''ready'', JBool ready), (''nodes'', JArray (map JString nodes)),
     (''error'', JString err)])]"

text \<open>
  A reply is taken over only from a response with a success status, and then field by field as it was sent; every
  other outcome of the request is an error with the zero reply, in which the ring is not ready and no node is named.
\<close>

theorem ring_ready_reply:
  assumes "net (admin_url host (''control/nodes/'' @ node @ ''/ringready'')) = Response status (print_json (ring_ready_json ready nodes err))"
  shows "RingReady net host node =
    (if 200 \<le> status \<and> status < 300
     then (\<lparr>rg_Ready = ready, rg_Nodes = nodes, rg_Error = err, rg_Links = \<lparr>lk_Self = [], lk_Related = []\<rparr>\<rparr>, None)
     else (\<lparr>rg_Ready = False, rg_Nodes = [], rg_Error = [], rg_Links = \<lparr>lk_Self = [], lk_Related = []\<rparr>\<rparr>,
           Some (''Unknown HTTP Status: '' @ fmt_d status)))"
proof (cases "200 \<le> status \<and> status < 300")
  case True
  have "plain_json (ring_ready_json ready nodes err)" by (simp add: ring_ready_json_def)
  with assms True decoded_ok [of net host "''control/nodes/'' @ node @ ''/ringready''" status "ring_ready_json ready nodes err" decode_ringready]
  show ?thesis
    by (simp add: RingReady_def decode_ringready_def ring_ready_json_def Let_def member_def string_field_def bool_field_def
        strings_field_def links_of_def)
next
  case False
  with assms show ?thesis
    by (auto simp: RingReady_def decoded_def doGet_def read_response_def decode_ringready_def Let_def member_def string_field_def
        bool_field_def strings_field_def links_of_def dec_bool_def dec_strings_def or_zero_def)
qed

theorem ring_ready_reply_witness:
  "RingReady (\<lambda>_. Response 200 (print_json (ring_ready_json True [''riak-1@host''] []))) ''host:1'' ''riak-1@host'' =
     (\<lparr>rg_Ready = True, rg_Nodes = [''riak-1@host''], rg_Error = [], rg_Links = \<lparr>lk_Self = [], lk_Related = []\<rparr>\<rparr>, None)"
  using ring_ready_reply [of "\<lambda>_. Response 200 (print_json (ring_ready_json True [''riak-1@host''] []))" "''host:1''" "''riak-1@host''" 200 True
      "[''riak-1@host'']" "[]"] by simp

end
