(* ===== verification/Framework_Main.thy ===== *)
theory Framework_Main
  imports Scheduler_System
begin

text \<open>
  The program of the scheduler, \<^verbatim>\<open>framework/framework.go\<close>: its flags, the check of the framework's name, and the
  scheduler that is made from them and run.
\<close>

section \<open>Flags\<close>

record Flags =
  fl_useReservations :: bool
  fl_mesosMaster :: string
  fl_zookeeperAddr :: string
  fl_schedulerHostname :: string
  fl_schedulerIPAddr :: string
  fl_user :: string
  fl_logFile :: string
  fl_frameworkName :: string
  fl_frameworkRole :: string
  fl_nodeCpus :: string
  fl_nodeMem :: string
  fl_nodeDisk :: string
  fl_authProvider :: string
  fl_mesosAuthPrincipal :: string
  fl_mesosAuthSecretFile :: string

text \<open>The default provider of the authentication is a constant of the package that provides it.\<close>

definition default_flags :: "string \<Rightarrow> Flags" where
  "default_flags ProviderName = \<lparr>fl_useReservations = False, fl_mesosMaster = ''zk://master.mesos:2181/mesos'',
     fl_zookeeperAddr = ''master.mesos:2181'', fl_schedulerHostname = [], fl_schedulerIPAddr = [], fl_user = [], fl_logFile = [],
     fl_frameworkName = ''riak'', fl_frameworkRole = ''*'', fl_nodeCpus = ''1.0'', fl_nodeMem = ''16000'', fl_nodeDisk = ''20000'',
     fl_authProvider = ProviderName, fl_mesosAuthPrincipal = [], fl_mesosAuthSecretFile = []\<rparr>"

section \<open>The framework's name\<close>

definition letter :: "char \<Rightarrow> bool" where
  "letter c \<longleftrightarrow> (97 \<le> (of_char c :: nat) \<and> (of_char c :: nat) \<le> 122) \<or> (65 \<le> (of_char c :: nat) \<and> (of_char c :: nat) \<le> 90)"

definition name_char :: "char \<Rightarrow> bool" where
  "name_char c \<longleftrightarrow> letter c \<or> (48 \<le> (of_char c :: nat) \<and> (of_char c :: nat) \<le> 57) \<or> c = CHR ''-'' \<or> c = CHR ''_''"

text \<open>
  \<^verbatim>\<open>FindString\<close> of the expression, which has no anchors: from the first letter on, as far as the characters
  are allowed, and the empty text when there is no letter.
\<close>

definition find_name :: "string \<Rightarrow> string" where
  "find_name s = takeWhile name_char (dropWhile (\<lambda>c. \<not> letter c) s)"

section \<open>The program\<close>

text \<open>What the machine contributes to the scheduler's configuration and to its start.\<close>

record Machine =
  mc_createLog :: "string \<Rightarrow> bool"
  mc_PORT0 :: string
  mc_USE_SUPER_CHROOT :: string
  mc_listen :: "string \<Rightarrow> int option"
  mc_mapper :: "string option"
  mc_Hostname :: "string option"
  mc_ReadFile :: "string \<Rightarrow> string option"
  mc_LookupIP :: "string \<Rightarrow> string list option"
  mc_erlang :: bool

definition conf_of :: "Flags \<Rightarrow> Machine \<Rightarrow> SchedulerConf" where
  "conf_of F M = \<lparr>sc_frameworkName = fl_frameworkName F, sc_frameworkRole = fl_frameworkRole F,
     sc_mesosAuthPrincipal = fl_mesosAuthPrincipal F, sc_zookeepers = [fl_zookeeperAddr F], sc_nodeCpus = fl_nodeCpus F,
     sc_nodeMem = fl_nodeMem F, sc_nodeDisk = fl_nodeDisk F, sc_compatibilityMode = (\<not> fl_useReservations F),
     sc_URI = [], sc_hostURI = [], sc_riakURI = [], sc_cepmdURI = [], env_USE_SUPER_CHROOT = mc_USE_SUPER_CHROOT M,
     tag_erlang = mc_erlang M\<rparr>"

definition run_env :: "Flags \<Rightarrow> Machine \<Rightarrow> RunEnv" where
  "run_env F M = \<lparr>re_user = fl_user F, re_mesosAuthSecretFile = fl_mesosAuthSecretFile F, re_schedulerIPAddr = fl_schedulerIPAddr F,
     re_authProvider = fl_authProvider F, re_ReadFile = mc_ReadFile M, re_Hostname = mc_Hostname M, re_LookupIP = mc_LookupIP M\<rparr>"

text \<open>
  The scheduler is made from the store, then its HTTP server is started, whose addresses complete the
  configuration, and then it runs.
\<close>

definition framework_start ::
  "(SchedulerData, 'w) zk_conn \<Rightarrow> (string \<Rightarrow> SchedulerData) \<Rightarrow> (DriverConfig \<Rightarrow> bool) \<Rightarrow> Flags \<Rightarrow> Machine \<Rightarrow> (DriverConfig \<times> SchedulerCore, 'w) io" where
  "framework_start Z uri_data created F M =
     bind_io (NewSchedulerCore Z (mc_mapper M) (mc_Hostname M) (conf_of F M)) (\<lambda>sc w.
       case ServeExecutorArtifact (mc_PORT0 M) (mc_listen M) (mc_Hostname M) (fl_schedulerHostname F) (sc_conf sc) of
         Inl p \<Rightarrow> (Inl p, w)
       | Inr conf \<Rightarrow>
           (case Scheduler_Run Z uri_data (run_env F M) created (fl_mesosMaster F) (sc\<lparr>sc_conf := conf\<rparr>) w of
              (Inl p, sc2, w2) \<Rightarrow> (Inl p, w2)
            | (Inr config, sc2, w2) \<Rightarrow> (Inr (config, sc2), w2)))"

definition framework_main ::
  "(SchedulerData, 'w) zk_conn \<Rightarrow> (string \<Rightarrow> SchedulerData) \<Rightarrow> (DriverConfig \<Rightarrow> bool) \<Rightarrow> Flags \<Rightarrow> Machine \<Rightarrow> (DriverConfig \<times> SchedulerCore, 'w) io" where
  "framework_main Z uri_data created F M w =
     (if fl_logFile F \<noteq> [] \<and> \<not> mc_createLog M (fl_logFile F) then (Inl (LogPanic ''logErr''), w)
      else if find_name (fl_frameworkName F) \<noteq> fl_frameworkName F then (Inl (LogFatal ''Error, framework name not valid''), w)
      else framework_start Z uri_data created F M w)"

section \<open>The check of the name\<close>

lemma takeWhile_dropWhile_eq:
  "takeWhile P (dropWhile Q s) = s \<longleftrightarrow> s = [] \<or> \<not> Q (hd s) \<and> (\<forall>c \<in> set s. P c)"
proof (cases s)
  case (Cons c cs)
  have "length (takeWhile P (dropWhile Q cs)) \<le> length cs"
    by (meson le_trans length_dropWhile_le length_takeWhile_le)
  then have "Q c \<Longrightarrow> takeWhile P (dropWhile Q s) \<noteq> s" using Cons by (metis dropWhile.simps(2) impossible_Cons)
  with Cons show ?thesis by (auto simp: takeWhile_eq_all_conv)
qed simp

text \<open>
  C36: The program goes on only with a framework name that starts with a letter and consists of letters, digits, dashes and
  underscores, or with the empty name, although the comment at the expression asks for a letter. Such a name contains no slash,
  so the paths of the framework's nodes in the store are different for different nodes. With any other name the process ends before it has touched the store.
\<close>

theorem framework_name_checked:
  assumes "fl_logFile F = [] \<or> mc_createLog M (fl_logFile F)"
  shows "if fl_frameworkName F = [] \<or> letter (hd (fl_frameworkName F)) \<and> (\<forall>c \<in> set (fl_frameworkName F). name_char c)
    then slash_free (mgr_namespace (conf_mgr (conf_of F M))) \<and>
      framework_main Z uri_data created F M w = framework_start Z uri_data created F M w
    else framework_main Z uri_data created F M w = (Inl (LogFatal ''Error, framework name not valid''), w)"
proof -
  have v: "find_name (fl_frameworkName F) = fl_frameworkName F \<longleftrightarrow>
      fl_frameworkName F = [] \<or> letter (hd (fl_frameworkName F)) \<and> (\<forall>c \<in> set (fl_frameworkName F). name_char c)"
    by (simp add: find_name_def takeWhile_dropWhile_eq)
  have "CHR ''/'' \<notin> set (fl_frameworkName F)" if "find_name (fl_frameworkName F) = fl_frameworkName F"
  proof -
    have "\<not> name_char CHR ''/''" by (simp add: name_char_def letter_def)
    with that show ?thesis unfolding v by auto
  qed
  then have "slash_free (mgr_namespace (conf_mgr (conf_of F M)))" if "find_name (fl_frameworkName F) = fl_frameworkName F"
    using that by (simp add: mgr_namespace_def makeSubSpace_def conf_mgr_def conf_of_def)
  then show ?thesis
    using assms v by (auto simp: framework_main_def)
qed

definition ex_machine :: Machine where
  "ex_machine = \<lparr>mc_createLog = (\<lambda>_. True), mc_PORT0 = [], mc_USE_SUPER_CHROOT = [], mc_listen = (\<lambda>_. Some 31),
     mc_mapper = Some ''127.0.0.1:32'', mc_Hostname = Some ''host'', mc_ReadFile = (\<lambda>_. None), mc_LookupIP = (\<lambda>_. None), mc_erlang = False\<rparr>"

theorem framework_name_checked_witness:
  "\<exists>w. framework_main mem_zk (\<lambda>_. emptySchedulerState) (\<lambda>_. True) ((default_flags ''SASL'')\<lparr>fl_frameworkName := ''a/b''\<rparr>) ex_machine w =
     (Inl (LogFatal ''Error, framework name not valid''), w)"
proof -
  let ?F = "(default_flags ''SASL'')\<lparr>fl_frameworkName := ''a/b''\<rparr>"
  have "\<not> name_char CHR ''/''" by (simp add: name_char_def letter_def)
  then have "\<not> (fl_frameworkName ?F = [] \<or> letter (hd (fl_frameworkName ?F)) \<and> (\<forall>c \<in> set (fl_frameworkName ?F). name_char c))" by simp
  moreover have "fl_logFile ?F = [] \<or> mc_createLog ex_machine (fl_logFile ?F)" by (simp add: default_flags_def)
  ultimately show ?thesis using framework_name_checked [of ?F ex_machine mem_zk "\<lambda>_. emptySchedulerState" "\<lambda>_. True"] by simp
qed

end
