(* ===== verification/Spec2Isabelle.thy ===== *)
theory Spec2Isabelle
  imports Example_Launch Reaper Process_Attributes Registry Explorer_Replies Framework_Main
begin

text \<open>
  A verification development of the Riak Mesos framework: the Go programs that run clusters of Riak nodes on
  Mesos.

  \<^bold>\<open>The program.\<close> A scheduler process registers with the Mesos master, keeps the clusters and nodes it is asked for over
  HTTP, answers resource offers by reserving resources and launching tasks, hears of its tasks by status
  updates, and saves its state in ZooKeeper before it acts on it, so that it can be started again at any time. Every five seconds a
  reconciliation pass asks the master about tasks it has not heard of, or stops and buries what is to go. A task is an executor process
  on some slave: it fetches its configuration from the scheduler, starts Riak through a process manager, runs a port
  mapper in place of Erlang's own, and reports. Scheduler and executors share ZooKeeper and the port mappers' directory in it.

  \<^bold>\<open>The theories\<close>, in the order of their imports, with the files under \<^verbatim>\<open>src/\<close> they model.
  \<^item> \<open>Go_Prelude\<close>: panics as values of a sum type, decimal printing, strings, maps met in a given order, the interfaces
    \<open>invariant_system\<close> (an invariant of a step relation holds in every reachable state) and \<open>bounded_retry\<close> (a retried operation ends). \<open>Float64\<close>: doubles as
    rounded rationals. \<open>Json\<close>, \<open>Json_Encode\<close>: reading and writing JSON text; reading is total, with fuel of twice the length of the text and one, and reads back
    what was written.
  \<^item> \<open>Mesos_Types\<close>: the messages of Mesos. \<open>Structs\<close>: \<^verbatim>\<open>common/structs.go\<close>. \<open>Port_Ranges\<close>, \<open>Offer_Helper\<close>: \<^verbatim>\<open>common/utils.go\<close> and \<^verbatim>\<open>common/offer.go\<close>,
    the accounting of an offer, with the interfaces \<open>port_codec\<close> and \<open>resource_pool\<close>.
  \<^item> \<open>Process_State\<close>, \<open>Riak_Node\<close>, \<open>Riak_Cluster\<close>: \<^verbatim>\<open>scheduler/process_state\<close>, \<^verbatim>\<open>scheduler/node.go\<close>, \<^verbatim>\<open>scheduler/cluster.go\<close>. A node is the
    record \<open>FrameworkRiakNode\<close>, a cluster \<open>FrameworkRiakCluster\<close>; \<open>node_transition\<close> is what every transition of a node keeps.
    \<open>Explorer_Client\<close>, \<open>Explorer_Replies\<close>: \<^verbatim>\<open>riak_explorer/client.go\<close>.
  \<^item> \<open>Metadata\<close>, \<open>Metadata_Delete\<close>: \<^verbatim>\<open>metadata_manager\<close>. The interface \<open>zookeeper\<close> states what ZooKeeper promises of a call, \<open>zk_retry\<close> the shape
    of the eleven attempts every operation makes; a store in memory with faults on demand provides both.
  \<^item> \<open>Cepmd_Setup\<close>, \<open>Cepmd\<close>: \<^verbatim>\<open>cepmd\<close>, the port mapper, which refines a directory from names to ports.
  \<^item> \<open>Scheduler\<close>, \<open>Callbacks\<close>, \<open>Failover\<close>, \<open>Reconcilation\<close>, \<open>Http_Server\<close>, \<open>Http_Router\<close>: \<^verbatim>\<open>scheduler/scheduler.go\<close>, \<^verbatim>\<open>state.go\<close>, \<^verbatim>\<open>reconcilation.go\<close> and
    \<^verbatim>\<open>server.go\<close>. A callback, a request or a pass is a function from the scheduler \<open>SchedulerCore\<close> and the world to a result or panic
    and both after it, as each runs under the scheduler's lock. \<open>scheduler_handler\<close> is what all of them promise: the state stays well-formed, and what
    changed has been saved. \<open>Registry\<close>: the requests as operations on an abstract registry of clusters. \<open>Scheduler_System\<close>: the process as a step relation, in which handlers, panics, losses of the
    process, starts and faults of the store follow each other in any order. \<open>Framework_Main\<close>: \<^verbatim>\<open>framework/framework.go\<close>.
  \<^item> \<open>Process_Manager\<close>, \<open>Reaper\<close>, \<open>Process_Attributes\<close>: \<^verbatim>\<open>process_manager\<close>. \<open>Executor\<close>: \<^verbatim>\<open>executor\<close>.
  \<^item> \<open>Example_Scheduler\<close>, \<open>Example_Launch\<close>: the scheduler with one cluster, and its node launched, in which the properties are applied.

  \<^bold>\<open>What is shown.\<close> Of the scheduler process: memory and store are well-formed in every reachable state; a task is launched only
  after it was saved, and a scheduler started again on the store launches it neither again nor under another framework; status updates and configurations survive; callbacks, requests
  and passes return while the store answers. Of offers: what is taken was there, and no port is given to two tasks. Of clusters: ids are fresh, what every status update does, one restart at a time, requests to a
  cluster that is not there change nothing. Of the store: what \<open>SetData\<close> and \<open>Delete\<close> have done when they return, panic
  or give up. Of the executor: what the slave is told on every outcome of a launch and of an end. Of processes: a start ends
  after at most sixty selections, everybody who waits for the end of a process is told. Of the port mappers: they are one
  directory. Across the programs: the scheduler's requests refine a registry of clusters over every history of events and restarts, and a task the
  scheduler launches ends as a node that is configured, announced and reported with the ports of its offer. Further theorems show where the code does something else than it means to.

  \<^bold>\<open>Fuel and bounds.\<close> Retries are bounded by the code: eleven attempts of a store operation, six of a request to Riak Explorer, sixty selections while a process starts; the
  recursions over them are total. Deleting a tree takes fuel, as children may appear while it runs; eleven is
  enough for a node without children. Integers that the code keeps in machine words are words.

  \<^bold>\<open>What is assumed.\<close> Texts are UTF-8. The order in which a map is met, random draws, clocks and
  the choice of a \<^verbatim>\<open>select\<close> are arguments, arbitrary in the theorems. A path of the store that a program writes is written by nobody else while it
  does; ephemeral nodes stay while their session lasts. The driver, the network, the file system, templates and the kernel are arguments.
  The scheduler's state in the store is the value its compressed JSON encodes.

  \<^bold>\<open>What is not modelled.\<close> Log lines and \<^verbatim>\<open>String\<close> methods; files and profiles, which other packages serve; the packages of files that the build
  generates; the redirection of a path with a trailing slash by the router; the Erlang modules, scripts and documents, which are not Go.
\<close>

section \<open>The scheduler process\<close>

context scheduling
begin

lemma reachable_ok: "sys_init tree conf s \<Longrightarrow> (sys_step Z tree U conf)\<^sup>*\<^sup>* s t \<Longrightarrow> sys_ok tree conf t"
  by (rule process.reach_inv)

end

text \<open>
  C1: In every state the scheduler process reaches from an empty store, running or down, through any
  sequence of callbacks, HTTP requests, passes of the reconciliation server, panics, losses of the
  process, starts and faults of the store, the state in memory and the state in the store are
  well-formed: every cluster is filed under its name, every node under its task id, ids are unique
  among living and dead nodes, ids below the counter of the cluster, states and status are legal.
\<close>

theorem scheduler_invariant:
  assumes "scheduling Z tree up U" and "sys_init tree conf s" and "(sys_step Z tree U conf)\<^sup>*\<^sup>* s t"
  shows "sys_ok tree conf t"
  using assms(2,3) by (rule scheduling.reachable_ok [OF assms(1)])

theorem scheduler_invariant_witness:
  "\<exists>w sc w'. scheduling mem_zk mem_tree (\<lambda>w. mw_faults w = []) std_util \<and> sys_init mem_tree ex_conf (Down w) \<and>
     (sys_step mem_zk mem_tree std_util ex_conf)\<^sup>*\<^sup>* (Down w) (Running sc w') \<and> sys_ok mem_tree ex_conf (Running sc w')"
proof -
  let ?w = "\<lparr>mw_nodes = fmempty, mw_faults = [], mw_conn = False\<rparr> :: SchedulerData mem_world"
  have i: "sys_init mem_tree ex_conf (Down ?w)" by (simp add: sys_init_def mem_tree_def)
  obtain sc w' where n: "NewSchedulerCore mem_zk (Some ''127.0.0.1:31'') (Some ''host'') ex_conf ?w = (Inr sc, w')"
    by (rule ex_first_start [of ?w ex_conf]) (simp_all add: mem_tree_def)
  then have s: "(sys_step mem_zk mem_tree std_util ex_conf)\<^sup>*\<^sup>* (Down ?w) (Running sc w')"
    by (intro r_into_rtranclp sys_step.start)
  from i s scheduler_invariant [OF sim.scheduling_axioms i s] sim.scheduling_axioms show ?thesis by blast
qed

section \<open>Answering offers\<close>

context scheduling
begin

text \<open>A task that is launched has changed what is saved of its node, so the answer has saved the state.\<close>

lemma task_of_saved:
  assumes "handled tree up sc w (Inr x) sc' w'" and "task_of sc sc' k t"
  shows "saved tree sc' w'"
proof (rule ccontr)
  assume "\<not> saved tree sc' w'"
  with assms(1) have u: "serialize (sc_state sc') = serialize (sc_state sc)" by (simp add: handled_def unchanged_def)
  have e: "map_option erase_node (live_node sd k i) =
      (case fmlookup (ss_Clusters (serialize (sc_state sd))) k of None \<Rightarrow> None | Some c \<Rightarrow> fmlookup (frc_Nodes c) i)" for sd i
    by (simp add: live_node_def serialize_def split: option.splits)
  have "map_option erase_node (live_node sc' k i) = map_option erase_node (live_node sc k i)" for i
    unfolding e u ..
  with assms(2) obtain n n' where "erase_node n' = erase_node n" "CanBeScheduled n" "frn_CurrentState n' = Starting"
    unfolding task_of_def by (metis option.simps(9) option.inject)
  then have "frn_CurrentState n = Starting" by (metis erase_node_simps(2))
  with \<open>CanBeScheduled n\<close> show False by (simp add: starting_settled)
qed

text \<open>What a scheduler started on a store that holds the state of another one takes over from it.\<close>

lemma restart_state:
  assumes "saved tree sc w" and "sc_mgr sc = conf_mgr conf" and "NewSchedulerCore Z listen hostname conf w = (Inr sc2, w2)"
  obtains n mm where "sc_state sc2 = with_node n (serialize ((sc_state sc)\<lparr>ss_MesosMaster := mm\<rparr>))"
proof -
  from assms(1,2) obtain mm where
    "tree w (state_path (conf_mgr conf)) = Some (Some (serialize ((sc_state sc)\<lparr>ss_MesosMaster := mm\<rparr>)))"
    by (auto simp: saved_def)
  with that show thesis by (cases rule: NewSchedulerCore_cases [OF assms(3)]) auto
qed

lemma restart_live_node:
  assumes "saved tree sc w" and "sc_mgr sc = conf_mgr conf" and "NewSchedulerCore Z listen hostname conf w = (Inr sc2, w2)"
  shows "live_node sc2 k i = map_option erase_node (live_node sc k i)"
    and "ss_FrameworkID (sc_state sc2) = ss_FrameworkID (sc_state sc)"
proof -
  from assms obtain n mm where s: "sc_state sc2 = with_node n (serialize ((sc_state sc)\<lparr>ss_MesosMaster := mm\<rparr>))"
    by (rule restart_state)
  then show "live_node sc2 k i = map_option erase_node (live_node sc k i)"
    by (rule live_node_serialize) simp
  from s show "ss_FrameworkID (sc_state sc2) = ss_FrameworkID (sc_state sc)"
    by (simp add: with_node_def serialize_def)
qed

lemma restart_cluster:
  assumes "saved tree sc w" and "sc_mgr sc = conf_mgr conf" and "NewSchedulerCore Z listen hostname conf w = (Inr sc2, w2)"
  shows "fmlookup (ss_Clusters (sc_state sc2)) k = map_option erase_cluster (fmlookup (ss_Clusters (sc_state sc)) k)"
  using assms by (rule restart_state) (simp add: with_node_def serialize_def)

lemma restart_shape:
  assumes "saved tree sc w" and "sc_mgr sc = conf_mgr conf" and "NewSchedulerCore Z listen hostname conf w = (Inr sc2, w2)"
  shows "same_shape sc sc2"
proof -
  have "fmdom (ss_Clusters (sc_state sc2)) = fmdom (ss_Clusters (sc_state sc))"
    using assms by (rule restart_state) (simp add: with_node_def serialize_def)
  with restart_live_node(1) [OF assms] show ?thesis by (simp add: same_shape_def)
qed

lemma offers_answered:
  assumes "core_ok sc" and "offers_ok ch offers sc" and "ResourceOffers Z U ch offers sc w = (Inr ps, sc', w')"
  shows "map fst ps = offers \<and> good_answers U sc sc' ps \<and> (all_tasks ps \<noteq> [] \<longrightarrow> saved tree sc' w')"
proof -
  from assms(2) have ok: "choices_ok ch sc" "list_all fresh_offer offers" "distinct (map of_Id offers)"
    by (simp_all add: offers_ok_def)
  note spec = ResourceOffers_spec [OF assms(1) ok assms(3)]
  from spec(2) [OF refl] have g: "map fst ps = offers" "good_answers U sc sc' ps" by simp_all
  have "saved tree sc' w'" if "all_tasks ps \<noteq> []"
  proof -
    from that have "hd (all_tasks ps) \<in> set (all_tasks ps)" by simp
    with g(2) obtain k where "task_of sc sc' k (hd (all_tasks ps))" unfolding good_answers_def by blast
    with spec(1) show ?thesis by (rule task_of_saved)
  qed
  with g show ?thesis by blast
qed

lemma no_double_launch:
  assumes "core_ok sc" and "stored_ok tree sc w" and "sc_mgr sc = conf_mgr (sc_conf sc)"
    and "offers_ok ch offers sc" and "ResourceOffers Z U ch offers sc w = (Inr ps, sc', w')" and "t \<in> set (all_tasks ps)"
    and "NewSchedulerCore Z listen hostname (sc_conf sc) w' = (Inr sc2, w2)"
    and "offers_ok ch2 offers2 sc2" and "ResourceOffers Z U ch2 offers2 sc2 w2 = (Inr ps2, sc3, w3)"
  shows "(\<exists>k n. live_node sc2 k (ti_TaskId t) = Some n \<and> ti_Data t = TaskData_Serialize (frn_TaskData n) \<and> frn_CurrentState n = Starting \<and>
      NeedsToBeReconciled n \<and> \<not> CanBeScheduled n) \<and> ti_TaskId t \<notin> ti_TaskId ` set (all_tasks ps2)"
proof -
  note a = offers_answered [OF assms(1,4,5)]
  from a assms(6) have sv: "saved tree sc' w'" by auto
  note h = offers.keeps_well_formed [OF assms(1,2,4,5)]
  then have m: "sc_mgr sc' = conf_mgr (sc_conf sc)" using assms(3) by (simp add: same_setup_def)
  from a assms(6) obtain k n where n: "live_node sc' k (ti_TaskId t) = Some n" "frn_CurrentState n = Starting"
    "ti_Data t = TaskData_Serialize (frn_TaskData n)" by (auto simp: good_answers_def task_of_def)
  have l: "live_node sc2 k (ti_TaskId t) = Some (erase_node n)"
    using restart_live_node(1) [OF sv m assms(7)] n(1) by simp
  have s: "\<not> CanBeScheduled (erase_node n)" "NeedsToBeReconciled (erase_node n)"
    using n(2) by (simp_all add: starting_settled NeedsToBeReconciled_def)
  have "core_ok sc2 \<and> stored_ok tree sc2 w2 \<and> saved tree sc2 w2 \<and> unreconciled sc2"
    using h assms(3) by (intro NewSchedulerCore_ok [OF assms(7)]) (auto simp: stored_ok_def same_setup_def)
  then have ok: "core_ok sc2" by simp
  have "ti_TaskId u \<noteq> ti_TaskId t" if "u \<in> set (all_tasks ps2)" for u
  proof
    assume u: "ti_TaskId u = ti_TaskId t"
    from offers_answered [OF ok assms(8,9)] that obtain j where "task_of sc2 sc3 j u"
      by (auto simp: good_answers_def)
    with u obtain n2 where n2: "live_node sc2 j (ti_TaskId t) = Some n2" "CanBeScheduled n2"
      by (auto simp: task_of_def)
    with live_node_unique [OF ok n2(1) l] l s(1) show False by simp
  qed
  then have "ti_TaskId t \<notin> ti_TaskId ` set (all_tasks ps2)" by force
  with l s n show ?thesis by (intro conjI exI [of _ k] exI [of _ "erase_node n"]) simp_all
qed

end

text \<open>
  C5: The answers to offers. Whenever \<open>ResourceOffers\<close> returns, every offer is answered, in its order;
  the tasks of one answer use distinct ports, all of them ports of that offer; no two tasks of all
  answers have the same id; each task belongs to a living node that could be scheduled before and is
  starting now with the data of the task; a node that could not be scheduled is as it was; resources are
  given back only when no living node waits to be reconciled and never in an answer that launches; and
  when anything is launched the store holds the new state before the answers are sent.
\<close>

theorem resource_offers_answered:
  assumes "scheduling Z tree up U" and "core_ok sc" and "offers_ok ch offers sc"
    and "ResourceOffers Z U ch offers sc w = (Inr ps, sc', w')"
  shows "map fst ps = offers \<and> good_answers U sc sc' ps \<and> (all_tasks ps \<noteq> [] \<longrightarrow> saved tree sc' w')"
  using assms(2-) by (rule scheduling.offers_answered [OF assms(1)])

theorem resource_offers_answered_witness:
  "scheduling mem_zk mem_tree (\<lambda>w. mw_faults w = []) std_util \<and> core_ok ex_core \<and> offers_ok (\<lambda>_. ex_choice) [ex_offer] ex_core \<and>
   (\<exists>ops sc' w' t. ResourceOffers mem_zk std_util (\<lambda>_. ex_choice) [ex_offer] ex_core ex_store = (Inr [(ex_offer, ops)], sc', w') \<and>
      launched_tasks ops = [t] \<and> ti_TaskId t = ''riak-c1-1'' \<and> good_answers std_util ex_core sc' [(ex_offer, ops)] \<and>
      saved mem_tree sc' w')"
proof -
  obtain ops sc' w' t where l:
    "ResourceOffers mem_zk std_util (\<lambda>_. ex_choice) [ex_offer] ex_core ex_store = (Inr [(ex_offer, ops)], sc', w')"
    "launched_tasks ops = [t]" "ti_TaskId t = ''riak-c1-1''" by (rule ex_launch)
  from resource_offers_answered [OF sim.scheduling_axioms ex_core_ok ex_offers_ok l(1)] l(2)
  have "good_answers std_util ex_core sc' [(ex_offer, ops)]" "saved mem_tree sc' w'"
    by (simp_all add: all_tasks_def)
  with l sim.scheduling_axioms ex_core_ok ex_offers_ok show ?thesis by blast
qed

text \<open>
  C3: No task is launched twice across a failover. When \<open>ResourceOffers\<close> has returned a task and the
  process is lost at any time afterwards, a scheduler started on that store knows the node with the same
  task data, as starting, waiting to be reconciled and not to be scheduled, and it launches no task with
  that id in answer to any offers before it has heard about the task.
\<close>

theorem failover_no_double_launch:
  assumes "scheduling Z tree up U" and "core_ok sc" and "stored_ok tree sc w" and "sc_mgr sc = conf_mgr (sc_conf sc)"
    and "offers_ok ch offers sc" and "ResourceOffers Z U ch offers sc w = (Inr ps, sc', w')" and "t \<in> set (all_tasks ps)"
    and "NewSchedulerCore Z listen hostname (sc_conf sc) w' = (Inr sc2, w2)"
    and "offers_ok ch2 offers2 sc2" and "ResourceOffers Z U ch2 offers2 sc2 w2 = (Inr ps2, sc3, w3)"
  shows "(\<exists>k n. live_node sc2 k (ti_TaskId t) = Some n \<and> ti_Data t = TaskData_Serialize (frn_TaskData n) \<and> frn_CurrentState n = Starting \<and>
      NeedsToBeReconciled n \<and> \<not> CanBeScheduled n) \<and> ti_TaskId t \<notin> ti_TaskId ` set (all_tasks ps2)"
  using assms(2-) by (rule scheduling.no_double_launch [OF assms(1)])

theorem failover_no_double_launch_witness:
  "\<exists>ops sc' w' t sc2 w2 ps2 sc3 w3. offers_ok (\<lambda>_. ex_choice) [ex_offer] ex_core \<and>
     ResourceOffers mem_zk std_util (\<lambda>_. ex_choice) [ex_offer] ex_core ex_store = (Inr [(ex_offer, ops)], sc', w') \<and>
     launched_tasks ops = [t] \<and> NewSchedulerCore mem_zk (Some ''127.0.0.1:31'') (Some ''host'') ex_conf w' = (Inr sc2, w2) \<and>
     ResourceOffers mem_zk std_util (\<lambda>_. ex_choice) [ex_offer] sc2 w2 = (Inr ps2, sc3, w3) \<and>
     ti_TaskId t = ''riak-c1-1'' \<and> ti_TaskId t \<notin> ti_TaskId ` set (all_tasks ps2)"
proof -
  obtain ops sc' w' t where l:
    "ResourceOffers mem_zk std_util (\<lambda>_. ex_choice) [ex_offer] ex_core ex_store = (Inr [(ex_offer, ops)], sc', w')"
    "launched_tasks ops = [t]" "ti_TaskId t = ''riak-c1-1''" "core_ok sc'" "ready mem_tree (\<lambda>w. mw_faults w = []) sc' w'"
    by (rule ex_launch)
  note a = sim.offers_answered [OF ex_core_ok ex_offers_ok l(1)]
  note h = sim.offers.keeps_well_formed [OF ex_core_ok ex_store_ok ex_offers_ok l(1)]
  from a l(2) have sv: "saved mem_tree sc' w'" by (simp add: all_tasks_def)
  from h have m: "sc_mgr sc' = conf_mgr ex_conf" by (simp add: same_setup_def)
  obtain sc2 w2 where n: "NewSchedulerCore mem_zk (Some ''127.0.0.1:31'') (Some ''host'') ex_conf w' = (Inr sc2, w2)" "mw_faults w2 = []"
    by (rule ex_restart [OF l(5) sv m])
  have "core_ok sc2 \<and> stored_ok mem_tree sc2 w2 \<and> saved mem_tree sc2 w2 \<and> unreconciled sc2"
    using h m by (intro memory.NewSchedulerCore_ok [OF n(1)]) (auto simp: stored_ok_def same_setup_def)
  moreover have "choice_ok ex_choice sc2"
  proof (rule choice_ok_shape)
    show "choice_ok ex_choice ex_core" using ex_offers_ok by (simp add: offers_ok_def choices_ok_def)
    have "same_shape ex_core sc'" using a by (simp add: good_answers_def)
    moreover have "same_shape sc' sc2" by (rule sim.restart_shape [OF sv m n(1)])
    ultimately show "same_shape ex_core sc2" by (rule same_shape_trans)
  qed
  moreover have "ready mem_tree (\<lambda>w. mw_faults w = []) sc2 w2"
    using n(2) by (cases rule: memory.NewSchedulerCore_cases [OF n(1)]) (simp_all add: ready_def)
  moreover from calculation have ok2: "offers_ok (\<lambda>_. ex_choice) [ex_offer] sc2"
    using ex_offers_ok by (simp add: offers_ok_def choices_ok_def)
  ultimately obtain ps2 sc3 w3 where r: "ResourceOffers mem_zk std_util (\<lambda>_. ex_choice) [ex_offer] sc2 w2 = (Inr ps2, sc3, w3)"
    using sim.offers.returns [of sc2 w2] by blast
  have t: "t \<in> set (all_tasks [(ex_offer, ops)])" using l(2) by (simp add: all_tasks_def)
  have "sc_mgr ex_core = conf_mgr (sc_conf ex_core)" and n': "NewSchedulerCore mem_zk (Some ''127.0.0.1:31'') (Some ''host'') (sc_conf ex_core) w' = (Inr sc2, w2)"
    using n(1) by simp_all
  from failover_no_double_launch [OF sim.scheduling_axioms ex_core_ok ex_store_ok this(1) ex_offers_ok l(1) t n' ok2 r]
  show ?thesis using l n(1) r ex_offers_ok by blast
qed

section \<open>Callbacks and requests return\<close>

context scheduler_handler
begin

lemma answers: "core_ok sc \<Longrightarrow> ready tree up sc w \<Longrightarrow> ok sc \<Longrightarrow> \<not> isl (fst (handle sc w))"
  by (erule (2) returns) simp

end

context scheduler_store
begin

lemma requests_answer:
  assumes "core_ok sc" and "ready tree up sc w"
  shows "\<not> isl (fst (createCluster Z asset k sc w))" "\<not> isl (fst (restartCluster Z k sc w))"
    "\<not> isl (fst (removeCluster Z k sc w))" "\<not> isl (fst (setConfig Z k body sc w))"
    "\<not> isl (fst (setAdvancedConfig Z k body sc w))" "\<not> isl (fst (removeNode Z k i sc w))"
    "conf_ok (sc_conf sc) \<Longrightarrow> \<not> isl (fst (createNode Z uuid k sc w))"
  using assms
  by (simp_all add: created.answers restarted.answers removed.answers configured.answers advanced.answers
      node_removed.answers node_created.answers)

lemma callbacks_answer:
  assumes "core_ok sc" and "ready tree up sc w"
  shows "\<not> isl (fst (Registered Z fid sc w))" "\<not> isl (fst (Reregistered sc w))"
    "\<not> isl (fst (StatusUpdate Z net cks nks gks status sc w))"
    "pass_ok pch sc \<Longrightarrow> driver_running drv \<Longrightarrow> \<not> isl (fst (reconcile Z U drv pch sc w))"
  using assms
  by (simp_all add: registered.answers reregistered.answers updates.answers passes.answers)

end

context scheduling
begin

lemma offers_answer:
  "core_ok sc \<Longrightarrow> ready tree up sc w \<Longrightarrow> offers_ok ch offers sc \<Longrightarrow> \<not> isl (fst (ResourceOffers Z U ch offers sc w))"
  by (rule offers.answers)

end

text \<open>
  C7: While the store answers, no callback of the driver and no pass of the reconciliation server panics,
  whatever the well-formed state, the offers, the status or the order in which maps are visited: each
  returns a result. In particular every HTTP call the update makes to a node may fail.
\<close>

theorem callbacks_return:
  assumes "scheduling Z tree up U" and "core_ok sc" and "ready tree up sc w"
    and "offers_ok ch offers sc" and "pass_ok pch sc" and "driver_running drv"
  shows "\<exists>ps sc1 w1 sc2 w2 out sc3 w3 calls sc4 w4.
    ResourceOffers Z U ch offers sc w = (Inr ps, sc1, w1) \<and> Registered Z fid sc w = (Inr (), sc2, w2) \<and>
    StatusUpdate Z net cks nks gks status sc w = (Inr out, sc3, w3) \<and>
    reconcile Z U drv pch sc w = (Inr calls, sc4, w4)"
proof -
  have st: "scheduler_store Z tree up" using assms(1) by (rule scheduling.axioms)
  have r: "\<exists>x sc' w'. h = (Inr x, sc', w')" if "\<not> isl (fst h)" for h :: "'x result \<times> SchedulerCore \<times> 'a"
    using that by (cases h; cases "fst h") auto
  note c = scheduler_store.callbacks_answer [OF st assms(2,3)]
  from r [OF scheduling.offers_answer [OF assms(1-4)]] r [OF c(1) [of fid]]
    r [OF c(3) [of net cks nks gks status]] r [OF c(4) [OF assms(5,6), of U]]
  show ?thesis by (elim exE) (simp; blast?)
qed

theorem callbacks_return_witness:
  "scheduling mem_zk mem_tree (\<lambda>w. mw_faults w = []) std_util \<and> core_ok ex_core \<and>
   (\<exists>ps sc1 w1 sc2 w2 out sc3 w3 calls sc4 w4.
    ResourceOffers mem_zk std_util (\<lambda>_. ex_choice) [ex_offer] ex_core ex_store = (Inr ps, sc1, w1) \<and>
    Registered mem_zk (Some ''f1'') ex_core ex_store = (Inr (), sc2, w2) \<and>
    StatusUpdate mem_zk (\<lambda>_ _ _. TransportError []) [''c1''] [''riak-c1-1''] [] (ex_status TASK_FINISHED) ex_core ex_store
      = (Inr out, sc3, w3) \<and>
    reconcile mem_zk std_util ex_driver (ex_pass [] [] [''riak-c1-1'']) ex_core ex_store = (Inr calls, sc4, w4))"
  using callbacks_return [OF sim.scheduling_axioms ex_core_ok ex_ready ex_offers_ok ex_pass_ok ex_driver_running]
    sim.scheduling_axioms ex_core_ok by blast



section \<open>What survives a failover\<close>

text \<open>
  C10: The framework keeps its id. When \<open>Registered\<close> has returned, a scheduler started on that store
  registers with the id the master gave, so that the master takes it for the same framework.
\<close>

theorem failover_same_framework:
  assumes "scheduling Z tree up U" and "core_ok sc" and "sc_mgr sc = conf_mgr (sc_conf sc)"
    and "Registered Z fid sc w = (Inr (), sc', w')" and "NewSchedulerCore Z listen hostname (sc_conf sc) w' = (Inr sc2, w2)"
  shows "fi_Id (framework_info E sc2) = fid \<and> fi_Id (framework_info E sc') = fid \<and> rServer_enabled sc'"
proof -
  have st: "scheduler_store Z tree up" using assms(1) by (rule scheduling.axioms)
  note r = scheduler_store.Registered_ok [OF st assms(2,4)]
  have "saved tree sc' w'" using r(2) by simp
  moreover have "sc_mgr sc' = conf_mgr (sc_conf sc)" using r(1) assms(3) by (simp add: handled_def same_setup_def)
  ultimately have "ss_FrameworkID (sc_state sc2) = ss_FrameworkID (sc_state sc')"
    using assms(5) by (rule scheduling.restart_live_node(2) [OF assms(1)])
  moreover have "ss_FrameworkID (sc_state sc') = fid \<and> rServer_enabled sc'"
  proof -
    let ?sc = "sc\<lparr>sc_state := (sc_state sc)\<lparr>ss_FrameworkID := fid\<rparr>\<rparr>"
    have "core_ok ?sc" using assms(2) by (simp add: core_ok_def data_ok_def)
    with assms(4) show ?thesis
      by (cases rule: scheduler_store.Persist_cases [OF st, of ?sc w]) (auto simp: Registered_def bind_h_def enable_def)
  qed
  ultimately show ?thesis by (simp add: framework_info_def)
qed

theorem failover_same_framework_witness:
  "\<exists>sc' w' sc2 w2. sc_mgr ex_core = conf_mgr (sc_conf ex_core) \<and>
     Registered mem_zk (Some ''f1'') ex_core ex_store = (Inr (), sc', w') \<and> NewSchedulerCore mem_zk (Some ''127.0.0.1:31'') (Some ''host'') ex_conf w' = (Inr sc2, w2) \<and>
     fi_Id (framework_info ex_env sc2) = Some ''f1''"
proof -
  obtain x sc' w' where r: "Registered mem_zk (Some ''f1'') ex_core ex_store = (Inr x, sc', w')"
    "ready mem_tree (\<lambda>w. mw_faults w = []) sc' w'"
    using memory.registered.returns [OF ex_core_ok ex_ready TrueI] .
  note h = memory.Registered_ok [OF ex_core_ok r(1)]
  from h(1) have m: "sc_mgr sc' = conf_mgr ex_conf" by (simp add: handled_def same_setup_def)
  have sv: "saved mem_tree sc' w'" using h(2) by simp
  obtain sc2 w2 where n: "NewSchedulerCore mem_zk (Some ''127.0.0.1:31'') (Some ''host'') ex_conf w' = (Inr sc2, w2)" by (rule ex_restart [OF r(2) sv m])
  have c: "sc_mgr ex_core = conf_mgr (sc_conf ex_core)" and n': "NewSchedulerCore mem_zk (Some ''127.0.0.1:31'') (Some ''host'') (sc_conf ex_core) w' = (Inr sc2, w2)"
    using n by simp_all
  have r': "Registered mem_zk (Some ''f1'') ex_core ex_store = (Inr (), sc', w')" using r(1) by simp
  from failover_same_framework [OF sim.scheduling_axioms ex_core_ok c r' n'] show ?thesis using c r' n by blast
qed

text \<open>
  C9: A status update for a living node is recorded, saved and survives a failover. Exactly that node
  changes, to the state its task reports; a scheduler started on the store the update left has every
  living node in the state it had, with none of them heard of yet.
\<close>

theorem status_update_survives:
  assumes "scheduling Z tree up U" and "core_ok sc" and "sc_mgr sc = conf_mgr (sc_conf sc)"
    and "enumerates cks (ss_Clusters (sc_state sc))" and "live_node sc k (ts_TaskId status) = Some n"
    and "StatusUpdate Z net cks nks gks status sc w = (Inr out, sc', w')"
    and "NewSchedulerCore Z listen hostname (sc_conf sc) w' = (Inr sc2, w2)"
  shows "out = HandledUpdate \<and> live_node sc' k (ts_TaskId status) = Some (status_effect status n) \<and>
    live_node sc2 k (ts_TaskId status) = Some (erase_node (status_effect status n)) \<and>
    (\<forall>j i. (j, i) \<noteq> (k, ts_TaskId status) \<longrightarrow>
       live_node sc' j i = live_node sc j i \<and> live_node sc2 j i = map_option erase_node (live_node sc j i))"
proof -
  have st: "scheduler_store Z tree up" using assms(1) by (rule scheduling.axioms)
  have h: "handled tree up sc w (Inr out) sc' w'" using assms(2,6) by (rule scheduler_store.StatusUpdate_ok [OF st])
  note a = scheduler_store.StatusUpdate_alive [OF st assms(2,4,5,6)]
  have m: "sc_mgr sc' = conf_mgr (sc_conf sc)" using h assms(3) by (simp add: handled_def same_setup_def)
  have "saved tree sc' w'" using a by simp
  note l = scheduling.restart_live_node(1) [OF assms(1) this m assms(7)]
  show ?thesis using a by (auto simp: l)
qed

theorem status_update_survives_witness:
  "\<exists>out sc' w' sc2 w2. enumerates [''c1''] (ss_Clusters (sc_state ex_core)) \<and>
     StatusUpdate mem_zk (\<lambda>_ _ _. TransportError []) [''c1''] [''riak-c1-1''] [] (ex_status TASK_RUNNING) ex_core ex_store
       = (Inr out, sc', w') \<and> NewSchedulerCore mem_zk (Some ''127.0.0.1:31'') (Some ''host'') ex_conf w' = (Inr sc2, w2) \<and>
     (\<exists>n2. live_node sc2 ''c1'' ''riak-c1-1'' = Some n2 \<and> frn_CurrentState n2 = Started \<and> \<not> frn_reconciled n2)"
proof -
  have en: "enumerates [''c1''] (ss_Clusters (sc_state ex_core))" by (simp add: enumerates_def)
  have i: "ts_TaskId (ex_status TASK_RUNNING) = ''riak-c1-1''" by (simp add: ex_status_def)
  then have l: "live_node ex_core ''c1'' (ts_TaskId (ex_status TASK_RUNNING)) = Some ex_node" by simp
  obtain out sc' w' where r: "StatusUpdate mem_zk (\<lambda>_ _ _. TransportError []) [''c1''] [''riak-c1-1''] []
      (ex_status TASK_RUNNING) ex_core ex_store = (Inr out, sc', w')" "ready mem_tree (\<lambda>w. mw_faults w = []) sc' w'"
    using memory.updates.returns [OF ex_core_ok ex_ready TrueI] .
  have m: "sc_mgr sc' = conf_mgr ex_conf"
    using memory.StatusUpdate_ok [OF ex_core_ok r(1)] by (simp add: handled_def same_setup_def)
  have sv: "saved mem_tree sc' w'" using memory.StatusUpdate_alive [OF ex_core_ok en l r(1)] by simp
  obtain sc2 w2 where n: "NewSchedulerCore mem_zk (Some ''127.0.0.1:31'') (Some ''host'') ex_conf w' = (Inr sc2, w2)" by (rule ex_restart [OF r(2) sv m])
  have c: "sc_mgr ex_core = conf_mgr (sc_conf ex_core)" and n': "NewSchedulerCore mem_zk (Some ''127.0.0.1:31'') (Some ''host'') (sc_conf ex_core) w' = (Inr sc2, w2)"
    using n by simp_all
  have "frn_CurrentState (status_effect (ex_status TASK_RUNNING) ex_node) = Started"
    by (simp add: status_effect_def ex_status_def Run_def with_status_def)
  then show ?thesis
    using status_update_survives [OF sim.scheduling_axioms ex_core_ok c en l r(1) n'] en r(1) n i by auto
qed



text \<open>
  C2: The scheduler implements a registry of clusters. Over any sequence of HTTP requests, callbacks of the driver, passes of the
  reconciliation server and restarts of the process on the store, in any order, every request is answered as the registry answers it:
  a cluster that was created is there, with the configuration that was set last, until a pass has dropped it after it was asked to go;
  unknown clusters are refused; and neither offers nor status updates nor a restart ever change what is registered. At the end
  the store holds the registry.
\<close>

theorem scheduler_refines_registry:
  assumes "scheduling Z tree up U" and "in_order tree sc w" and "history Z U es sc w rs sc' w'"
  shows "registry_history es (registry sc) rs (registry sc') \<and> in_order tree sc' w'"
  using scheduling.history_refines [OF assms(1,3,2)] by simp

definition ex_request :: RequestEnv where
  "ex_request = \<lparr>rq_asset = Map.empty, rq_uuid = ''u'', rq_net = (\<lambda>_. TransportError ''refused''), rq_put = (\<lambda>_ _. TransportError ''refused''),
     rq_body = Inr ''ring_size = 64''\<rparr>"

theorem scheduler_refines_registry_witness:
  "\<exists>sc' w'. in_order mem_tree ex_core ex_store \<and>
     history mem_zk std_util [Http SetConfig [''c1''] ex_request, Restart_ev (Some ''127.0.0.1:31'') (Some ''host''), Http GetConfig [''c1''] ex_request]
       ex_core ex_store [Some (HttpReply 200 (Words ''Success!'')), None, Some (HttpReply 200 (Words ''ring_size = 64''))] sc' w'"
proof -
  let ?set = "Http SetConfig [''c1''] ex_request" and ?get = "Http GetConfig [''c1''] ex_request"
  let ?again = "Restart_ev (Some ''127.0.0.1:31'') (Some ''host'')"
  have o: "in_order mem_tree ex_core ex_store" using ex_core_ok ex_store_ok ex_saved by (simp add: in_order_def)
  obtain rsp sc1 w1 where r: "setConfig mem_zk ''c1'' (rq_body ex_request) ex_core ex_store = (Inr rsp, sc1, w1)"
    "ready mem_tree (\<lambda>w. mw_faults w = []) sc1 w1"
    using memory.configured.returns [OF ex_core_ok ex_ready TrueI] .
  have s: "performs mem_zk std_util ?set ex_core ex_store (Some (reply_of rsp)) sc1 w1"
    using r(1) by (intro performs.request [where h = "setConfig mem_zk ''c1'' (rq_body ex_request)"]) (simp_all add: handler_of_def)
  from sim.performs_refines [OF s o] have o1: "in_order mem_tree sc1 w1" by simp
  have c1: "sc_conf sc1 = ex_conf" "sc_mgr sc1 = conf_mgr ex_conf" "saved mem_tree sc1 w1"
    using memory.setConfig_ok [OF ex_core_ok r(1)] o1 by (simp_all add: handled_def same_setup_def in_order_def)
  obtain sc2 w2 where n: "NewSchedulerCore mem_zk (Some ''127.0.0.1:31'') (Some ''host'') ex_conf w1 = (Inr sc2, w2)"
    by (rule ex_restart [OF r(2) c1(3,2)])
  obtain rsp' where g: "getConfig ''c1'' sc2 w2 = (Inr rsp', sc2, w2)"
    using read_only_handlers(1) [of "''c1''"] by (metis read_only_def)
  have "performs mem_zk std_util ?again sc1 w1 None sc2 w2" using n c1(1) by (intro performs.restarted) simp
  moreover have "performs mem_zk std_util ?get sc2 w2 (Some (reply_of rsp')) sc2 w2"
    using g by (intro performs.request [where h = "getConfig ''c1''"]) (simp_all add: handler_of_def)
  ultimately have h: "history mem_zk std_util [?set, ?again, ?get] ex_core ex_store [Some (reply_of rsp), None, Some (reply_of rsp')] sc2 w2"
    using s by (intro history.step) (assumption | rule history.nothing)+
  have "fmlookup (registry ex_core) ''c1'' = Some (entry_of ex_cluster)" by (simp add: registry_lookup)
  with scheduler_refines_registry [OF sim.scheduling_axioms o h]
  have "reply_of rsp = HttpReply 200 (Words ''Success!'')" "reply_of rsp' = HttpReply 200 (Words ''ring_size = 64'')"
    by (auto simp: registry_ask_def registry_write_def ex_request_def)
  with h o show ?thesis by metis
qed

section \<open>Passes of the reconciliation server\<close>

text \<open>
  C6: A pass never stops a task in the same breath in which it asks about tasks. Either all its calls ask
  the master about tasks of living nodes not heard of yet, and nothing that is saved changes; or each
  call finishes or kills the task of a living node that is to be shut down or is due for a restart, and
  every cluster becomes what the pass owes it: nodes to be removed are buried, every node that can be
  killed is told to finish, at most restarting nodes change, and a killed cluster with nothing left goes
  to the graveyard. When the pass returns the result is saved.
\<close>

theorem reconcile_pass:
  assumes "scheduler_store Z tree up" and "core_ok sc" and "pass_ok ch sc" and "driver_running drv"
    and "saved tree sc w" and "reconcile Z U drv ch sc w = (Inr calls, sc', w')"
  shows "saved tree sc' w' \<and>
    ((\<forall>call \<in> set calls. \<exists>sts. call = ReconcileTasks sts \<and> sts \<noteq> [] \<and> (\<forall>st \<in> set sts. asks_about sc st)) \<and>
       serialize (sc_state sc') = serialize (sc_state sc) \<or>
     (\<forall>call \<in> set calls. \<exists>k. sound_call U sc k call) \<and> (\<forall>k. passed U sc sc' calls k))"
proof -
  from scheduler_store.reconcile_ok [OF assms(1-4,6)] assms(5) have s: "saved tree sc' w'"
    by (rule handled_saved)
  show ?thesis
  proof (cases rule: scheduler_store.reconcile_cases [OF assms(1-4,6)])
    case 3
    then show ?thesis using s scheduler_store.killTasks_spec(2) [OF assms(1-4) 3 refl] by blast
  qed (use s in simp_all)
qed

theorem reconcile_pass_witness:
  "pass_ok (ex_pass [] [] [''riak-c1-1'']) ex_core \<and> driver_running ex_driver \<and> saved mem_tree ex_core ex_store \<and>
   (\<exists>calls sc' w'. reconcile mem_zk std_util ex_driver (ex_pass [] [] [''riak-c1-1'']) ex_core ex_store = (Inr calls, sc', w') \<and>
      saved mem_tree sc' w')"
proof -
  obtain calls sc' w' where
    r: "reconcile mem_zk std_util ex_driver (ex_pass [] [] [''riak-c1-1'']) ex_core ex_store = (Inr calls, sc', w')"
    using memory.passes.returns [OF ex_core_ok ex_ready conjI [OF ex_pass_ok ex_driver_running]] .
  from reconcile_pass [OF memory.scheduler_store_axioms ex_core_ok ex_pass_ok ex_driver_running ex_saved r]
  show ?thesis using r ex_pass_ok ex_driver_running ex_saved by blast
qed

text \<open>A pass over a cluster all of whose nodes are to be shut down.\<close>

lemma pass_killed_cluster:
  assumes "pass_cluster U (killed_cluster c) c' removed dirty calls" and "\<not> frc_IsRestarting c"
  shows "removed \<longleftrightarrow> (\<forall>i n. fmlookup (frc_Nodes c) i = Some n \<longrightarrow> frn_CurrentState n \<noteq> Started)"
    and "frc_IsKilled c'"
    and "fmlookup (frc_Nodes c) i = Some n \<Longrightarrow> frn_CurrentState n = Started \<Longrightarrow> fmlookup (frc_Nodes c') i = Some (KillNext n)"
    and "fmlookup (frc_Nodes c) i = Some n \<Longrightarrow> frn_CurrentState n \<noteq> Started \<Longrightarrow>
      fmlookup (frc_Nodes c') i = None \<and> fmlookup (frc_Graveyard c') i = Some (KillNext n)"
    and "fmlookup (frc_Nodes c) i = Some n \<Longrightarrow> frn_CurrentState n \<in> {Starting, Started} \<Longrightarrow> finish_call U n \<in> set calls"
proof -
  have k: "frc_IsKilled (killed_cluster c)" "\<not> frc_IsRestarting (killed_cluster c)"
    "fmlookup (frc_Nodes (killed_cluster c)) i = map_option KillNext (fmlookup (frc_Nodes c) i)" for i
    using assms(2) by (simp_all add: killed_cluster_def Cluster_KillNext_def)
  have n: "CanBeRemoved (KillNext n) \<longleftrightarrow> frn_CurrentState n \<noteq> Started"
    "CanBeKilled (KillNext n) \<longleftrightarrow> frn_CurrentState n \<in> {Starting, Started}" "finish_call U (KillNext n) = finish_call U n" for n
    by (auto simp: CanBeRemoved_def CanBeKilled_def KillNext_def finish_call_def CreateExecutorID_def ExecutorID_def)
  note p = assms(1) [unfolded pass_cluster_def k(3)]
  from p k(1) have "removed \<longleftrightarrow> (\<forall>i n. map_option KillNext (fmlookup (frc_Nodes c) i) = Some n \<longrightarrow> CanBeRemoved n)" by metis
  also have "\<dots> \<longleftrightarrow> (\<forall>i n. fmlookup (frc_Nodes c) i = Some n \<longrightarrow> CanBeRemoved (KillNext n))" by auto
  finally show "removed \<longleftrightarrow> (\<forall>i n. fmlookup (frc_Nodes c) i = Some n \<longrightarrow> frn_CurrentState n \<noteq> Started)" unfolding n(1) .
  show "frc_IsKilled c'" using p k(1) by metis
  have f: "if CanBeRemoved (KillNext n) then fmlookup (frc_Nodes c') i = None \<and> fmlookup (frc_Graveyard c') i = Some (KillNext n)
      else fmlookup (frc_Nodes c') i = Some (KillNext n)"
    "CanBeKilled (KillNext n) \<Longrightarrow> finish_call U (KillNext n) \<in> set calls"
    if "fmlookup (frc_Nodes c) i = Some n"
    using p that k(2) unfolding restartable_def by (metis option.simps(9))+
  show "fmlookup (frc_Nodes c) i = Some n \<Longrightarrow> frn_CurrentState n = Started \<Longrightarrow> fmlookup (frc_Nodes c') i = Some (KillNext n)"
    "fmlookup (frc_Nodes c) i = Some n \<Longrightarrow> frn_CurrentState n \<noteq> Started \<Longrightarrow>
      fmlookup (frc_Nodes c') i = None \<and> fmlookup (frc_Graveyard c') i = Some (KillNext n)"
    "fmlookup (frc_Nodes c) i = Some n \<Longrightarrow> frn_CurrentState n \<in> {Starting, Started} \<Longrightarrow> finish_call U n \<in> set calls"
    using f n by auto
qed



section \<open>Requests that are refused\<close>

definition refused :: "int \<Rightarrow> (HttpResponse, 'w) handler \<Rightarrow> SchedulerCore \<Rightarrow> 'w \<Rightarrow> bool" where
  "refused status handle sc w \<longleftrightarrow> (\<exists>body. handle sc w = (Inr \<lparr>rsp_code = status, rsp_body = body\<rparr>, sc, w))"

lemmas refused_defs = refused_def respond_def cluster_not_found_def node_not_found_def

text \<open>
  C35: A request for a cluster or a node that does not exist is answered with 404, and a request to create
  a cluster that exists with 409; in each case neither the state nor the store is touched, and no request
  goes to a node.
\<close>

theorem missing_not_found:
  fixes net :: transport
  shows "(fmlookup (ss_Clusters (sc_state sc)) k = None \<longrightarrow>
      refused 404 (restartCluster Z k) sc w \<and> refused 404 (removeCluster Z k) sc w \<and>
      refused 404 (setConfig Z k body) sc w \<and> refused 404 (getConfig k) sc w \<and>
      refused 404 (setAdvancedConfig Z k body) sc w \<and> refused 404 (getAdvancedConfig k) sc w \<and>
      refused 404 (getCluster k) sc w \<and> refused 404 (createNode Z uuid k) sc w \<and> refused 404 (serveNodes k) sc w) \<and>
    (live_node sc k i = None \<longrightarrow>
      refused 404 (removeNode Z k i) sc w \<and> refused 404 (nodeAAE net k i) sc w \<and> refused 404 (nodeStatus net k i) sc w \<and>
      refused 404 (nodeRingready net k i) sc w \<and> refused 404 (nodeTransfers net k i) sc w \<and>
      refused 404 (nodeTypes net k i) sc w \<and> refused 404 (nodeCreateType pnet k i ty body) sc w) \<and>
    (fmlookup (ss_Clusters (sc_state sc)) k \<noteq> None \<longrightarrow> refused 409 (createCluster Z asset k) sc w)"
proof (intro conjI impI)
  assume "live_node sc k i = None"
  then consider "fmlookup (ss_Clusters (sc_state sc)) k = None"
    | c where "fmlookup (ss_Clusters (sc_state sc)) k = Some c" "fmlookup (frc_Nodes c) i = None"
    by (auto simp: live_node_def split: option.splits)
  then show "refused 404 (removeNode Z k i) sc w" "refused 404 (nodeAAE net k i) sc w" "refused 404 (nodeStatus net k i) sc w"
    "refused 404 (nodeRingready net k i) sc w" "refused 404 (nodeTransfers net k i) sc w"
    "refused 404 (nodeTypes net k i) sc w" "refused 404 (nodeCreateType pnet k i ty body) sc w"
    by (cases; simp add: refused_defs removeNode_def nodeAAE_def nodeStatus_def nodeRingready_def nodeTransfers_def
        nodeTypes_def nodeCreateType_def ask_node_def)+
qed (auto simp: refused_defs restartCluster_def removeCluster_def setConfig_def getConfig_def setAdvancedConfig_def
    getAdvancedConfig_def getCluster_def createNode_def serveNodes_def createCluster_def)

theorem missing_not_found_witness:
  "refused 404 (removeCluster mem_zk ''c2'') ex_core ex_store \<and> refused 404 (removeNode mem_zk ''c1'' ''riak-c1-9'') ex_core ex_store \<and>
   refused 409 (createCluster mem_zk (\<lambda>_. None) ''c1'') ex_core ex_store"
proof -
  have "fmlookup (ss_Clusters (sc_state ex_core)) ''c2'' = None" "live_node ex_core ''c1'' ''riak-c1-9'' = None"
    "fmlookup (ss_Clusters (sc_state ex_core)) ''c1'' \<noteq> None"
    by (simp_all add: live_node_def ex_cluster_def)
  then show ?thesis
    using missing_not_found [of ex_core "''c2''" mem_zk ex_store]
      missing_not_found [of ex_core "''c1''" mem_zk ex_store _ _ "''riak-c1-9''" _ _ _ "\<lambda>_. None"] by simp
qed

section \<open>Where requests are lost\<close>

text \<open>
  A rolling restart takes a removal back. A running node that is to be removed counts as neither
  restarted nor restarting, so a pass over a cluster in a rolling restart tells it to finish and marks it
  for a restart; when its task has finished, the node is not removed but can be scheduled again.
\<close>

theorem restart_revives_killed_node:
  "\<exists>c c' m n'. frc_IsRestarting c \<and> fmlookup (frc_Nodes c) ''riak-c1-1'' = Some (KillNext (ex_running 1)) \<and>
     frn_CurrentState (ex_running 1) = Started \<and>
     GetNodesToRestart [''riak-c1-1''] c = (c', m, True) \<and> fmlookup (frc_Nodes c') ''riak-c1-1'' = Some n' \<and>
     CanBeScheduled (status_effect (ex_status TASK_FINISHED) n') \<and> \<not> CanBeRemoved (status_effect (ex_status TASK_FINISHED) n')"
proof -
  let ?n = "KillNext (ex_running 1)"
  let ?c = "ex_cluster\<lparr>frc_Nodes := fmupd ''riak-c1-1'' ?n fmempty, frc_IsRestarting := True, frc_Generation := 1\<rparr>"
  have id: "CurrentID ?n = ''riak-c1-1''" by code_simp
  have h: "\<not> HasRestarted ?n 1" "\<not> IsRestarting ?n 1"
    by (simp_all add: HasRestarted_def IsRestarting_def ex_running_def KillNext_def)
  have 1: "GetNodesToRestart [''riak-c1-1''] ?c =
      (?c\<lparr>frc_Nodes := fmupd ''riak-c1-1'' (Restart 1 ?n) fmempty\<rparr>, fmupd ''riak-c1-1'' (Restart 1 ?n) fmempty, True)"
    by (simp add: GetNodesToRestart_def h id Let_def len_map_upd)
  have "CanBeScheduled (status_effect (ex_status TASK_FINISHED) (Restart 1 ?n))"
    "\<not> CanBeRemoved (status_effect (ex_status TASK_FINISHED) (Restart 1 ?n))"
    by (simp_all add: status_effect_def ex_status_def with_status_def Restart_def CanBeScheduled_def NeedsToBeReconciled_def
        CanBeRemoved_def Finish_def)
  moreover have "frn_CurrentState (ex_running 1) = Started" by (simp add: ex_running_def)
  ultimately show ?thesis
    using 1
    by (intro exI [of _ ?c] exI [of _ "?c\<lparr>frc_Nodes := fmupd ''riak-c1-1'' (Restart 1 ?n) fmempty\<rparr>"]
        exI [of _ "fmupd ''riak-c1-1'' (Restart 1 ?n) fmempty"] exI [of _ "Restart 1 ?n"] conjI) simp_all
qed

text \<open>
  A cluster created again under the name of one in the graveyard starts counting anew: its first node
  has the task id of the first node the old cluster had, so that a late update for the old task is taken
  for one of the new node; and removing the new cluster replaces the old one in the graveyard.
\<close>

theorem recreated_cluster_reuses_ids:
  assumes "CreateNode conf u1 (NewFrameworkRiakCluster a1 name) = Inr (c1, n1)"
    and "CreateNode conf u2 (NewFrameworkRiakCluster a2 name) = Inr (c2, n2)"
  shows "CurrentID n1 = CurrentID n2 \<and>
    fmlookup (ss_Graveyard (sc_state (put_cluster name True c1 sc))) name = Some c1 \<and>
    fmlookup (ss_Graveyard (sc_state (put_cluster name True c2 (put_cluster name True c1 sc)))) name = Some c2"
proof -
  have new: "frc_Name c = name \<and> frn_SimpleId n = 1 \<and> frn_FrameworkName n = sc_frameworkName conf \<and> frn_ClusterName n = name"
    if "CreateNode conf u (NewFrameworkRiakCluster a name) = Inr (c, n)" for u a c n
    using CreateNode_cases [OF that]
    by (auto simp: NewFrameworkRiakCluster_def NewFrameworkRiakNode_def GetNextSimpleId_def len_map_def Let_def split: option.splits)
  from new [OF assms(1)] new [OF assms(2)] show ?thesis
    by (simp add: put_cluster_lookup(2)) (simp add: CurrentID_def)
qed

theorem recreated_cluster_reuses_ids_witness:
  "\<exists>c1 n1 c2 n2. CreateNode ex_conf ''u1'' (NewFrameworkRiakCluster (\<lambda>_. Some []) ''c1'') = Inr (c1, n1) \<and>
     CreateNode ex_conf ''u2'' (NewFrameworkRiakCluster (\<lambda>_. Some []) ''c1'') = Inr (c2, n2) \<and> CurrentID n1 = CurrentID n2"
proof -
  have "ParseFloat ''0.5'' \<noteq> None" "ParseFloat ''1024'' \<noteq> None" "ParseFloat ''500'' \<noteq> None" by code_simp+
  then have "conf_ok ex_conf" by (simp add: conf_ok_def ex_conf_def)
  then have "\<exists>x. CreateNode ex_conf u (NewFrameworkRiakCluster (\<lambda>_. Some []) ''c1'') = Inr x" for u
    by (simp add: conf_ok_CreateNode [of ex_conf u "NewFrameworkRiakCluster (\<lambda>_. Some []) ''c1''"])
  from this [of "''u1''"] this [of "''u2''"] obtain c1 n1 c2 n2 where
    c: "CreateNode ex_conf ''u1'' (NewFrameworkRiakCluster (\<lambda>_. Some []) ''c1'') = Inr (c1, n1)"
    "CreateNode ex_conf ''u2'' (NewFrameworkRiakCluster (\<lambda>_. Some []) ''c1'') = Inr (c2, n2)" by (elim exE) (auto intro: that)
  from recreated_cluster_reuses_ids [OF c] have "CurrentID n1 = CurrentID n2" by (rule conjunct1)
  with c show ?thesis by (intro exI conjI)
qed

text \<open>
  Saving never reports an error: it returns when the state is in the store, with no error, or panics.
  The branches of the handlers for a failed save, which answer 503, are never taken.
\<close>

theorem persist_returns_no_error:
  assumes "scheduler_store Z tree up" and "core_ok sc" and "Persist Z sc w = (Inr err, sc', w')"
  shows "err = None \<and> saved tree sc' w' \<and> (setConfig Z k body sc w = (Inr rsp, sc2, w2) \<longrightarrow>
    rsp_code rsp \<noteq> 503 \<or> isl body)"
proof -
  have "rsp_code rsp \<noteq> 503 \<or> isl body" if s: "setConfig Z k body sc w = (Inr rsp, sc2, w2)"
  proof (cases "fmlookup (ss_Clusters (sc_state sc)) k"; cases body)
    fix c data
    assume "fmlookup (ss_Clusters (sc_state sc)) k = Some c" "body = Inr data"
    with scheduler_store.setConfig_cases(3) [OF assms(1,2), of k data w "Inr rsp" sc2 w2 c rsp] s show ?thesis by simp
  qed (use s in \<open>auto simp: setConfig_def cluster_not_found_def respond_def\<close>)
  with scheduler_store.Persist_ok(2) [OF assms refl] show ?thesis by blast
qed

theorem persist_returns_no_error_witness:
  "\<exists>sc' w'. core_ok ex_core \<and> Persist mem_zk ex_core ex_store = (Inr None, sc', w') \<and> saved mem_tree sc' w'"
proof -
  obtain r sc' w' where p: "Persist mem_zk ex_core ex_store = (r, sc', w')" by (cases "Persist mem_zk ex_core ex_store") auto
  with memory.Persist_ok(1) [OF ex_core_ok p] ex_ready obtain err where
    p': "Persist mem_zk ex_core ex_store = (Inr err, sc', w')" by (cases r) (auto simp: handled_def)
  from persist_returns_no_error [OF memory.scheduler_store_axioms ex_core_ok p'] p' ex_core_ok show ?thesis by blast
qed



section \<open>From the offer to the running node\<close>

text \<open>
  C4: From the offer to the running node, across scheduler and executor. A node is launched on an offer; the executor that receives the
  task fetches its configuration from the scheduler, which answers by \<open>getConfig\<close>; and the launch returns with a
  running Riak. Then the file Riak reads is the cluster's configuration filled in with the ports of the
  task, the store announces the node with its host, its cluster and its ports, the slave is told the HTTP port
  in a form the scheduler can decode, and the three ports are different ports of the offer that are given to nobody else.
\<close>

theorem launched_node_announced:
  assumes "mesosutil_laws U" and "good_ports (rg_Ports (UnreservedResources h))" and "3 \<le> frn_Ports frn"
    and "frn_Role frn \<noteq> None" and "frn_Principal frn \<noteq> None"
    and "ApplyReservedOffer U rnd (sc_conf sc) frn h = Inr (frn', h', True)"
    and "getConfig (frn_ClusterName frn) sc v = (Inr \<lparr>rsp_code = status, rsp_body = Text config\<rparr>, sc, v)"
    and "le_get E (sc_URI (sc_conf sc) @ ''/api/v1/clusters/'' @ frn_ClusterName frn @ ''/config'') = Response status config"
    and "zookeeper Z tree" and "\<not> ec_locked ex" and "ec_riakNode ex = None"
    and "LaunchTask Z send E (last (TasksToLaunch h')) ex w = (Returns (Some child), ex', w')"
  shows "\<exists>bytes cd fill content update. tree w' (GetZKPath (zn_ns child)) = Some (Some bytes) \<and>
    DeserializeCoordinatedData bytes = (cd, False) \<and>
    cd_Hostname cd = of_Hostname (MesosOffer h) \<and> cd_ClusterName cd = frn_ClusterName frn \<and>
    distinct [cd_HTTPPort cd, cd_PBPort cd, cd_DisterlPort cd] \<and>
    set [cd_HTTPPort cd, cd_PBPort cd, cd_DisterlPort cd] \<subseteq>
      set (rg_Ports (UnreservedResources h)) - set (rg_Ports (UnreservedResources h')) \<and>
    le_template E config = Some fill \<and> fill (template_vars (frn_TaskData frn')) = (content, True) \<and>
    ec_files ex' ''root/riak/etc/riak.conf'' = Some content \<and>
    last (ec_updates ex') = \<lparr>su_TaskId = CurrentID frn, su_State = TASK_RUNNING, su_Data = Encoded update\<rparr> \<and>
    DeserializeTaskStatusData update = (\<lparr>tsd_RexPort = cd_HTTPPort cd\<rparr>, False)"
proof -
  from launched_task [OF assms(1-6)] obtain task ps where t: "frn' = launched (sc_conf sc) h ps frn" "TasksToLaunch h' = TasksToLaunch h @ [task]"
    "ti_TaskId task = CurrentID frn" "ti_Data task = TaskData_Serialize (frn_TaskData frn')"
    and d: "distinct [td_HTTPPort (task_data task), td_PBPort (task_data task), td_DisterlPort (task_data task)]"
    "set [td_HTTPPort (task_data task), td_PBPort (task_data task), td_DisterlPort (task_data task)] \<subseteq>
       set (rg_Ports (UnreservedResources h)) - set (rg_Ports (UnreservedResources h'))"
    by (auto simp: Let_def)
  have td: "task_data task = frn_TaskData frn'" using t(4) by (rule task_data_serialized)
  have f: "td_URI (frn_TaskData frn') = sc_URI (sc_conf sc)" "td_ClusterName (frn_TaskData frn') = frn_ClusterName frn"
    "td_Host (frn_TaskData frn') = of_Hostname (MesosOffer h)"
    by (simp_all add: t(1) launched_def node_TaskData_def Let_def)
  have "fetch_config E (config_uri (task_data task) ''config'') = Inr config"
    using assms(8) by (simp add: fetch_config_def config_uri_def td f)
  moreover have "LaunchTask Z send E task ex w = (Returns (Some child), ex', w')" using assms(12) t(2) by simp
  note l = LaunchTask_outcome [OF assms(9-11) this, simplified]
  ultimately obtain fill content where "le_template E config = Some fill" "fill (template_vars (frn_TaskData frn')) = (content, True)"
    "ec_files ex' ''root/riak/etc/riak.conf'' = Some content"
    by (auto simp: configured_def td)
  moreover let ?cd = "coordinated_data (task_data task) (template_vars (task_data task))"
  from l have "tree w' (GetZKPath (zn_ns child)) = Some (Some (CoordinatedData_Serialize ?cd))" by blast
  moreover from l t(3) have "last (ec_updates ex') = \<lparr>su_TaskId = CurrentID frn, su_State = TASK_RUNNING,
      su_Data = Encoded (TaskStatusData_Serialize \<lparr>tsd_RexPort = cd_HTTPPort ?cd\<rparr>)\<rparr>"
    by (simp add: running_status_def node_of_def coordinated_data_def template_vars_def)
  moreover have "cd_Hostname ?cd = of_Hostname (MesosOffer h)" "cd_ClusterName ?cd = frn_ClusterName frn"
    "distinct [cd_HTTPPort ?cd, cd_PBPort ?cd, cd_DisterlPort ?cd]"
    "set [cd_HTTPPort ?cd, cd_PBPort ?cd, cd_DisterlPort ?cd] \<subseteq> set (rg_Ports (UnreservedResources h)) - set (rg_Ports (UnreservedResources h'))"
    using d f by (simp_all add: coordinated_data_def template_vars_def td)
  ultimately show ?thesis using CoordinatedData_roundtrip TaskStatusData_roundtrip by blast
qed

theorem launched_node_announced_witness:
  "\<exists>frn' h' child ex' w' bytes cd. ApplyReservedOffer std_util 1 ex_conf ex_node ex_helper = Inr (frn', h', True) \<and>
     LaunchTask mem_zk (\<lambda>_. None) served_env (last (TasksToLaunch h')) (newExecutor\<lparr>ec_Driver := True\<rparr>) no_nodes = (Returns (Some child), ex', w') \<and>
     mem_tree w' (GetZKPath (zn_ns child)) = Some (Some bytes) \<and> DeserializeCoordinatedData bytes = (cd, False) \<and> cd_ClusterName cd = ''c1''"
proof -
  have n: "3 \<le> frn_Ports ex_node" "frn_Role ex_node \<noteq> None" "frn_Principal ex_node \<noteq> None" and k: "frn_ClusterName ex_node = ''c1''"
    by (simp_all add: ex_node_def)
  obtain frn' h' where a: "ApplyReservedOffer std_util 1 (sc_conf ex_core) ex_node ex_helper = Inr (frn', h', True)"
    using ex_node_launch by auto
  from launched_task [OF std.mesosutil_laws_axioms good_ports_ex_helper n a] obtain task ps
    where t: "frn' = launched ex_conf ex_helper ps ex_node" "TasksToLaunch h' = TasksToLaunch ex_helper @ [task]"
      "ti_TaskId task = CurrentID ex_node" "ti_Data task = TaskData_Serialize (frn_TaskData frn')" by auto
  have "td_FrameworkName (frn_TaskData frn') = ''riak''" "td_Zookeepers (frn_TaskData frn') = [''zk1:2181'']"
    by (simp_all add: t(1) launched_def node_TaskData_def Let_def ex_conf_def)
  with t(3,4) ex_node_id obtain child ex' w'
    where "LaunchTask mem_zk (\<lambda>_. None) served_env task (newExecutor\<lparr>ec_Driver := True\<rparr>) no_nodes = (Returns (Some child), ex', w')"
    by (metis ex_launch_returns)
  then have l: "LaunchTask mem_zk (\<lambda>_. None) served_env (last (TasksToLaunch h')) (newExecutor\<lparr>ec_Driver := True\<rparr>) no_nodes = (Returns (Some child), ex', w')"
    by (simp add: t(2))
  have g: "getConfig (frn_ClusterName ex_node) ex_core () =
      (Inr \<lparr>rsp_code = 200, rsp_body = Text (frc_RiakConfig ex_cluster)\<rparr>, ex_core, ())"
    by (simp add: getConfig_def respond_def k)
  have e: "le_get served_env (sc_URI (sc_conf ex_core) @ ''/api/v1/clusters/'' @ frn_ClusterName ex_node @ ''/config'') =
      Response 200 (frc_RiakConfig ex_cluster)" by (simp add: served_env_def)
  have x: "\<not> ec_locked (newExecutor\<lparr>ec_Driver := True\<rparr>)" "ec_riakNode (newExecutor\<lparr>ec_Driver := True\<rparr>) = None"
    by (simp_all add: newExecutor_def)
  from launched_node_announced [OF std.mesosutil_laws_axioms good_ports_ex_helper n a g e mem.zookeeper_axioms x l] a l k show ?thesis
    by (simp del: One_nat_def) blast
qed

end
